(* ===== verification/Prelude.thy ===== *)
theory Prelude
  imports Main "HOL-Library.Sublist"
begin

section \<open>Shared vocabulary of the development\<close>

text \<open>
  What every component uses: the collections of defining equations that the component proofs
  unfold (\<open>js_defs\<close> for the small TypeScript operators, \<open>entity_defs\<close> for the data
  model), TypeScript's \<open>??\<close> and truthiness on optional strings, the string operations of the
  standard library that the source calls (\<open>trim\<close>, \<open>toLowerCase\<close>, \<open>includes\<close>,
  \<open>join\<close>), and collections of documents updated by key.

  A value of type \<open>'a option\<close> stands for a TypeScript \<open>T | undefined\<close> (or \<open>T | null\<close>
  where the source treats the two alike). Strings are lists of Latin-1 code
  units; where a message of the source has a character beyond that, the model writes it in ASCII.
\<close>

named_theorems js_defs
named_theorems entity_defs

type_synonym oid = string  \<comment> \<open>a Mongo ObjectId in its hexadecimal form\<close>
type_synonym path = "string list"  \<comment> \<open>the segments of a file's path\<close>
type_synonym millis = int  \<comment> \<open>a \<open>Date\<close>, in milliseconds since the epoch\<close>

subsection \<open>Nullish coalescing and truthiness\<close>

definition nullish :: "'a option \<Rightarrow> 'a \<Rightarrow> 'a" where
  "nullish x d = (case x of None \<Rightarrow> d | Some v \<Rightarrow> v)"

lemma nullish_simps [simp]: "nullish None d = d" "nullish (Some v) d = v"
  by (simp_all add: nullish_def)

definition or_else :: "'a option \<Rightarrow> 'a option \<Rightarrow> 'a option" where
  "or_else x y = (case x of None \<Rightarrow> y | Some v \<Rightarrow> Some v)"

lemma or_else_simps [simp]: "or_else None y = y" "or_else (Some v) y = Some v"
  by (simp_all add: or_else_def)

definition truthy :: "string option \<Rightarrow> bool" where
  "truthy x = (case x of None \<Rightarrow> False | Some s \<Rightarrow> s \<noteq> [])"

lemma truthy_simps [simp]: "truthy None = False" "truthy (Some s) = (s \<noteq> [])"
  by (simp_all add: truthy_def)

lemma truthy_iff: "truthy x \<longleftrightarrow> (\<exists>s. x = Some s \<and> s \<noteq> [])"
  by (cases x) auto

lemma case_unit_any [simp]: "case_unit f u = f"
  by (induction u) (rule unit.case)

subsection \<open>Strings\<close>

text \<open>
  White space as \<open>String.prototype.trim\<close> sees it, restricted to code units below 256: tab,
  line feed, vertical tab, form feed, carriage return, space and the no-break space.
\<close>

definition js_space :: "char \<Rightarrow> bool" where
  "js_space c = (of_char c \<in> {9, 10, 11, 12, 13, 32, 160 :: nat})"

definition js_trim :: "string \<Rightarrow> string" where
  "js_trim s = rev (dropWhile js_space (rev (dropWhile js_space s)))"

lemma js_trim_Nil [simp]: "js_trim [] = []"
  by (simp add: js_trim_def)

lemma dropWhile_rev_dropWhile:
  assumes "xs = [] \<or> \<not> P (hd xs)"
  shows "rev (dropWhile P (rev xs)) = [] \<or> \<not> P (hd (rev (dropWhile P (rev xs))))"
proof (cases xs)
  case Nil
  then show ?thesis by simp
next
  case (Cons a list)
  with assms have "\<not> P a" by simp
  then have "dropWhile P (rev list @ [a]) = dropWhile P (rev list) @ [a]"
    by (induction "rev list" rule: rev_induct)
      (auto simp: dropWhile_append split: if_splits)
  with Cons \<open>\<not> P a\<close> show ?thesis by simp
qed

lemma dropWhile_noop: "xs = [] \<or> \<not> P (hd xs) \<Longrightarrow> dropWhile P xs = xs"
  by (cases xs) auto

lemma hd_dropWhile_free: "dropWhile P xs = [] \<or> \<not> P (hd (dropWhile P xs))"
  using hd_dropWhile by blast

lemma js_trim_idem [simp]: "js_trim (js_trim s) = js_trim s"
proof -
  let ?m = "dropWhile js_space s"
  let ?t = "rev (dropWhile js_space (rev ?m))"
  have "dropWhile js_space ?t = ?t"
    by (intro dropWhile_noop dropWhile_rev_dropWhile hd_dropWhile_free)
  moreover have "dropWhile js_space (rev ?t) = rev ?t"
    by (simp add: dropWhile_noop [OF hd_dropWhile_free])
  ultimately show ?thesis by (simp add: js_trim_def)
qed

definition lower_char :: "char \<Rightarrow> char" where
  "lower_char c = (let n = (of_char c :: nat) in if 65 \<le> n \<and> n \<le> 90 then char_of (n + 32) else c)"

definition js_lower :: "string \<Rightarrow> string" where
  "js_lower s = map lower_char s"

text \<open>\<open>s.includes(pat)\<close>, and the alternation of literals in a regular expression.\<close>

fun str_includes :: "string \<Rightarrow> string \<Rightarrow> bool" where
  "str_includes [] pat = (pat = [])"
| "str_includes (c # s) pat = (prefix pat (c # s) \<or> str_includes s pat)"

lemma str_includes_iff: "str_includes s pat \<longleftrightarrow> (\<exists>a b. s = a @ pat @ b)"
proof (induction s)
  case Nil
  then show ?case by auto
next
  case (Cons c s)
  have "str_includes (c # s) pat \<longleftrightarrow> (\<exists>b. c # s = pat @ b) \<or> (\<exists>a b. s = a @ pat @ b)"
    using Cons by (auto simp: prefix_def)
  also have "\<dots> \<longleftrightarrow> (\<exists>a b. c # s = a @ pat @ b)"
    by (metis append_Cons append_Nil list.sel(3) neq_Nil_conv)
  finally show ?case .
qed

fun join_with :: "string \<Rightarrow> string list \<Rightarrow> string" where
  "join_with sep [] = []"
| "join_with sep [x] = x"
| "join_with sep (x # y # zs) = x @ sep @ join_with sep (y # zs)"

text \<open>\<open>s.split(c)\<close> for a separator of one character.\<close>

fun split_on :: "char \<Rightarrow> string \<Rightarrow> string list" where
  "split_on c [] = [[]]"
| "split_on c (x # xs) =
     (if x = c then [] # split_on c xs
      else case split_on c xs of [] \<Rightarrow> [[x]] | p # ps \<Rightarrow> (x # p) # ps)"

text \<open>The decimal digits of a number, as a template literal prints it.\<close>

fun show_digits :: "nat \<Rightarrow> string" where
  "show_digits n =
     (if n < 10 then [''0123456789'' ! n] else show_digits (n div 10) @ [''0123456789'' ! (n mod 10)])"

declare show_digits.simps [simp del]

subsection \<open>Collections of documents, keyed by a field\<close>

text \<open>
  A collection is the list of its documents in insertion order. \<open>put_by k d ds\<close> replaces the
  document with \<open>d\<close>'s key, or appends \<open>d\<close> when there is none.
\<close>

definition put_by :: "('d \<Rightarrow> 'k) \<Rightarrow> 'd \<Rightarrow> 'd list \<Rightarrow> 'd list" where
  "put_by k d ds =
     (if k d \<in> k ` set ds then map (\<lambda>x. if k x = k d then d else x) ds else ds @ [d])"

lemma set_put_by [simp]: "set (put_by k d ds) = insert d {x \<in> set ds. k x \<noteq> k d}"
  by (auto simp: put_by_def image_iff split: if_splits)

lemma inj_on_restrict [intro]: "inj_on f A \<Longrightarrow> inj_on f {x \<in> A. P x}"
  by (rule inj_on_subset) auto

lemma inj_on_put_by: "inj_on k (set ds) \<Longrightarrow> inj_on k (set (put_by k d ds))"
  by (auto simp: set_put_by inj_on_def)

lemma inj_on_filter_keys: "inj_on k (set ds) \<Longrightarrow> inj_on k (set (filter P ds))"
  by (rule inj_on_subset) auto

subsection \<open>State machines\<close>

text \<open>
  States reachable from an initial one along a labelled step relation, and the contract of an
  invariant: it holds initially and every step keeps it. Each state machine of the development
  interprets the locale.
\<close>

inductive reachable :: "('s \<Rightarrow> bool) \<Rightarrow> ('s \<Rightarrow> 'e \<Rightarrow> 's \<Rightarrow> bool) \<Rightarrow> 's \<Rightarrow> bool" for init step where
  start: "init s \<Longrightarrow> reachable init step s"
| next_state: "reachable init step s \<Longrightarrow> step s e s' \<Longrightarrow> reachable init step s'"

inductive steps_along :: "('s \<Rightarrow> 'e \<Rightarrow> 's \<Rightarrow> bool) \<Rightarrow> 's \<Rightarrow> 'e list \<Rightarrow> 's \<Rightarrow> bool" for step where
  along_nil: "steps_along step s [] s"
| along_cons: "step s e s' \<Longrightarrow> steps_along step s' es s'' \<Longrightarrow> steps_along step s (e # es) s''"

inductive_cases steps_along_ConsE: "steps_along step s (e # es) s'"
inductive_cases steps_along_NilE: "steps_along step s [] s'"

locale invariant_system =
  fixes init :: "'s \<Rightarrow> bool" and step :: "'s \<Rightarrow> 'e \<Rightarrow> 's \<Rightarrow> bool" and inv :: "'s \<Rightarrow> bool"
  assumes inv_init: "init s \<Longrightarrow> inv s"
    and inv_step: "step s e s' \<Longrightarrow> inv s \<Longrightarrow> inv s'"
begin

lemma inv_reachable: "reachable init step s \<Longrightarrow> inv s"
  by (induction rule: reachable.induct) (auto intro: inv_init inv_step)

lemma inv_along: "steps_along step s es s' \<Longrightarrow> inv s \<Longrightarrow> inv s'"
  by (induction rule: steps_along.induct) (auto intro: inv_step)

end

text \<open>
  Forward simulation: every step of the detailed system is a step of the abstract one between the
  abstractions of its states.
\<close>

locale simulation =
  fixes cstep :: "'s \<Rightarrow> 'e \<Rightarrow> 's \<Rightarrow> bool" and astep :: "'a \<Rightarrow> 'e \<Rightarrow> 'a \<Rightarrow> bool"
    and abs :: "'s \<Rightarrow> 'a" and inv :: "'s \<Rightarrow> bool"
  assumes keeps: "cstep s e s' \<Longrightarrow> inv s \<Longrightarrow> inv s'"
    and simulates: "cstep s e s' \<Longrightarrow> inv s \<Longrightarrow> astep (abs s) e (abs s')"
begin

lemma simulates_along: "steps_along cstep s es s' \<Longrightarrow> inv s \<Longrightarrow> steps_along astep (abs s) es (abs s')"
  by (induction rule: steps_along.induct) (auto intro: along_nil along_cons keeps simulates)

lemma keeps_along: "steps_along cstep s es s' \<Longrightarrow> inv s \<Longrightarrow> inv s'"
  by (induction rule: steps_along.induct) (auto intro: keeps)

end

end
