(* ===== verification/Js_Value.thy ===== *)
theory Js_Value
  imports Prelude
begin

section \<open>Untyped values: what crosses a wire, a log line or an \<open>unknown\<close>\<close>

text \<open>
  The source handles some data as \<open>unknown\<close>: RPC envelopes, event payloads, log metadata.
  This theory holds the value type for it, the property reads and type tests the source does on
  it, the secret redactor (\<open>libs/common/src/bootstrap/redact-secrets.ts\<close>) and the parser of
  the \<open>user.deleted\<close> event (\<open>libs/common/src/events/schemas.ts\<close>).

  An object is the list of its own enumerable string keys with their values, in order.
  \<open>JNative\<close> is an instance the source tells apart with \<open>instanceof Error\<close>,
  \<open>instanceof Date\<close> or \<open>Buffer.isBuffer\<close> and never walks into. Numbers are integers: no
  number the source reads out of an untyped value is fractional.
\<close>

datatype native = NError | NDate | NBuffer

datatype jsval =
    JUndef
  | JNull
  | JBool bool
  | JNum int
  | JStr string
  | JArr "jsval list"
  | JObj "(string \<times> jsval) list"
  | JNative native string

subsection \<open>Property reads and type tests\<close>

fun js_get :: "jsval \<Rightarrow> string \<Rightarrow> jsval" where
  "js_get (JObj kvs) k = (case map_of kvs k of None \<Rightarrow> JUndef | Some v \<Rightarrow> v)"
| "js_get _ k = JUndef"

fun js_nullish :: "jsval \<Rightarrow> bool" where
  "js_nullish JUndef = True"
| "js_nullish JNull = True"
| "js_nullish _ = False"

fun js_truthy :: "jsval \<Rightarrow> bool" where
  "js_truthy JUndef = False"
| "js_truthy JNull = False"
| "js_truthy (JBool b) = b"
| "js_truthy (JNum n) = (n \<noteq> 0)"
| "js_truthy (JStr s) = (s \<noteq> [])"
| "js_truthy _ = True"

definition js_or :: "jsval \<Rightarrow> jsval \<Rightarrow> jsval" where
  "js_or v d = (if js_nullish v then d else v)"

fun is_object :: "jsval \<Rightarrow> bool" where
  "is_object (JArr _) = True"
| "is_object (JObj _) = True"
| "is_object (JNative _ _) = True"
| "is_object _ = False"

fun is_non_empty_string :: "jsval \<Rightarrow> bool" where
  "is_non_empty_string (JStr s) = (0 < length s)"
| "is_non_empty_string _ = False"

text \<open>The keys that every object literal inherits from \<open>Object.prototype\<close>.\<close>

definition object_prototype_keys :: "string list" where
  "object_prototype_keys =
     [''constructor'', ''toString'', ''toLocaleString'', ''valueOf'', ''hasOwnProperty'',
      ''isPrototypeOf'', ''propertyIsEnumerable'', ''__proto__'', ''__defineGetter__'',
      ''__defineSetter__'', ''__lookupGetter__'', ''__lookupSetter__'']"

text \<open>A present optional field of a typed value, as the untyped object carries it.\<close>

definition opt_str :: "string option \<Rightarrow> jsval" where
  "opt_str x = (case x of None \<Rightarrow> JUndef | Some s \<Rightarrow> JStr s)"

lemma js_or_simps [simp]:
  "js_or JUndef d = d" "js_or JNull d = d" "js_or (JStr s) d = JStr s" "js_or (JNum n) d = JNum n"
  by (simp_all add: js_or_def)

lemma opt_str_simps [simp]: "opt_str None = JUndef" "opt_str (Some s) = JStr s"
  by (simp_all add: opt_str_def)

subsection \<open>The \<open>user.deleted\<close> event\<close>

record user_deleted_event =
  ev_userId :: string

definition parse_user_deleted :: "jsval \<Rightarrow> user_deleted_event option" where
  "parse_user_deleted raw =
     (if \<not> is_object raw then None
      else let userId = js_get raw ''userId'' in
        case userId of
          JStr s \<Rightarrow> if is_non_empty_string userId then Some \<lparr>ev_userId = s\<rparr> else None
        | _ \<Rightarrow> None)"

lemma parse_user_deleted_Some_iff:
  "parse_user_deleted raw = Some e \<longleftrightarrow>
     js_get raw ''userId'' = JStr (ev_userId e) \<and> ev_userId e \<noteq> []"
  by (cases raw) (auto simp: parse_user_deleted_def Let_def split: jsval.splits option.splits)

subsection \<open>Redacting secrets\<close>

definition secret_redacted :: string where
  "secret_redacted = ''[REDACTED]''"

definition secret_words :: "string list" where
  "secret_words =
     [''key'', ''secret'', ''token'', ''password'', ''passwd'', ''private'', ''authorization'',
      ''auth'', ''credential'', ''cookie'', ''session'', ''api_key'', ''api_-key'',
      ''fingerprint'', ''verifier'']"

text \<open>\<open>SECRET_KEY_RE.test(k)\<close>: the alternation of literals, case-insensitively.\<close>

definition secret_key :: "string \<Rightarrow> bool" where
  "secret_key k \<longleftrightarrow> (\<exists>w \<in> set secret_words. str_includes (js_lower k) w)"

definition max_depth :: nat where
  "max_depth = 6"

function redact_secrets :: "jsval \<Rightarrow> nat \<Rightarrow> jsval" where
  "redact_secrets input depth =
     (if max_depth < depth then input
      else case input of
        JArr vs \<Rightarrow> JArr (map (\<lambda>v. redact_secrets v (depth + 1)) vs)
      | JObj kvs \<Rightarrow>
          JObj (map (\<lambda>(k, v). (k, if secret_key k then JStr secret_redacted
                                 else redact_secrets v (depth + 1))) kvs)
      | _ \<Rightarrow> input)"
  by pat_completeness auto
termination
  by (relation "measure (\<lambda>(v, d). Suc max_depth - d)") auto

declare redact_secrets.simps [simp del]

lemma redact_secrets_beyond: "max_depth < d \<Longrightarrow> redact_secrets v d = v"
  by (subst redact_secrets.simps) simp

lemma redact_secrets_within:
  assumes "d \<le> max_depth"
  shows "redact_secrets (JArr vs) d = JArr (map (\<lambda>v. redact_secrets v (d + 1)) vs)"
    and "redact_secrets (JObj kvs) d =
           JObj (map (\<lambda>(k, v). (k, if secret_key k then JStr secret_redacted
                                  else redact_secrets v (d + 1))) kvs)"
  using assms by (simp_all add: redact_secrets.simps [of "JArr vs"] redact_secrets.simps [of "JObj kvs"])

lemma redact_secrets_atom [simp]:
  "redact_secrets JUndef d = JUndef" "redact_secrets JNull d = JNull"
  "redact_secrets (JBool b) d = JBool b" "redact_secrets (JNum n) d = JNum n"
  "redact_secrets (JStr s) d = JStr s" "redact_secrets (JNative c s) d = JNative c s"
  by (simp_all add: redact_secrets.simps)

text \<open>
  The contract: within \<open>n\<close> levels of nesting, every property with a secret name holds the
  placeholder.
\<close>

fun clean :: "nat \<Rightarrow> jsval \<Rightarrow> bool" where
  "clean 0 v = True"
| "clean (Suc n) (JArr vs) = (\<forall>v \<in> set vs. clean n v)"
| "clean (Suc n) (JObj kvs) =
     (\<forall>(k, v) \<in> set kvs. if secret_key k then v = JStr secret_redacted else clean n v)"
| "clean (Suc n) v = True"

lemma clean_atom [simp]:
  "clean n JUndef" "clean n JNull" "clean n (JBool b)" "clean n (JNum i)" "clean n (JStr s)"
  "clean n (JNative c s)"
  by (cases n; simp)+

lemma redact_secrets_clean_aux: "clean (Suc max_depth - d) (redact_secrets v d)"
proof (induction v d rule: redact_secrets.induct)
  case (1 v d)
  show ?case
  proof (cases "d \<le> max_depth")
    case True
    then have s: "Suc max_depth - d = Suc (Suc max_depth - (d + 1))" by simp
    show ?thesis
      using 1 True
      by (cases v) (auto simp: redact_secrets_within s simp del: diff_Suc_Suc)
  next
    case False
    then show ?thesis by simp
  qed
qed

lemma redact_secrets_idem: "redact_secrets (redact_secrets v d) d = redact_secrets v d"
proof (induction v d rule: redact_secrets.induct)
  case (1 v d)
  show ?case
  proof (cases "d \<le> max_depth")
    case True
    then show ?thesis
      using 1 by (cases v) (auto simp: redact_secrets_within)
  next
    case False
    then show ?thesis by (simp add: redact_secrets_beyond)
  qed
qed

end
