(* ===== verification/Entities.thy ===== *)
theory Entities
  imports Js_Value
begin

section \<open>The data model: users, devices and outbox events\<close>

text \<open>
  The three collections of \<open>libs/database/src/entities\<close> and the enums of
  \<open>libs/common/src/enums\<close>, each entity a record with the class's properties (prefixed by its
  first letter), each collection the list of its documents in insertion order. \<open>_id\<close> and the
  serialized key \<open>id\<close> are one field, the hexadecimal form. A property the class declares as
  nullable is an \<open>option\<close>; \<open>tokenVersion\<close> and \<open>onboardingCompleted\<close> are options
  because the source reads them with \<open>??\<close>, for documents written before the field existed.
  \<open>new_user\<close>, \<open>new_device\<close> and \<open>new_outbox_event\<close> are the instances that
  \<open>em.create\<close> builds from the classes' initialisers.
\<close>

datatype account_type = Autoreg | Registered  \<comment> \<open>\<open>autoreg\<close> and \<open>user\<close>\<close>

datatype user_locale = Ru | En

datatype platform = Android | Ios

datatype outbox_status = Pending | Sent | Failed

fun account_type_str :: "account_type \<Rightarrow> string" where
  "account_type_str Autoreg = ''autoreg''"
| "account_type_str Registered = ''user''"

fun locale_str :: "user_locale \<Rightarrow> string" where
  "locale_str Ru = ''ru''"
| "locale_str En = ''en''"

lemma account_type_str_inject [simp]: "account_type_str a = account_type_str b \<longleftrightarrow> a = b"
  by (cases a; cases b) simp_all

record oauth_link =
  l_provider :: string
  l_providerUserId :: string
  l_email :: "string option"
  l_linkedAt :: millis

record user =
  u_id :: oid
  u_createdAt :: millis
  u_updatedAt :: millis
  u_accountType :: account_type
  u_name :: "string option"
  u_email :: "string option"
  u_passwordHash :: "string option"
  u_tz :: string
  u_locale :: user_locale
  u_avatarUrl :: "string option"
  u_tokenVersion :: "nat option"
  u_onboardingCompleted :: "bool option"
  u_oauthLinks :: "oauth_link list"
  u_upgradedAt :: "millis option"
  u_resetPasswordToken :: "string option"
  u_resetPasswordExpiry :: "millis option"
  u_deletedAt :: "millis option"

record device =
  d_id :: oid
  d_createdAt :: millis
  d_updatedAt :: millis
  d_fingerprint :: string
  d_platform :: platform
  d_userId :: oid
  d_lastSeenAt :: millis
  d_lastIpHash :: "string option"
  d_attestationFailures :: nat
  d_isBlocked :: bool
  d_blockedReason :: "string option"
  d_blockedAt :: "millis option"

record outbox_event =
  o_id :: oid
  o_createdAt :: millis
  o_updatedAt :: millis
  o_target :: string
  o_pattern :: string
  o_payload :: jsval
  o_idempotencyKey :: string
  o_status :: outbox_status
  o_lastAttemptAt :: "millis option"
  o_attempts :: nat
  o_lastError :: "string option"

record db =
  users :: "user list"
  devices :: "device list"
  outbox :: "outbox_event list"

definition new_user :: "oid \<Rightarrow> millis \<Rightarrow> user" where
  "new_user i now =
     \<lparr>u_id = i, u_createdAt = now, u_updatedAt = now, u_accountType = Autoreg, u_name = None,
      u_email = None, u_passwordHash = None, u_tz = ''UTC'', u_locale = Ru, u_avatarUrl = None,
      u_tokenVersion = Some 0, u_onboardingCompleted = Some False, u_oauthLinks = [],
      u_upgradedAt = None, u_resetPasswordToken = None, u_resetPasswordExpiry = None,
      u_deletedAt = None\<rparr>"

definition new_device :: "oid \<Rightarrow> millis \<Rightarrow> string \<Rightarrow> oid \<Rightarrow> device" where
  "new_device i now fingerprint userId =
     \<lparr>d_id = i, d_createdAt = now, d_updatedAt = now, d_fingerprint = fingerprint,
      d_platform = Android, d_userId = userId, d_lastSeenAt = now, d_lastIpHash = None,
      d_attestationFailures = 0, d_isBlocked = False, d_blockedReason = None, d_blockedAt = None\<rparr>"

definition new_outbox_event :: "oid \<Rightarrow> millis \<Rightarrow> outbox_event" where
  "new_outbox_event i now =
     \<lparr>o_id = i, o_createdAt = now, o_updatedAt = now, o_target = [], o_pattern = [],
      o_payload = JObj [], o_idempotencyKey = [], o_status = Pending, o_lastAttemptAt = None,
      o_attempts = 0, o_lastError = None\<rparr>"

text \<open>\<open>user.tokenVersion ?? 0\<close>, and the bump that revokes every outstanding refresh token.\<close>

definition token_version :: "user \<Rightarrow> nat" where
  "token_version u = nullish (u_tokenVersion u) 0"

definition bump_token_version :: "user \<Rightarrow> user" where
  "bump_token_version u = u\<lparr>u_tokenVersion := Some (token_version u + 1)\<rparr>"

lemma token_version_bump [simp]: "token_version (bump_token_version u) = token_version u + 1"
  by (simp add: token_version_def bump_token_version_def)

lemma bump_token_version_frame [simp]:
  "u_id (bump_token_version u) = u_id u"
  "u_accountType (bump_token_version u) = u_accountType u"
  "u_email (bump_token_version u) = u_email u"
  "u_passwordHash (bump_token_version u) = u_passwordHash u"
  "u_oauthLinks (bump_token_version u) = u_oauthLinks u"
  "u_resetPasswordToken (bump_token_version u) = u_resetPasswordToken u"
  "u_resetPasswordExpiry (bump_token_version u) = u_resetPasswordExpiry u"
  "u_deletedAt (bump_token_version u) = u_deletedAt u"
  by (simp_all add: bump_token_version_def)

text \<open>The \<open>onUpdate\<close> hook of \<open>updatedAt\<close>.\<close>

definition touch_user :: "millis \<Rightarrow> user \<Rightarrow> user" where
  "touch_user now u = u\<lparr>u_updatedAt := now\<rparr>"

definition touch_device :: "millis \<Rightarrow> device \<Rightarrow> device" where
  "touch_device now d = d\<lparr>d_updatedAt := now\<rparr>"

definition touch_outbox :: "millis \<Rightarrow> outbox_event \<Rightarrow> outbox_event" where
  "touch_outbox now e = e\<lparr>o_updatedAt := now\<rparr>"

lemma touch_user_frame [simp]:
  "u_id (touch_user t u) = u_id u"
  "u_createdAt (touch_user t u) = u_createdAt u"
  "u_accountType (touch_user t u) = u_accountType u"
  "u_name (touch_user t u) = u_name u"
  "u_email (touch_user t u) = u_email u"
  "u_passwordHash (touch_user t u) = u_passwordHash u"
  "u_tz (touch_user t u) = u_tz u"
  "u_locale (touch_user t u) = u_locale u"
  "u_avatarUrl (touch_user t u) = u_avatarUrl u"
  "u_tokenVersion (touch_user t u) = u_tokenVersion u"
  "u_onboardingCompleted (touch_user t u) = u_onboardingCompleted u"
  "u_oauthLinks (touch_user t u) = u_oauthLinks u"
  "u_resetPasswordToken (touch_user t u) = u_resetPasswordToken u"
  "u_resetPasswordExpiry (touch_user t u) = u_resetPasswordExpiry u"
  "u_deletedAt (touch_user t u) = u_deletedAt u"
  "token_version (touch_user t u) = token_version u"
  by (simp_all add: touch_user_def token_version_def)

lemma touch_device_frame [simp]:
  "d_id (touch_device t d) = d_id d"
  "d_fingerprint (touch_device t d) = d_fingerprint d"
  "d_userId (touch_device t d) = d_userId d"
  "d_isBlocked (touch_device t d) = d_isBlocked d"
  by (simp_all add: touch_device_def)

lemma touch_outbox_frame [simp]:
  "o_id (touch_outbox t e) = o_id e"
  "o_idempotencyKey (touch_outbox t e) = o_idempotencyKey e"
  "o_status (touch_outbox t e) = o_status e"
  "o_attempts (touch_outbox t e) = o_attempts e"
  "o_pattern (touch_outbox t e) = o_pattern e"
  "o_payload (touch_outbox t e) = o_payload e"
  by (simp_all add: touch_outbox_def)

lemma new_user_simps [simp]:
  "u_id (new_user i t) = i"
  "u_accountType (new_user i t) = Autoreg"
  "u_name (new_user i t) = None"
  "u_email (new_user i t) = None"
  "u_passwordHash (new_user i t) = None"
  "u_tokenVersion (new_user i t) = Some 0"
  "u_oauthLinks (new_user i t) = []"
  "u_resetPasswordToken (new_user i t) = None"
  "u_resetPasswordExpiry (new_user i t) = None"
  "u_deletedAt (new_user i t) = None"
  "token_version (new_user i t) = 0"
  by (simp_all add: new_user_def token_version_def)

lemma new_device_simps [simp]:
  "d_id (new_device i t f w) = i"
  "d_fingerprint (new_device i t f w) = f"
  "d_userId (new_device i t f w) = w"
  "d_isBlocked (new_device i t f w) = False"
  by (simp_all add: new_device_def)

subsection \<open>What an account of each type may hold\<close>

text \<open>
  An anonymous account has no identity to log in with: no email, no password, no linked provider
  and no pending password reset. Every identity is attached by \<open>upgradeAccount\<close> or by the
  creation of an OAuth account, which also make the account a registered one.
\<close>

definition user_wf :: "user \<Rightarrow> bool" where
  "user_wf u \<longleftrightarrow>
     (u_accountType u = Autoreg \<longrightarrow>
        u_email u = None \<and> u_passwordHash u = None \<and> u_oauthLinks u = [] \<and>
        u_resetPasswordToken u = None)
     \<and> (u_deletedAt u \<noteq> None \<longrightarrow>
        u_email u = None \<and> u_passwordHash u = None \<and> u_resetPasswordToken u = None)"

text \<open>A unique sparse index: two documents that carry a value for the field are the same one.\<close>

definition unique_index :: "('d \<Rightarrow> 'v option) \<Rightarrow> 'd list \<Rightarrow> bool" where
  "unique_index f ds \<longleftrightarrow>
     (\<forall>x \<in> set ds. \<forall>y \<in> set ds. f x \<noteq> None \<longrightarrow> f x = f y \<longrightarrow> x = y)"

definition db_unique :: "db \<Rightarrow> bool" where
  "db_unique s \<longleftrightarrow>
     inj_on u_id (set (users s)) \<and> inj_on d_id (set (devices s)) \<and> inj_on o_id (set (outbox s))
     \<and> unique_index u_email (users s)
     \<and> unique_index (\<lambda>d. Some (d_fingerprint d)) (devices s)
     \<and> unique_index (\<lambda>e. Some (o_idempotencyKey e)) (outbox s)"

definition db_wf :: "db \<Rightarrow> bool" where
  "db_wf s \<longleftrightarrow> db_unique s \<and> (\<forall>u \<in> set (users s). user_wf u)"

lemma unique_indexD:
  "unique_index f ds \<Longrightarrow> x \<in> set ds \<Longrightarrow> y \<in> set ds \<Longrightarrow> f x = Some v \<Longrightarrow> f y = Some v \<Longrightarrow> x = y"
  unfolding unique_index_def by (metis option.distinct(1))

lemma db_wfD: "db_wf s \<Longrightarrow> u \<in> set (users s) \<Longrightarrow> user_wf u"
  by (simp add: db_wf_def)

lemma user_by_id: "db_unique s \<Longrightarrow> u \<in> set (users s) \<Longrightarrow> v \<in> set (users s) \<Longrightarrow> u_id u = u_id v \<Longrightarrow> u = v"
  by (auto simp: db_unique_def dest: inj_onD)

end
