(* ===== verification/Rpc_Errors.thy ===== *)
theory Rpc_Errors
  imports Js_Value
begin

section \<open>Errors: exceptions, their RPC envelope and the two exception filters\<close>

text \<open>
  The exceptions the program throws and the path an error takes from a microservice handler to an
  HTTP client: \<open>MicroserviceException\<close> (\<open>libs/common/src/exceptions/rpc.exception.ts\<close>),
  \<open>RpcAllExceptionsFilter\<close> in the microservice, \<open>RpcClientService.unwrapError\<close> in the
  gateway's RPC client and \<open>AllExceptionsFilter\<close> at the HTTP edge. Statuses, codes and
  messages are untyped values, as they are at run time once they have crossed the wire. A filter
  returns, beside its result, how often it calls \<open>captureWithTrace\<close> (Sentry); log lines are
  not modelled.
\<close>

subsection \<open>Error codes\<close>

definition TOKEN_EXPIRED :: string where "TOKEN_EXPIRED = ''token_expired''"
definition TOKEN_INVALID :: string where "TOKEN_INVALID = ''token_invalid''"
definition UNAUTHORIZED :: string where "UNAUTHORIZED = ''unauthorized''"
definition FORBIDDEN :: string where "FORBIDDEN = ''forbidden''"
definition RATE_LIMITED :: string where "RATE_LIMITED = ''rate_limited''"
definition NOT_FOUND :: string where "NOT_FOUND = ''not_found''"
definition CONFLICT :: string where "CONFLICT = ''conflict''"
definition VALIDATION_ERROR :: string where "VALIDATION_ERROR = ''validation_error''"
definition INTERNAL_ERROR :: string where "INTERNAL_ERROR = ''internal_error''"

lemmas error_codes =
  TOKEN_EXPIRED_def TOKEN_INVALID_def UNAUTHORIZED_def FORBIDDEN_def RATE_LIMITED_def
  NOT_FOUND_def CONFLICT_def VALIDATION_ERROR_def INTERNAL_ERROR_def

lemma error_codes_distinct:
  "distinct [TOKEN_EXPIRED, TOKEN_INVALID, UNAUTHORIZED, FORBIDDEN, RATE_LIMITED, NOT_FOUND,
     CONFLICT, VALIDATION_ERROR, INTERNAL_ERROR]"
  by (simp add: error_codes)

subsection \<open>Exceptions\<close>

text \<open>
  \<open>ErrorExn\<close> is any other \<open>Error\<close>, with the fields the source reads of a driver's error;
  (its stack is never looked into and empty in the errors the program itself makes);
  \<open>TimeoutExn\<close> is RxJS's \<open>TimeoutError\<close>; \<open>ThrownExn\<close> is a value that is no
  \<open>Error\<close>, such as the error object an RPC reply carried.
\<close>

record js_error =
  err_name :: string
  err_message :: string
  err_stack :: string
  err_code :: "int option"
  err_keyPattern :: "string list option"

datatype exn =
    MicroserviceExn jsval jsval jsval jsval "string option"
      \<comment> \<open>\<open>status\<close>, \<open>code\<close>, \<open>messageText\<close>, \<open>details\<close>, \<open>traceId\<close>\<close>
  | HttpExn jsval jsval string  \<comment> \<open>status, response, message\<close>
  | RpcExn jsval
  | TimeoutExn
  | ErrorExn js_error
  | ThrownExn jsval

definition plain_error :: "string \<Rightarrow> exn" where
  "plain_error m =
     ErrorExn \<lparr>err_name = ''Error'', err_message = m, err_stack = [], err_code = None,
       err_keyPattern = None\<rparr>"

definition rpc_error_payload :: "jsval \<Rightarrow> jsval \<Rightarrow> jsval \<Rightarrow> jsval \<Rightarrow> string option \<Rightarrow> jsval" where
  "rpc_error_payload status code message details traceId =
     JObj [(''__rpcError'', JBool True), (''status'', status), (''code'', code),
           (''message'', message), (''details'', details), (''traceId'', opt_str traceId)]"

definition microservice_exn :: "int \<Rightarrow> string \<Rightarrow> string \<Rightarrow> jsval \<Rightarrow> exn" where
  "microservice_exn status code message details =
     MicroserviceExn (JNum status) (JStr code) (JStr message) details None"

definition exn_not_found :: "string \<Rightarrow> exn" where
  "exn_not_found message = microservice_exn 404 NOT_FOUND message JUndef"

definition exn_conflict :: "string \<Rightarrow> exn" where
  "exn_conflict message = microservice_exn 409 CONFLICT message JUndef"

definition exn_bad_request :: "string \<Rightarrow> exn" where
  "exn_bad_request message = microservice_exn 400 VALIDATION_ERROR message JUndef"

lemmas microservice_exns =
  microservice_exn_def exn_not_found_def exn_conflict_def exn_bad_request_def

text \<open>Nest's HTTP exceptions, built from a \<open>{code, message}\<close> response object.\<close>

definition http_exn :: "int \<Rightarrow> string \<Rightarrow> string \<Rightarrow> exn" where
  "http_exn status code message =
     HttpExn (JNum status) (JObj [(''code'', JStr code), (''message'', JStr message)]) message"

definition unauthorized :: "string \<Rightarrow> string \<Rightarrow> exn" where
  "unauthorized code message = http_exn 401 code message"

definition service_unavailable :: "string \<Rightarrow> string \<Rightarrow> exn" where
  "service_unavailable code message = http_exn 503 code message"

lemmas http_exns = http_exn_def unauthorized_def service_unavailable_def

text \<open>
  What a property read on a caught value sees. \<open>RpcException\<close> keeps its argument in the field
  \<open>error\<close>.
\<close>

fun exn_props :: "exn \<Rightarrow> jsval" where
  "exn_props (MicroserviceExn st c m d t) =
     JObj [(''error'', rpc_error_payload st c m d t), (''status'', st), (''code'', c),
           (''messageText'', m), (''details'', d), (''traceId'', opt_str t), (''message'', m)]"
| "exn_props (HttpExn st res m) =
     JObj [(''response'', res), (''status'', st), (''message'', JStr m)]"
| "exn_props (RpcExn v) = JObj [(''error'', v)]"
| "exn_props TimeoutExn =
     JObj [(''name'', JStr ''TimeoutError''), (''message'', JStr ''Timeout has occurred'')]"
| "exn_props (ErrorExn e) =
     JObj [(''name'', JStr (err_name e)), (''message'', JStr (err_message e))]"
| "exn_props (ThrownExn v) = v"

fun is_error_instance :: "exn \<Rightarrow> bool" where
  "is_error_instance (ThrownExn _) = False"
| "is_error_instance _ = True"

definition is_rpc_error_payload :: "jsval \<Rightarrow> bool" where
  "is_rpc_error_payload v \<longleftrightarrow> is_object v \<and> js_get v ''__rpcError'' = JBool True"

lemma is_rpc_error_payload_payload [simp]: "is_rpc_error_payload (rpc_error_payload st c m d t)"
  by (simp add: is_rpc_error_payload_def rpc_error_payload_def)

text \<open>\<open>Number(status) >= bound\<close>; a status that is not a number compares as \<open>NaN\<close>.\<close>

fun number_ge :: "jsval \<Rightarrow> int \<Rightarrow> bool" where
  "number_ge (JNum n) b = (b \<le> n)"
| "number_ge _ b = False"

definition status_to_code :: "jsval \<Rightarrow> string" where
  "status_to_code status =
     (if status = JNum 400 then VALIDATION_ERROR
      else if status = JNum 401 then UNAUTHORIZED
      else if status = JNum 403 then FORBIDDEN
      else if status = JNum 404 then NOT_FOUND
      else if status = JNum 409 then CONFLICT
      else if status = JNum 429 then RATE_LIMITED
      else INTERNAL_ERROR)"

subsection \<open>The microservice side: \<open>RpcAllExceptionsFilter\<close>\<close>

fun normalize_http_response :: "jsval \<Rightarrow> string \<Rightarrow> jsval \<times> jsval \<times> jsval" where
  "normalize_http_response (JStr res) exnMessage = (JUndef, JStr res, JUndef)"
| "normalize_http_response body exnMessage =
     (js_get body ''code'', js_or (js_get body ''message'') (JStr exnMessage),
      js_get body ''details'')"

definition server_fault :: "jsval \<Rightarrow> nat" where
  "server_fault status = (if number_ge status 500 then 1 else 0)"

fun rpc_all_exceptions_filter :: "string option \<Rightarrow> exn \<Rightarrow> exn \<times> nat" where
  "rpc_all_exceptions_filter traceId (MicroserviceExn st c m d t) =
     (MicroserviceExn st c m d t, server_fault st)"
| "rpc_all_exceptions_filter traceId (HttpExn st res msg) =
     (let (code, message, details) = normalize_http_response res msg
      in (MicroserviceExn st (js_or code (JStr (status_to_code st))) message details traceId,
          server_fault st))"
| "rpc_all_exceptions_filter traceId (RpcExn v) = (RpcExn v, 1)"
| "rpc_all_exceptions_filter traceId e =
     (MicroserviceExn (JNum 500) (JStr INTERNAL_ERROR)
        (js_or (js_get (exn_props e) ''message'') (JStr ''Internal server error'')) JUndef traceId,
      1)"

subsection \<open>The gateway side: \<open>RpcClientService\<close>\<close>

text \<open>
  The three ways \<open>client.send\<close> can end: a reply, an error on the reply stream (which passes
  through \<open>catchError\<close>), or an error of the call itself (a stub client's synchronous throw,
  \<open>firstValueFrom\<close> on an empty stream).
\<close>

datatype 'v rpc_outcome = Replied 'v | StreamError exn | CallError exn

definition http_from_payload :: "jsval \<Rightarrow> exn" where
  "http_from_payload p =
     HttpExn (js_get p ''status'')
       (JObj ([(''statusCode'', js_get p ''status''), (''code'', js_get p ''code''),
               (''message'', js_get p ''message'')]
              @ (if js_truthy (js_get p ''details'') then [(''details'', js_get p ''details'')]
                 else [])))
       (case js_get p ''message'' of JStr s \<Rightarrow> s | _ \<Rightarrow> ''Http Exception'')"

definition unwrap_error :: "string \<Rightarrow> exn \<Rightarrow> exn" where
  "unwrap_error service err =
     (if err = TimeoutExn then
        http_exn 504 INTERNAL_ERROR (''Upstream service '' @ [CHR 0x27] @ service @ [CHR 0x27] @ '' timed out'')
      else if is_rpc_error_payload (exn_props err) then http_from_payload (exn_props err)
      else let e = js_get (exn_props err) ''error'' in
        if js_truthy e \<and> is_rpc_error_payload e then http_from_payload e
        else service_unavailable INTERNAL_ERROR
               (''Upstream service '' @ [CHR 0x27] @ service @ [CHR 0x27] @ '' is unavailable''))"

fun is_http_exn :: "exn \<Rightarrow> bool" where
  "is_http_exn (HttpExn _ _ _) = True"
| "is_http_exn _ = False"

definition rethrow_or_unwrap :: "string \<Rightarrow> exn \<Rightarrow> exn" where
  "rethrow_or_unwrap service err = (if is_http_exn err then err else unwrap_error service err)"

fun rpc_send :: "string \<Rightarrow> 'v rpc_outcome \<Rightarrow> exn + 'v" where
  "rpc_send service (Replied v) = Inr v"
| "rpc_send service (StreamError err) =
     Inl (rethrow_or_unwrap service (unwrap_error service err))"
| "rpc_send service (CallError err) = Inl (rethrow_or_unwrap service err)"

lemma is_http_exn_iff: "is_http_exn e \<longleftrightarrow> (\<exists>st res m. e = HttpExn st res m)"
  by (cases e) auto

lemma unwrap_error_is_http [simp]: "is_http_exn (unwrap_error s e)"
  by (simp add: unwrap_error_def Let_def http_exns http_from_payload_def)

lemma rethrow_or_unwrap_is_http [simp]: "is_http_exn (rethrow_or_unwrap s e)"
  by (simp add: rethrow_or_unwrap_def)

lemma rpc_send_errors_are_http: "rpc_send s out = Inl e \<Longrightarrow> is_http_exn e"
  by (cases out) auto

subsection \<open>The HTTP edge: \<open>AllExceptionsFilter\<close>\<close>

record http_reply =
  rep_status :: jsval
  rep_body :: "(string \<times> jsval) list"

definition extract_rpc_payload :: "exn \<Rightarrow> jsval option" where
  "extract_rpc_payload e =
     (let v = exn_props e in
      if is_rpc_error_payload v then Some v
      else if js_truthy v \<and> is_rpc_error_payload (js_get v ''error'') then Some (js_get v ''error'')
      else None)"

text \<open>The four variables the handler fills in: status, code, message, details.\<close>

definition classify_exception :: "exn \<Rightarrow> jsval \<times> jsval \<times> jsval \<times> jsval" where
  "classify_exception e =
     (case extract_rpc_payload e of
        Some p \<Rightarrow> (js_get p ''status'', js_get p ''code'', js_get p ''message'', js_get p ''details'')
      | None \<Rightarrow>
        (case e of
           HttpExn st res msg \<Rightarrow>
             (case res of
                JStr s \<Rightarrow> (st, JStr INTERNAL_ERROR, JStr s, JUndef)
              | _ \<Rightarrow>
                if is_object res
                then (st, js_or (js_get res ''code'') (JStr (status_to_code st)),
                      js_or (js_get res ''message'') (JStr msg), js_get res ''details'')
                else (st, JStr INTERNAL_ERROR, JStr ''Internal server error'', JUndef))
         | _ \<Rightarrow>
             (JNum 500, JStr INTERNAL_ERROR,
              if is_error_instance e then js_get (exn_props e) ''message''
              else JStr ''Internal server error'',
              JUndef)))"

definition capture_count :: "exn \<Rightarrow> nat" where
  "capture_count e =
     (if extract_rpc_payload e = None \<and> \<not> is_http_exn e \<and> is_error_instance e then 1 else 0)
     + server_fault (fst (classify_exception e))"

definition all_exceptions_filter ::
  "string option \<Rightarrow> string option \<Rightarrow> exn \<Rightarrow> http_reply \<times> nat" where
  "all_exceptions_filter reqId traceId e =
     (let (statusCode, code, message, details) = classify_exception e;
          requestId = nullish (or_else reqId traceId) ''unknown''
      in (\<lparr>rep_status = statusCode,
           rep_body =
             [(''statusCode'', statusCode), (''code'', code), (''message'', message)]
             @ (if js_truthy details then [(''details'', details)] else [])
             @ [(''requestId'', JStr requestId)]\<rparr>,
          capture_count e))"

end
