(* ===== verification/Store.thy ===== *)
theory Store
  imports Entities Rpc_Errors
begin

section \<open>The document store the services work on\<close>

text \<open>
  MikroORM and MongoDB are not part of the repository: the operations the services call on the
  entity manager are the fields of a \<open>driver\<close>, a parameter of every service definition, and
  what the services rely on is the predicate \<open>driver_ok\<close> (a \<open>findOne\<close> returns a matching
  document or, if none matches, nothing; a flush writes the changes of the unit of work, and a
  failed one at most some of them; unique indexes hold). Filters are data, as they are in the
  source: the list of conditions of the filter object.

  The theory also holds \<open>isDuplicateKeyError\<close> and \<open>idempotentInsert\<close>
  (\<open>libs/common/src/db\<close>), and \<open>mem_driver\<close>, a driver over the in-memory collections
  that satisfies \<open>driver_ok\<close>; the witnesses run on it.
\<close>

subsection \<open>Filters\<close>

datatype user_cond =
    UserIdIs oid
  | EmailIs string
  | ResetTokenIs string
  | LinkIs string string  \<comment> \<open>\<open>oauthLinks: {$elemMatch: {provider, providerUserId}}\<close>\<close>
  | NotDeleted            \<comment> \<open>\<open>deletedAt: null\<close>\<close>
  | DeletedBefore millis  \<comment> \<open>\<open>deletedAt: {$lt: cutoff}\<close>\<close>

datatype device_cond = FingerprintIs string | DeviceIdIs oid | DeviceUserIs oid

datatype outbox_cond = KeyIs string | StatusIs outbox_status | AttemptsBelow nat

fun user_matches :: "user_cond \<Rightarrow> user \<Rightarrow> bool" where
  "user_matches (UserIdIs i) u = (u_id u = i)"
| "user_matches (EmailIs e) u = (u_email u = Some e)"
| "user_matches (ResetTokenIs t) u = (u_resetPasswordToken u = Some t)"
| "user_matches (LinkIs p i) u =
     (\<exists>l \<in> set (u_oauthLinks u). l_provider l = p \<and> l_providerUserId l = i)"
| "user_matches NotDeleted u = (u_deletedAt u = None)"
| "user_matches (DeletedBefore t) u = (case u_deletedAt u of None \<Rightarrow> False | Some d \<Rightarrow> d < t)"

fun device_matches :: "device_cond \<Rightarrow> device \<Rightarrow> bool" where
  "device_matches (FingerprintIs f) d = (d_fingerprint d = f)"
| "device_matches (DeviceIdIs i) d = (d_id d = i)"
| "device_matches (DeviceUserIs i) d = (d_userId d = i)"

fun outbox_matches :: "outbox_cond \<Rightarrow> outbox_event \<Rightarrow> bool" where
  "outbox_matches (KeyIs k) e = (o_idempotencyKey e = k)"
| "outbox_matches (StatusIs s) e = (o_status e = s)"
| "outbox_matches (AttemptsBelow n) e = (o_attempts e < n)"

definition sat :: "('c \<Rightarrow> 'd \<Rightarrow> bool) \<Rightarrow> 'c list \<Rightarrow> 'd \<Rightarrow> bool" where
  "sat m cs d \<longleftrightarrow> list_all (\<lambda>c. m c d) cs"

lemma sat_simps [simp]: "sat m [] d" "sat m (c # cs) d \<longleftrightarrow> m c d \<and> sat m cs d"
  by (simp_all add: sat_def)

subsection \<open>Units of work\<close>

text \<open>One change of a unit of work: an entity to insert or to write back.\<close>

datatype change = PutUser user | PutDevice device | PutOutbox outbox_event

fun apply_change :: "change \<Rightarrow> db \<Rightarrow> db" where
  "apply_change (PutUser u) s = s\<lparr>users := put_by u_id u (users s)\<rparr>"
| "apply_change (PutDevice d) s = s\<lparr>devices := put_by d_id d (devices s)\<rparr>"
| "apply_change (PutOutbox e) s = s\<lparr>outbox := put_by o_id e (outbox s)\<rparr>"

fun apply_changes :: "change list \<Rightarrow> db \<Rightarrow> db" where
  "apply_changes [] s = s"
| "apply_changes (c # cs) s = apply_changes cs (apply_change c s)"

record driver =
  find_user :: "db \<Rightarrow> user_cond list \<Rightarrow> exn + user option"
  find_users :: "db \<Rightarrow> user_cond list \<Rightarrow> exn + user list"
  find_device :: "db \<Rightarrow> device_cond list \<Rightarrow> exn + device option"
  find_outbox :: "db \<Rightarrow> outbox_cond list \<Rightarrow> exn + outbox_event option"
  find_outbox_batch :: "db \<Rightarrow> outbox_cond list \<Rightarrow> nat \<Rightarrow> exn + outbox_event list"
  count_outbox :: "db \<Rightarrow> outbox_cond list \<Rightarrow> exn + nat"
  delete_users :: "user_cond list \<Rightarrow> db \<Rightarrow> (exn + unit) \<times> db"
  delete_devices :: "device_cond list \<Rightarrow> db \<Rightarrow> (exn + unit) \<times> db"
  flush :: "change list \<Rightarrow> db \<Rightarrow> (exn + unit) \<times> db"

text \<open>The changes MikroORM computes for a managed entity: none when nothing changed.\<close>

definition save_user :: "millis \<Rightarrow> user \<Rightarrow> user \<Rightarrow> change list" where
  "save_user now old new = (if new = old then [] else [PutUser (touch_user now new)])"

definition save_device :: "millis \<Rightarrow> device \<Rightarrow> device \<Rightarrow> change list" where
  "save_device now old new = (if new = old then [] else [PutDevice (touch_device now new)])"

definition save_outbox :: "millis \<Rightarrow> outbox_event \<Rightarrow> outbox_event \<Rightarrow> change list" where
  "save_outbox now old new = (if new = old then [] else [PutOutbox (touch_outbox now new)])"

subsection \<open>Duplicate-key errors\<close>

definition word_char :: "char \<Rightarrow> bool" where
  "word_char c =
     (let n = (of_char c :: nat)
      in 48 \<le> n \<and> n \<le> 57 \<or> 65 \<le> n \<and> n \<le> 90 \<or> n = 95 \<or> 97 \<le> n \<and> n \<le> 122)"

text \<open>
  \<open>new RegExp('\\b' + field + '(?:_|\\b)').test(s)\<close> for a field name made of word characters:
  an occurrence with no word character before it, and after it the end, an underscore or no word
  character. \<open>prev\<close> says whether a word character precedes \<open>s\<close>.
\<close>

fun names_field :: "bool \<Rightarrow> string \<Rightarrow> string \<Rightarrow> bool" where
  "names_field prev field [] = (\<not> prev \<and> field = [])"
| "names_field prev field (c # s) =
     (\<not> prev \<and> prefix field (c # s)
        \<and> (case drop (length field) (c # s) of
             [] \<Rightarrow> True | d # _ \<Rightarrow> d = CHR ''_'' \<or> \<not> word_char d)
      \<or> names_field (word_char c) field s)"

definition is_duplicate_key_error :: "exn \<Rightarrow> string option \<Rightarrow> bool" where
  "is_duplicate_key_error err field =
     (case err of
        ErrorExn e \<Rightarrow>
          if err_code e \<noteq> Some 11000 then False
          else if \<not> truthy field then True
          else if (case err_keyPattern e of None \<Rightarrow> False | Some ks \<Rightarrow> the field \<in> set ks) then True
          else names_field False (the field) (err_message e)
      | _ \<Rightarrow> False)"

definition idempotent_insert ::
  "('d \<Rightarrow> 's \<Rightarrow> (exn + unit) \<times> 's) \<Rightarrow> 'd \<Rightarrow> 's \<Rightarrow> (exn + bool) \<times> 's" where
  "idempotent_insert insertOne doc s =
     (case insertOne doc s of
        (Inr (), s') \<Rightarrow> (Inr True, s')
      | (Inl err, s') \<Rightarrow>
          if is_duplicate_key_error err None then (Inr False, s') else (Inl err, s'))"

subsection \<open>What the services rely on\<close>

definition email_conflict :: "change list \<Rightarrow> db \<Rightarrow> bool" where
  "email_conflict cs s \<longleftrightarrow>
     (\<exists>u v. PutUser u \<in> set cs \<and> v \<in> set (users s) \<and> u_id v \<noteq> u_id u
        \<and> u_email u \<noteq> None \<and> u_email v = u_email u)"

definition finds_user :: "driver \<Rightarrow> bool" where
  "finds_user drv \<longleftrightarrow>
     (\<forall>s cs u. find_user drv s cs = Inr (Some u) \<longrightarrow> u \<in> set (users s) \<and> sat user_matches cs u)
     \<and> (\<forall>s cs. find_user drv s cs = Inr None \<longrightarrow> (\<forall>u \<in> set (users s). \<not> sat user_matches cs u))
     \<and> (\<forall>s cs us. find_users drv s cs = Inr us \<longrightarrow>
          distinct us \<and> set us = {u \<in> set (users s). sat user_matches cs u})"

definition finds_device :: "driver \<Rightarrow> bool" where
  "finds_device drv \<longleftrightarrow>
     (\<forall>s cs d. find_device drv s cs = Inr (Some d) \<longrightarrow>
        d \<in> set (devices s) \<and> sat device_matches cs d)
     \<and> (\<forall>s cs. find_device drv s cs = Inr None \<longrightarrow>
          (\<forall>d \<in> set (devices s). \<not> sat device_matches cs d))"

text \<open>\<open>find\<close> with \<open>orderBy: {createdAt: 'ASC'}\<close> and a limit.\<close>

definition oldest_first :: "('d \<Rightarrow> millis) \<Rightarrow> ('d \<Rightarrow> bool) \<Rightarrow> nat \<Rightarrow> 'd list \<Rightarrow> 'd list \<Rightarrow> bool" where
  "oldest_first t P n ds es \<longleftrightarrow>
     distinct es \<and> length es \<le> n \<and> sorted (map t es) \<and> set es \<subseteq> {d \<in> set ds. P d}
     \<and> (length es < n \<longrightarrow> set es = {d \<in> set ds. P d})
     \<and> (\<forall>d \<in> set ds. P d \<longrightarrow> d \<notin> set es \<longrightarrow> (\<forall>x \<in> set es. t x \<le> t d))"

definition finds_outbox :: "driver \<Rightarrow> bool" where
  "finds_outbox drv \<longleftrightarrow>
     (\<forall>s cs e. find_outbox drv s cs = Inr (Some e) \<longrightarrow>
        e \<in> set (outbox s) \<and> sat outbox_matches cs e)
     \<and> (\<forall>s cs. find_outbox drv s cs = Inr None \<longrightarrow>
          (\<forall>e \<in> set (outbox s). \<not> sat outbox_matches cs e))
     \<and> (\<forall>s cs n es. find_outbox_batch drv s cs n = Inr es \<longrightarrow>
          oldest_first o_createdAt (sat outbox_matches cs) n (outbox s) es)
     \<and> (\<forall>s cs n. count_outbox drv s cs = Inr n \<longrightarrow>
          n = length (filter (sat outbox_matches cs) (outbox s)))"

text \<open>\<open>nativeDelete\<close>: some matching documents go, all of them when it succeeds.\<close>

definition prunes :: "('d \<Rightarrow> bool) \<Rightarrow> bool \<Rightarrow> 'd list \<Rightarrow> 'd list \<Rightarrow> bool" where
  "prunes P all ds ds' \<longleftrightarrow>
     (\<exists>keep. ds' = filter keep ds \<and> (\<forall>d \<in> set ds. \<not> P d \<longrightarrow> keep d)
        \<and> (all \<longrightarrow> (\<forall>d \<in> set ds. P d \<longrightarrow> \<not> keep d)))"

definition deletes_users :: "driver \<Rightarrow> bool" where
  "deletes_users drv \<longleftrightarrow>
     (\<forall>cs s r s'. delete_users drv cs s = (r, s') \<longrightarrow>
        (\<exists>us. s' = s\<lparr>users := us\<rparr> \<and> prunes (sat user_matches cs) (r = Inr ()) (users s) us))"

definition deletes_devices :: "driver \<Rightarrow> bool" where
  "deletes_devices drv \<longleftrightarrow>
     (\<forall>cs s r s'. delete_devices drv cs s = (r, s') \<longrightarrow>
        (\<exists>ds. s' = s\<lparr>devices := ds\<rparr> \<and> prunes (sat device_matches cs) (r = Inr ()) (devices s) ds))"

definition flushes :: "driver \<Rightarrow> bool" where
  "flushes drv \<longleftrightarrow>
     (\<forall>cs s r s'. flush drv cs s = (r, s') \<longrightarrow>
        (\<exists>cs'. subseq cs' cs \<and> s' = apply_changes cs' s \<and> (r = Inr () \<longrightarrow> cs' = cs))
        \<and> (db_unique s \<longrightarrow> db_unique s')
        \<and> (\<forall>u e. cs = [PutUser u] \<longrightarrow> r = Inl e \<longrightarrow> is_duplicate_key_error e (Some ''email'') \<longrightarrow>
             email_conflict cs s \<and> s' = s))"

definition driver_ok :: "driver \<Rightarrow> bool" where
  "driver_ok drv \<longleftrightarrow>
     finds_user drv \<and> finds_device drv \<and> finds_outbox drv \<and>
     deletes_users drv \<and> deletes_devices drv \<and> flushes drv"

subsection \<open>Consequences, in the form the services use them\<close>

lemma subseq_set_subset: "subseq xs ys \<Longrightarrow> set xs \<subseteq> set ys"
  by (metis notin_set_nthsI subseq_conv_nths subsetI)

lemma find_user_Some:
  "driver_ok drv \<Longrightarrow> find_user drv s cs = Inr (Some u) \<Longrightarrow>
     u \<in> set (users s) \<and> sat user_matches cs u"
  unfolding driver_ok_def finds_user_def by blast

lemma find_user_None:
  "driver_ok drv \<Longrightarrow> find_user drv s cs = Inr None \<Longrightarrow> u \<in> set (users s) \<Longrightarrow>
     \<not> sat user_matches cs u"
  unfolding driver_ok_def finds_user_def by blast

lemma find_users_Inr:
  "driver_ok drv \<Longrightarrow> find_users drv s cs = Inr us \<Longrightarrow>
     distinct us \<and> set us = {u \<in> set (users s). sat user_matches cs u}"
  unfolding driver_ok_def finds_user_def by blast

lemma find_device_Some:
  "driver_ok drv \<Longrightarrow> find_device drv s cs = Inr (Some d) \<Longrightarrow>
     d \<in> set (devices s) \<and> sat device_matches cs d"
  unfolding driver_ok_def finds_device_def by blast

lemma find_device_None:
  "driver_ok drv \<Longrightarrow> find_device drv s cs = Inr None \<Longrightarrow> d \<in> set (devices s) \<Longrightarrow>
     \<not> sat device_matches cs d"
  unfolding driver_ok_def finds_device_def by blast

lemma find_outbox_Some:
  "driver_ok drv \<Longrightarrow> find_outbox drv s cs = Inr (Some e) \<Longrightarrow>
     e \<in> set (outbox s) \<and> sat outbox_matches cs e"
  unfolding driver_ok_def finds_outbox_def by blast

lemma find_outbox_None:
  "driver_ok drv \<Longrightarrow> find_outbox drv s cs = Inr None \<Longrightarrow> e \<in> set (outbox s) \<Longrightarrow>
     \<not> sat outbox_matches cs e"
  unfolding driver_ok_def finds_outbox_def by blast

lemma find_outbox_batch_Inr:
  "driver_ok drv \<Longrightarrow> find_outbox_batch drv s cs n = Inr es \<Longrightarrow>
     oldest_first o_createdAt (sat outbox_matches cs) n (outbox s) es"
  unfolding driver_ok_def finds_outbox_def by blast

lemma oldest_firstD:
  assumes "oldest_first t P n ds es"
  shows "distinct es" and "length es \<le> n" and "sorted (map t es)"
    and "e \<in> set es \<Longrightarrow> e \<in> set ds" and "e \<in> set es \<Longrightarrow> P e"
    and "length es < n \<Longrightarrow> e \<in> set ds \<Longrightarrow> P e \<Longrightarrow> e \<in> set es"
    and "e \<in> set ds \<Longrightarrow> P e \<Longrightarrow> e \<notin> set es \<Longrightarrow> x \<in> set es \<Longrightarrow> t x \<le> t e"
  using assms unfolding oldest_first_def by auto

lemma count_outbox_Inr:
  "driver_ok drv \<Longrightarrow> count_outbox drv s cs = Inr n \<Longrightarrow>
     n = length (filter (sat outbox_matches cs) (outbox s))"
  unfolding driver_ok_def finds_outbox_def by blast

lemma delete_users_any:
  "driver_ok drv \<Longrightarrow> delete_users drv cs s = (r, s') \<Longrightarrow>
     \<exists>us. s' = s\<lparr>users := us\<rparr> \<and> prunes (sat user_matches cs) (r = Inr ()) (users s) us"
  unfolding driver_ok_def deletes_users_def by blast

lemma delete_devices_any:
  "driver_ok drv \<Longrightarrow> delete_devices drv cs s = (r, s') \<Longrightarrow>
     \<exists>ds. s' = s\<lparr>devices := ds\<rparr> \<and> prunes (sat device_matches cs) (r = Inr ()) (devices s) ds"
  unfolding driver_ok_def deletes_devices_def by blast

lemma prunes_subset: "prunes P b ds ds' \<Longrightarrow> set ds' \<subseteq> set ds"
  by (auto simp: prunes_def)

lemma prunes_keeps: "prunes P b ds ds' \<Longrightarrow> d \<in> set ds \<Longrightarrow> \<not> P d \<Longrightarrow> d \<in> set ds'"
  by (auto simp: prunes_def)

lemma prunes_all: "prunes P True ds ds' \<Longrightarrow> set ds' = {d \<in> set ds. \<not> P d}"
  by (auto simp: prunes_def)

lemma delete_devices_frame:
  assumes "driver_ok drv" and "delete_devices drv cs s = (r, s')"
  shows "users s' = users s" and "outbox s' = outbox s" and "set (devices s') \<subseteq> set (devices s)"
  using delete_devices_any [OF assms] by (auto dest: prunes_subset [THEN subsetD])

lemma flush_any:
  "driver_ok drv \<Longrightarrow> flush drv cs s = (r, s') \<Longrightarrow>
     \<exists>cs'. subseq cs' cs \<and> s' = apply_changes cs' s \<and> (r = Inr () \<longrightarrow> cs' = cs)"
  unfolding driver_ok_def flushes_def by blast

lemma flush_Inr:
  "driver_ok drv \<Longrightarrow> flush drv cs s = (Inr (), s') \<Longrightarrow> s' = apply_changes cs s"
  by (drule (1) flush_any) auto

lemma flush_unique: "driver_ok drv \<Longrightarrow> flush drv cs s = (r, s') \<Longrightarrow> db_unique s \<Longrightarrow> db_unique s'"
  unfolding driver_ok_def flushes_def by blast

lemma flush_duplicate_email:
  "driver_ok drv \<Longrightarrow> flush drv [PutUser u] s = (Inl e, s') \<Longrightarrow>
     is_duplicate_key_error e (Some ''email'') \<Longrightarrow> email_conflict [PutUser u] s \<and> s' = s"
  unfolding driver_ok_def flushes_def by blast

lemma apply_changes_preserves:
  "(\<And>c s. c \<in> set cs \<Longrightarrow> P s \<Longrightarrow> P (apply_change c s)) \<Longrightarrow> P s \<Longrightarrow> P (apply_changes cs s)"
  by (induction cs arbitrary: s) auto

text \<open>
  Whatever a flush managed to write, it wrote changes of its unit of work: a predicate that every
  one of them keeps holds afterwards, also when the flush failed.
\<close>

lemma flush_preserves:
  assumes "driver_ok drv" and "flush drv cs s = (r, s')" and "P s"
    and "\<And>c s. c \<in> set cs \<Longrightarrow> P s \<Longrightarrow> P (apply_change c s)"
  shows "P s'"
proof -
  from flush_any [OF assms(1,2)] obtain cs'
    where "subseq cs' cs" and "s' = apply_changes cs' s" by blast
  moreover have "set cs' \<subseteq> set cs"
    using \<open>subseq cs' cs\<close> by (rule subseq_set_subset)
  ultimately show ?thesis
    using assms(3,4) by (auto intro!: apply_changes_preserves [of cs' P])
qed

lemma flush_wf:
  assumes "driver_ok drv" and "flush drv cs s = (r, s')" and "db_wf s"
    and "\<And>u. PutUser u \<in> set cs \<Longrightarrow> user_wf u"
  shows "db_wf s'"
proof -
  have "\<forall>u \<in> set (users s'). user_wf u"
  proof (rule flush_preserves [OF assms(1,2)])
    show "\<forall>u \<in> set (users s). user_wf u"
      using assms(3) by (simp add: db_wf_def)
  next
    fix c and t :: db
    assume c: "c \<in> set cs" and t: "\<forall>u \<in> set (users t). user_wf u"
    show "\<forall>u \<in> set (users (apply_change c t)). user_wf u"
    proof (cases c)
      case (PutUser u)
      with c assms(4) have "user_wf u" by blast
      with PutUser t show ?thesis by simp
    qed (use t in simp_all)
  qed
  with flush_unique [OF assms(1,2)] assms(3) show ?thesis
    by (simp add: db_wf_def)
qed

lemma unique_index_filter: "unique_index f ds \<Longrightarrow> unique_index f (filter P ds)"
  by (auto simp: unique_index_def)

lemma prunes_unique_index: "prunes P b ds ds' \<Longrightarrow> unique_index f ds \<Longrightarrow> unique_index f ds'"
  by (auto simp: unique_index_def dest: prunes_subset [THEN subsetD])

lemma prunes_inj_on: "prunes P b ds ds' \<Longrightarrow> inj_on k (set ds) \<Longrightarrow> inj_on k (set ds')"
  by (blast intro: inj_on_subset dest: prunes_subset)

lemma delete_devices_wf:
  assumes "driver_ok drv" and "delete_devices drv cs s = (r, s')" and "db_wf s"
  shows "db_wf s'"
  using delete_devices_any [OF assms(1,2)] assms(3)
  by (auto simp: db_wf_def db_unique_def intro: prunes_unique_index prunes_inj_on)

lemma delete_users_wf:
  assumes "driver_ok drv" and "delete_users drv cs s = (r, s')" and "db_wf s"
  shows "db_wf s'"
  using delete_users_any [OF assms(1,2)] assms(3)
  by (auto simp: db_wf_def db_unique_def intro: prunes_unique_index prunes_inj_on
      dest: prunes_subset [THEN subsetD])

text \<open>Writing back a batch of outbox rows: they replace the rows with their ids.\<close>

lemma apply_outbox_frame [simp]:
  "users (apply_changes (map PutOutbox rs) s) = users s"
  "devices (apply_changes (map PutOutbox rs) s) = devices s"
  by (induction rs arbitrary: s) simp_all

lemma apply_outbox_set:
  "distinct (map o_id rs) \<Longrightarrow>
     set (outbox (apply_changes (map PutOutbox rs) s))
       = set rs \<union> {x \<in> set (outbox s). o_id x \<notin> o_id ` set rs}"
proof (induction rs arbitrary: s)
  case Nil
  then show ?case by simp
next
  case (Cons r rs)
  then have "o_id r \<notin> o_id ` set rs" by auto
  with Cons show ?case by auto
qed

text \<open>
  A store that is reachable: beyond \<open>driver_ok\<close>, reads answer, deletes succeed and a unit of
  work of at most one document is written unless it would break a unique index.
\<close>

definition store_up :: "driver \<Rightarrow> bool" where
  "store_up drv \<longleftrightarrow>
     driver_ok drv
     \<and> (\<forall>s cs. \<exists>x. find_user drv s cs = Inr x) \<and> (\<forall>s cs. \<exists>x. find_device drv s cs = Inr x)
     \<and> (\<forall>s cs. \<exists>x. find_outbox drv s cs = Inr x)
     \<and> (\<forall>cs s. fst (delete_devices drv cs s) = Inr ())
     \<and> (\<forall>s. flush drv [] s = (Inr (), s))
     \<and> (\<forall>c s. db_unique (apply_change c s) \<longrightarrow> fst (flush drv [c] s) = Inr ())"

lemma store_up_ok: "store_up drv \<Longrightarrow> driver_ok drv"
  by (simp add: store_up_def)

lemma find_user_the:
  assumes "driver_ok drv" and "find_user drv s cs = Inr x" and "u \<in> set (users s)"
    and "sat user_matches cs u"
    and "\<And>v. v \<in> set (users s) \<Longrightarrow> sat user_matches cs v \<Longrightarrow> v = u"
  shows "x = Some u"
  using assms find_user_Some [OF assms(1)] find_user_None [OF assms(1)] by (cases x) blast+

lemma store_up_find_user:
  assumes "store_up drv" and "u \<in> set (users s)" and "sat user_matches cs u"
    and "\<And>v. v \<in> set (users s) \<Longrightarrow> sat user_matches cs v \<Longrightarrow> v = u"
  shows "find_user drv s cs = Inr (Some u)"
  using assms find_user_the [OF store_up_ok [OF assms(1)]] unfolding store_up_def by metis

lemma store_up_no_user:
  assumes "store_up drv" and "\<And>v. v \<in> set (users s) \<Longrightarrow> \<not> sat user_matches cs v"
  shows "find_user drv s cs = Inr None"
proof -
  obtain x where "find_user drv s cs = Inr x"
    using assms(1) unfolding store_up_def by blast
  with assms(2) find_user_Some [OF store_up_ok [OF assms(1)], of s cs] show ?thesis
    by (cases x) auto
qed

lemma store_up_flush:
  assumes "store_up drv" and "db_unique (apply_change c s)"
  shows "flush drv [c] s = (Inr (), apply_change c s)"
proof -
  obtain r s' where fl: "flush drv [c] s = (r, s')" by fastforce
  moreover have "fst (flush drv [c] s) = Inr ()"
    using assms unfolding store_up_def by blast
  ultimately have "r = Inr ()" by simp
  with fl flush_Inr [OF store_up_ok [OF assms(1)]] show ?thesis by fastforce
qed

text \<open>Rewriting one user keeps the unique indexes when its address is its own or free.\<close>

lemma db_unique_put_user:
  assumes "db_unique s" and "u \<in> set (users s)" and "u_id x = u_id u"
    and "\<And>v. v \<in> set (users s) \<Longrightarrow> u_email x \<noteq> None \<Longrightarrow> u_email v = u_email x \<Longrightarrow> u_id v = u_id u"
  shows "db_unique (apply_change (PutUser x) s)"
proof -
  have "unique_index u_email (put_by u_id x (users s))"
    unfolding unique_index_def
  proof (intro ballI impI)
    fix a b
    assume a: "a \<in> set (put_by u_id x (users s))" and b: "b \<in> set (put_by u_id x (users s))"
      and e: "u_email a \<noteq> None" "u_email a = u_email b"
    have own: "v = x" if "v \<in> set (put_by u_id x (users s))" "u_email v = u_email x"
      "u_email x \<noteq> None" for v
      using that assms(3,4) by auto
    show "a = b"
    proof (cases "a = x \<or> b = x")
      case True
      with own a b e show ?thesis by metis
    next
      case False
      with a b e assms(1) show ?thesis
        by (auto simp: db_unique_def dest: unique_indexD)
    qed
  qed
  moreover have "inj_on u_id (set (put_by u_id x (users s)))"
    using assms(1) by (intro inj_on_put_by) (simp add: db_unique_def)
  ultimately show ?thesis
    using assms(1) unfolding db_unique_def by simp
qed

end
