(* ===== verification/Env_Config.thy ===== *)
theory Env_Config
  imports Rpc_Errors
begin

section \<open>Configuration: environment variables and queue names\<close>

text \<open>
  \<open>libs/common/src/config/require-env.ts\<close>, \<open>libs/common/src/config/validate-env.ts\<close> and
  \<open>libs/common/src/constants/queue.constants.ts\<close>. The process environment is a function from
  names to optional values. The class-validator run of \<open>validateEnvWith\<close>, the numeric reading
  \<open>Number(raw)\<close> and base64 decoding are parameters.
\<close>

type_synonym environment = "string \<Rightarrow> string option"

definition env_missing :: "environment \<Rightarrow> string \<Rightarrow> bool" where
  "env_missing env name = (case env name of None \<Rightarrow> True | Some v \<Rightarrow> js_trim v = [])"

definition quoted :: "string \<Rightarrow> string" where
  "quoted s = ''\"'' @ s @ ''\"''"

definition require_env :: "environment \<Rightarrow> string \<Rightarrow> exn + string" where
  "require_env env name =
     (case env name of
        None \<Rightarrow> Inl (plain_error (''Missing required env var '' @ quoted name @ ''. Fix the k8s ConfigMap/Secret or your .env file.''))
      | Some value \<Rightarrow>
          if js_trim value = []
          then Inl (plain_error (''Missing required env var '' @ quoted name @ ''. Fix the k8s ConfigMap/Secret or your .env file.''))
          else Inr (js_trim value))"

definition optional_env :: "environment \<Rightarrow> string \<Rightarrow> string \<Rightarrow> string" where
  "optional_env env name fallback = nullish (env name) fallback"

fun missing_loop :: "environment \<Rightarrow> string list \<Rightarrow> string list \<Rightarrow> string list" where
  "missing_loop env [] missing = missing"
| "missing_loop env (name # names) missing =
     missing_loop env names (if env_missing env name then missing @ [name] else missing)"

definition assert_required_env :: "environment \<Rightarrow> string list \<Rightarrow> exn + unit" where
  "assert_required_env env names =
     (let missing = missing_loop env names [] in
      if missing \<noteq> []
      then Inl (plain_error (''Missing required env vars: '' @ join_with '', '' missing
                 @ ''. Fix the k8s ConfigMap/Secret or your .env file.''))
      else Inr ())"

text \<open>What \<open>Number(raw)\<close> can be, as far as \<open>requireEnvInt\<close> looks at it.\<close>

datatype js_number = NonFinite | Fractional | Whole int

definition require_env_int ::
  "(string \<Rightarrow> js_number) \<Rightarrow> (int \<Rightarrow> string) \<Rightarrow> environment \<Rightarrow> string \<Rightarrow> int option \<Rightarrow> int option
     \<Rightarrow> exn + int" where
  "require_env_int number_of show_int env name lo hi =
     (case require_env env name of
        Inl e \<Rightarrow> Inl e
      | Inr raw \<Rightarrow>
          (case number_of raw of
             Whole n \<Rightarrow>
               if (case lo of None \<Rightarrow> False | Some l \<Rightarrow> n < l)
               then Inl (plain_error (''Env var '' @ quoted name @ '' must be >= '' @ show_int (the lo) @ '' (got '' @ show_int n @ '')''))
               else if (case hi of None \<Rightarrow> False | Some h \<Rightarrow> h < n)
               then Inl (plain_error (''Env var '' @ quoted name @ '' must be <= '' @ show_int (the hi) @ '' (got '' @ show_int n @ '')''))
               else Inr n
           | _ \<Rightarrow> Inl (plain_error (''Env var '' @ quoted name @ '' must be an integer (got '' @ quoted raw @ '')''))))"

definition require_env_base64 ::
  "(string \<Rightarrow> nat list) \<Rightarrow> (nat \<Rightarrow> string) \<Rightarrow> environment \<Rightarrow> string \<Rightarrow> nat option \<Rightarrow> exn + nat list"
where
  "require_env_base64 from_base64 show_nat env name expectedBytes =
     (case require_env env name of
        Inl e \<Rightarrow> Inl e
      | Inr raw \<Rightarrow>
          let buf = from_base64 raw in
          (case expectedBytes of
             None \<Rightarrow> Inr buf
           | Some n \<Rightarrow>
               if length buf \<noteq> n
               then Inl (plain_error (''Env var '' @ quoted name @ '' must decode to '' @ show_nat n
                          @ '' bytes (got '' @ show_nat (length buf) @ '')''))
               else Inr buf))"

subsection \<open>Trimming and validating the whole environment\<close>

definition quote_pair :: "char \<Rightarrow> string \<Rightarrow> bool" where
  "quote_pair q s \<longleftrightarrow> 2 \<le> length s \<and> hd s = q \<and> last s = q"

definition trim_env_value :: "string \<Rightarrow> string" where
  "trim_env_value v =
     (let s = js_trim v in
      if quote_pair CHR 0x22 s \<or> quote_pair CHR 0x27 s then butlast (tl s) else s)"

definition trim_env_values :: "(string \<times> jsval) list \<Rightarrow> (string \<times> jsval) list" where
  "trim_env_values raw =
     map (\<lambda>(k, v). (k, case v of JStr s \<Rightarrow> JStr (trim_env_value s) | _ \<Rightarrow> v)) raw"

definition validate_env_with ::
  "string \<Rightarrow> ((string \<times> jsval) list \<Rightarrow> (string \<times> string list) list) \<Rightarrow> (string \<times> jsval) list
     \<Rightarrow> exn + (string \<times> jsval) list" where
  "validate_env_with cls validateSync raw =
     (let trimmed = trim_env_values raw;
          errors = validateSync trimmed in
      if errors \<noteq> []
      then Inl (plain_error (cls @ '' validation failed:'' @ [CHR 0x0A]
             @ join_with [CHR 0x0A]
                 (map (\<lambda>(prop, constraints). ''  '' @ prop @ '': '' @ join_with '', '' constraints) errors)))
      else Inr trimmed)"

subsection \<open>Queue names\<close>

definition USER_SERVICE_QUEUE :: string where
  "USER_SERVICE_QUEUE = ''user_service_queue''"

definition get_queue_prefix :: "environment \<Rightarrow> string" where
  "get_queue_prefix env =
     (case env ''RMQ_QUEUE_PREFIX'' of
        Some explicit \<Rightarrow>
          if explicit \<noteq> [] \<and> js_trim explicit \<noteq> [] then js_trim explicit
          else nullish (map_option js_trim (env ''NODE_ENV'')) ''dev''
      | None \<Rightarrow> nullish (map_option js_trim (env ''NODE_ENV'')) ''dev'')"

definition prefixed_queue :: "environment \<Rightarrow> string \<Rightarrow> string" where
  "prefixed_queue env queue = get_queue_prefix env @ ''_'' @ queue"

subsection \<open>Lemmas\<close>

lemma env_missing_iff: "env_missing env n \<longleftrightarrow> (\<exists>e. require_env env n = Inl e)"
  by (auto simp: env_missing_def require_env_def split: option.splits)

lemma require_env_Inr:
  "require_env env n = Inr v \<longleftrightarrow> (\<exists>raw. env n = Some raw \<and> v = js_trim raw \<and> v \<noteq> [])"
  by (auto simp: require_env_def split: option.splits)

lemma missing_loop_filter: "missing_loop env names acc = acc @ filter (env_missing env) names"
  by (induction names arbitrary: acc) auto

lemma prefixed_queue_inject:
  "prefixed_queue env q = prefixed_queue env q' \<longleftrightarrow> q = q'"
  by (simp add: prefixed_queue_def)

end
