(* ===== verification/Event_Bus.thy ===== *)
theory Event_Bus
  imports Env_Config
begin

section \<open>Fan-out events: the bus and the RPC client's \<open>publishEvent\<close>\<close>

text \<open>
  \<open>EventBusService.publish\<close> and \<open>publishToDeadLetter\<close>
  (\<open>libs/messaging/src/amqp/event-bus.service.ts\<close>), \<open>RpcClientService.publishEvent\<close>
  (\<open>libs/common/src/services/rpc-client.service.ts\<close>), \<open>CustomAmqpProxy.attachTraceId\<close>
  and the error path of \<open>EventDeadLetterInterceptor\<close>.

  The bus is its channel (absent before the bootstrap and after the shutdown) and the messages
  handed to it. What the channel does with a message is not under the repository: the parameter
  \<open>chan\<close> gives the exception a synchronous call of \<open>ChannelWrapper.publish\<close> throws, if any.
  The promise it returns is not awaited by the source, which only logs its rejection.
\<close>

record bus_message =
  m_exchange :: string
  m_routingKey :: string
  m_body :: jsval

record event_bus =
  bus_channel :: bool
  bus_handed :: "bus_message list"

type_synonym channel_publish = "bus_message \<Rightarrow> exn option"

definition events_exchange_name :: "environment \<Rightarrow> string" where
  "events_exchange_name env = prefixed_queue env ''events''"

definition events_dlx_name :: "environment \<Rightarrow> string" where
  "events_dlx_name env = prefixed_queue env ''events.dlx''"

subsection \<open>Trace ids on outgoing payloads\<close>

definition has_key :: "string \<Rightarrow> jsval \<Rightarrow> bool" where
  "has_key k v = (case v of JObj kvs \<Rightarrow> k \<in> fst ` set kvs | _ \<Rightarrow> False)"

fun with_key :: "jsval \<Rightarrow> string \<Rightarrow> jsval \<Rightarrow> jsval" where
  "with_key (JObj kvs) k v = JObj (filter (\<lambda>(k', _). k' \<noteq> k) kvs @ [(k, v)])"
| "with_key w k v = w"

lemma with_key_other: "k \<noteq> k' \<Longrightarrow> js_get (with_key v k' w) k = js_get v k"
proof (cases v)
  case (JObj kvs)
  assume "k \<noteq> k'"
  then have "map_of (filter (\<lambda>(x, _). x \<noteq> k') kvs @ [(k', w)]) k = map_of kvs k"
    by (induction kvs) auto
  with JObj show ?thesis by simp
qed simp_all

text \<open>
  \<open>CustomAmqpProxy.attachTraceId\<close>, used on every RPC payload. (Every payload of the program
  is an object literal; the spread of an array is not modelled.)
\<close>

definition attach_trace_id :: "string \<Rightarrow> jsval \<Rightarrow> jsval" where
  "attach_trace_id traceId payload =
     (if js_nullish payload then JObj [(''__traceId'', JStr traceId)]
      else if \<not> is_object payload then payload
      else if js_truthy (js_get payload ''__traceId'') then payload
      else with_key payload ''__traceId'' (JStr traceId))"

subsection \<open>Publishing\<close>

definition bus_publish ::
  "environment \<Rightarrow> channel_publish \<Rightarrow> string \<Rightarrow> string \<Rightarrow> jsval \<Rightarrow> event_bus \<Rightarrow> (exn + bool) \<times> event_bus" where
  "bus_publish env chan traceId pattern payload bus =
     (if \<not> bus_channel bus then (Inr False, bus)
      else
        let data = (if js_truthy payload \<and> is_object payload \<and> \<not> has_key ''__traceId'' payload
                    then with_key payload ''__traceId'' (JStr traceId) else payload);
            message = \<lparr>m_exchange = events_exchange_name env, m_routingKey = pattern,
                       m_body = JObj [(''pattern'', JStr pattern), (''data'', data)]\<rparr>
        in case chan message of
             Some e \<Rightarrow> (Inl e, bus)
           | None \<Rightarrow> (Inr True, bus\<lparr>bus_handed := bus_handed bus @ [message]\<rparr>))"

definition publish_to_dead_letter ::
  "environment \<Rightarrow> channel_publish \<Rightarrow> string \<Rightarrow> string \<Rightarrow> string \<Rightarrow> jsval \<Rightarrow> js_error \<Rightarrow> string \<Rightarrow> event_bus
     \<Rightarrow> (exn + bool) \<times> event_bus" where
  "publish_to_dead_letter env chan traceId nowIso originalPattern originalPayload err serviceName bus =
     (if \<not> bus_channel bus then (Inr False, bus)
      else
        let envelope =
              JObj [(''pattern'', JStr ''dlq.event_handler_failed''),
                    (''data'', JObj
                       [(''service'', JStr serviceName),
                        (''originalPattern'', JStr originalPattern),
                        (''originalPayload'', originalPayload),
                        (''error'', JObj [(''message'', JStr (err_message err)),
                                          (''name'', JStr (err_name err)),
                                          (''stack'', JStr (err_stack err))]),
                        (''deadLetteredAt'', JStr nowIso),
                        (''traceId'', JStr traceId)])];
            message = \<lparr>m_exchange = events_dlx_name env, m_routingKey = serviceName,
                       m_body = envelope\<rparr>
        in case chan message of
             Some e \<Rightarrow> (Inl e, bus)
           | None \<Rightarrow> (Inr True, bus\<lparr>bus_handed := bus_handed bus @ [message]\<rparr>))"

text \<open>
  \<open>RpcClientService.publishEvent\<close>: no bus injected, or the bus called with its exception caught.
  The result is the exception that escapes, as a call inside \<open>try\<close> sees it.
\<close>

definition publish_event ::
  "environment \<Rightarrow> channel_publish \<Rightarrow> string \<Rightarrow> string \<Rightarrow> jsval \<Rightarrow> event_bus option
     \<Rightarrow> exn option \<times> event_bus option" where
  "publish_event env chan traceId pattern payload eventBus =
     (case eventBus of
        None \<Rightarrow> (None, eventBus)
      | Some bus \<Rightarrow>
          (case bus_publish env chan traceId pattern payload bus of
             (Inr _, bus') \<Rightarrow> (None, Some bus')
           | (Inl err, bus') \<Rightarrow> (None, Some bus')))"

lemma publish_event_never_throws [simp]: "fst (publish_event env chan tr p v b) = None"
  by (auto simp: publish_event_def split: option.splits prod.splits sum.splits)

lemma publish_event_no_channel:
  "\<not> bus_channel b \<Longrightarrow> publish_event env chan tr p v (Some b) = (None, Some b)"
  by (simp add: publish_event_def bus_publish_def)

lemma bus_publish_handed:
  "bus_publish env chan tr p v b = (Inr True, b') \<Longrightarrow>
     \<exists>m. bus_handed b' = bus_handed b @ [m] \<and> m_exchange m = events_exchange_name env
       \<and> m_routingKey m = p \<and> js_get (m_body m) ''pattern'' = JStr p"
  by (auto simp: bus_publish_def Let_def split: if_splits option.splits)

subsection \<open>Failed event handlers\<close>

text \<open>
  \<open>EventDeadLetterInterceptor.intercept\<close>, on the outcome of the handler: other than an RPC
  context, or a handler that is no event handler, passes the outcome on; an event handler's error
  is published to the dead-letter exchange and replaced by an empty result. The outcome of the
  \<open>publishToDeadLetter\<close> call itself is part of the result: an exception there replaces the
  handler's. The parameter \<open>as_error\<close> is the expression
  \<open>err instanceof Error ? err : new Error(String(err))\<close>.
\<close>

datatype handler_type = MessageHandler | EventHandler | UntaggedHandler

definition dead_letter_intercept ::
  "(exn \<Rightarrow> js_error) \<Rightarrow> environment \<Rightarrow> channel_publish \<Rightarrow> string \<Rightarrow> string \<Rightarrow> bool \<Rightarrow> handler_type \<Rightarrow> string option \<Rightarrow> jsval
     \<Rightarrow> string option \<Rightarrow> exn + jsval \<Rightarrow> event_bus option \<Rightarrow> (exn + jsval) \<times> event_bus option" where
  "dead_letter_intercept as_error env chan traceId nowIso isRpc handlerType pattern data serviceName outcome bus =
     (if \<not> isRpc \<or> handlerType \<noteq> EventHandler then (outcome, bus)
      else case outcome of
        Inr v \<Rightarrow> (Inr v, bus)
      | Inl err \<Rightarrow>
          (case bus of
             None \<Rightarrow> (Inr JUndef, None)
           | Some b \<Rightarrow>
               (case publish_to_dead_letter env chan traceId nowIso (nullish pattern ''<unknown>'')
                       data (as_error err) (nullish serviceName ''unknown'') b of
                  (Inl e, b') \<Rightarrow> (Inl e, Some b')
                | (Inr _, b') \<Rightarrow> (Inr JUndef, Some b'))))"

lemma dead_letter_passes_commands:
  "handlerType \<noteq> EventHandler \<Longrightarrow>
     dead_letter_intercept as_error env chan tr t isRpc handlerType p d sn out b = (out, b)"
  by (simp add: dead_letter_intercept_def)

end
