(* ===== verification/Outbox.thy ===== *)
theory Outbox
  imports Store Event_Bus
begin

section \<open>The transactional outbox\<close>

text \<open>
  \<open>libs/messaging/src/outbox/outbox.service.ts\<close>: \<open>stageOutboxEvent\<close>, which joins the
  caller's unit of work, and the \<open>OutboxDispatcher\<close>: its sweep over the pending rows and the
  life cycle of its timer. Staging returns the row, the \<open>created\<close> flag and the changes it adds to
  the caller's flush. The sweep takes the publisher as a parameter, so that what it does with a
  publisher that throws is stated too; \<open>rpc_publisher\<close> is the one the code injects.
\<close>

definition POLL_INTERVAL_MS :: int where "POLL_INTERVAL_MS = 2000"
definition MAX_BATCH :: nat where "MAX_BATCH = 25"
definition MAX_ATTEMPTS :: nat where "MAX_ATTEMPTS = 10"

subsection \<open>Staging\<close>

record stage_params =
  st_target :: string
  st_pattern :: string
  st_payload :: jsval
  st_idempotencyKey :: string

definition revive_row :: "jsval \<Rightarrow> outbox_event \<Rightarrow> outbox_event" where
  "revive_row payload e =
     (if o_status e = Failed
      then e\<lparr>o_status := Pending, o_attempts := 0, o_lastError := None, o_payload := payload\<rparr>
      else e)"

definition staged_row :: "oid \<Rightarrow> millis \<Rightarrow> stage_params \<Rightarrow> outbox_event" where
  "staged_row newId now params =
     (new_outbox_event newId now)\<lparr>
        o_target := st_target params, o_pattern := st_pattern params,
        o_payload := st_payload params, o_idempotencyKey := st_idempotencyKey params,
        o_status := Pending, o_attempts := 0\<rparr>"

definition stage_outbox_event ::
  "driver \<Rightarrow> db \<Rightarrow> millis \<Rightarrow> oid \<Rightarrow> stage_params \<Rightarrow> exn + (outbox_event \<times> bool \<times> change list)" where
  "stage_outbox_event drv s now newId params =
     (case find_outbox drv s [KeyIs (st_idempotencyKey params)] of
        Inl err \<Rightarrow> Inl err
      | Inr (Some existing) \<Rightarrow>
          let row = revive_row (st_payload params) existing
          in Inr (row, False, save_outbox now existing row)
      | Inr None \<Rightarrow>
          let row = staged_row newId now params
          in Inr (row, True, [PutOutbox row]))"

subsection \<open>The sweep\<close>

text \<open>\<open>publishEvent(pattern, payload)\<close>: the exception it throws, if any, and the bus afterwards.\<close>

type_synonym 'b publisher = "string \<Rightarrow> jsval \<Rightarrow> 'b \<Rightarrow> exn option \<times> 'b"

record dispatcher =
  dp_running :: bool
  dp_timer :: bool
  dp_shuttingDown :: bool
  dp_outboxPending :: nat   \<comment> \<open>gauge \<open>outbox_pending\<close>\<close>
  dp_outboxFailed :: nat    \<comment> \<open>gauge \<open>outbox_failed\<close>\<close>
  dp_terminalFailures :: "(string \<times> string) list"  \<comment> \<open>counter, one entry per increment\<close>

text \<open>The variables of the loop: the rows as they are left, and the two counters.\<close>

record 'b sweep_vars =
  sw_rows :: "outbox_event list"
  sw_bus :: 'b
  sw_dispatched :: nat
  sw_failed :: nat
  sw_terminal :: "(string \<times> string) list"

definition sweep_row :: "'b publisher \<Rightarrow> millis \<Rightarrow> outbox_event \<Rightarrow> 'b sweep_vars \<Rightarrow> 'b sweep_vars" where
  "sweep_row publish now row v =
     (case publish (o_pattern row) (o_payload row) (sw_bus v) of
        (None, bus') \<Rightarrow>
          v\<lparr>sw_rows := sw_rows v @
               [row\<lparr>o_status := Sent, o_lastAttemptAt := Some now, o_attempts := o_attempts row + 1\<rparr>],
            sw_bus := bus', sw_dispatched := sw_dispatched v + 1\<rparr>
      | (Some err, bus') \<Rightarrow>
          let message = (case js_get (exn_props err) ''message'' of JStr m \<Rightarrow> Some m | _ \<Rightarrow> None);
              row' = row\<lparr>o_attempts := o_attempts row + 1, o_lastAttemptAt := Some now,
                         o_lastError := message\<rparr>
          in if MAX_ATTEMPTS \<le> o_attempts row'
             then v\<lparr>sw_rows := sw_rows v @ [row'\<lparr>o_status := Failed\<rparr>], sw_bus := bus',
                    sw_failed := sw_failed v + 1,
                    sw_terminal := sw_terminal v @ [(o_target row, o_pattern row)]\<rparr>
             else v\<lparr>sw_rows := sw_rows v @ [row'], sw_bus := bus'\<rparr>)"

fun sweep_rows :: "'b publisher \<Rightarrow> millis \<Rightarrow> outbox_event list \<Rightarrow> 'b sweep_vars \<Rightarrow> 'b sweep_vars" where
  "sweep_rows publish now [] v = v"
| "sweep_rows publish now (row # rows) v = sweep_rows publish now rows (sweep_row publish now row v)"

definition sweep_changes :: "millis \<Rightarrow> outbox_event list \<Rightarrow> outbox_event list \<Rightarrow> change list" where
  "sweep_changes now rows rows' = concat (map2 (save_outbox now) rows rows')"

definition sweep ::
  "driver \<Rightarrow> 'b publisher \<Rightarrow> millis \<Rightarrow> db \<Rightarrow> 'b \<Rightarrow> dispatcher
     \<Rightarrow> (exn + nat \<times> nat) \<times> db \<times> 'b \<times> dispatcher" where
  "sweep drv publish now s bus dp =
     (if dp_running dp then (Inr (0, 0), s, bus, dp)
      else
        case find_outbox_batch drv s [StatusIs Pending, AttemptsBelow MAX_ATTEMPTS] MAX_BATCH of
          Inl err \<Rightarrow> (Inl err, s, bus, dp)
        | Inr [] \<Rightarrow> (Inr (0, 0), s, bus, dp)
        | Inr pending \<Rightarrow>
            let v = sweep_rows publish now pending
                      \<lparr>sw_rows = [], sw_bus = bus, sw_dispatched = 0, sw_failed = 0, sw_terminal = []\<rparr>;
                dp' = dp\<lparr>dp_terminalFailures := dp_terminalFailures dp @ sw_terminal v\<rparr>
            in case flush drv (sweep_changes now pending (sw_rows v)) s of
                 (Inl err, s') \<Rightarrow> (Inl err, s', sw_bus v, dp')
               | (Inr (), s') \<Rightarrow>
                   (case count_outbox drv s' [StatusIs Pending] of
                      Inl err \<Rightarrow> (Inl err, s', sw_bus v, dp')
                    | Inr stillPending \<Rightarrow>
                        (case count_outbox drv s' [StatusIs Failed] of
                           Inl err \<Rightarrow> (Inl err, s', sw_bus v, dp')
                         | Inr stillFailed \<Rightarrow>
                             (Inr (sw_dispatched v, sw_failed v), s', sw_bus v,
                              dp'\<lparr>dp_outboxPending := stillPending,
                                  dp_outboxFailed := stillFailed\<rparr>))))"

text \<open>The publisher the dispatcher is constructed with: \<open>RpcClientService.publishEvent\<close>.\<close>

definition rpc_publisher ::
  "environment \<Rightarrow> channel_publish \<Rightarrow> string \<Rightarrow> event_bus option publisher" where
  "rpc_publisher env chan traceId pattern payload bus = publish_event env chan traceId pattern payload bus"

subsection \<open>What the sweep does to a row\<close>

definition attempted :: "outbox_event \<Rightarrow> outbox_event \<Rightarrow> bool" where
  "attempted row row' \<longleftrightarrow>
     o_id row' = o_id row \<and> o_createdAt row' = o_createdAt row
     \<and> o_idempotencyKey row' = o_idempotencyKey row \<and> o_pattern row' = o_pattern row
     \<and> o_payload row' = o_payload row \<and> o_attempts row' = o_attempts row + 1
     \<and> (o_status row' = Sent \<or>
        o_status row' = (if MAX_ATTEMPTS \<le> o_attempts row' then Failed else o_status row))"

lemma sweep_row_attempts:
  "\<exists>row'. sw_rows (sweep_row publish now row v) = sw_rows v @ [row'] \<and> attempted row row'"
proof -
  have "sw_rows (sweep_row publish now row v)
      = sw_rows v @ [last (sw_rows (sweep_row publish now row v))]
    \<and> attempted row (last (sw_rows (sweep_row publish now row v)))"
    by (auto simp: sweep_row_def attempted_def Let_def split: prod.splits option.splits)
  then show ?thesis by blast
qed

lemma sweep_rows_attempts:
  "\<exists>rows'. sw_rows (sweep_rows publish now rows v) = sw_rows v @ rows'
     \<and> list_all2 attempted rows rows'"
proof (induction rows arbitrary: v)
  case Nil
  then show ?case by simp
next
  case (Cons row rows)
  obtain row' where "sw_rows (sweep_row publish now row v) = sw_rows v @ [row']"
    and "attempted row row'"
    using sweep_row_attempts by blast
  moreover obtain rows' where "sw_rows (sweep_rows publish now rows (sweep_row publish now row v))
      = sw_rows (sweep_row publish now row v) @ rows'" and "list_all2 attempted rows rows'"
    using Cons.IH by blast
  ultimately show ?case
    by (intro exI [of _ "row' # rows'"]) simp
qed

lemma sweep_rows_sent:
  "(\<And>p v b. fst (publish p v b) = None) \<Longrightarrow> e \<in> set (sw_rows (sweep_rows publish now rows v)) \<Longrightarrow>
     e \<in> set (sw_rows v) \<or> o_status e = Sent"
proof (induction rows arbitrary: v)
  case (Cons row rows)
  have "e \<in> set (sw_rows (sweep_row publish now row v)) \<or> o_status e = Sent"
    using Cons.IH [OF Cons.prems(1)] Cons.prems(2) by simp
  moreover obtain b where "publish (o_pattern row) (o_payload row) (sw_bus v) = (None, b)"
    using Cons.prems(1) [of "o_pattern row" "o_payload row" "sw_bus v"] by (metis prod.collapse)
  ultimately show ?case by (auto simp: sweep_row_def)
qed simp

lemma sweep_changes_puts:
  "list_all2 attempted rows rows' \<Longrightarrow>
     sweep_changes now rows rows' = map PutOutbox (map (touch_outbox now) rows')"
  by (induction rule: list_all2_induct)
    (auto simp: sweep_changes_def save_outbox_def attempted_def)

text \<open>
  A pending row still has attempts left, so the sweep's filter reaches it; a failed one has used
  them all.
\<close>

definition row_wf :: "outbox_event \<Rightarrow> bool" where
  "row_wf e \<longleftrightarrow>
     o_attempts e \<le> MAX_ATTEMPTS \<and> (o_status e = Pending \<longrightarrow> o_attempts e < MAX_ATTEMPTS)
     \<and> (o_status e = Failed \<longrightarrow> o_attempts e = MAX_ATTEMPTS)"

definition outbox_wf :: "db \<Rightarrow> bool" where
  "outbox_wf s \<longleftrightarrow> (\<forall>e \<in> set (outbox s). row_wf e)"

lemma touch_row_wf [simp]: "row_wf (touch_outbox t e) = row_wf e"
  by (simp add: row_wf_def)

lemma attempted_wf:
  "attempted row row' \<Longrightarrow> o_status row = Pending \<Longrightarrow> o_attempts row < MAX_ATTEMPTS \<Longrightarrow> row_wf row'"
  by (auto simp: attempted_def row_wf_def split: if_splits)

lemma flush_outbox_wf:
  assumes "driver_ok drv" and "flush drv cs s = (r, s')" and "outbox_wf s"
    and "\<And>e. PutOutbox e \<in> set cs \<Longrightarrow> row_wf e"
  shows "outbox_wf s'"
proof (rule flush_preserves [OF assms(1,2), of outbox_wf])
  fix c t
  assume "c \<in> set cs" and "outbox_wf t"
  with assms(4) show "outbox_wf (apply_change c t)"
    by (cases c) (auto simp: outbox_wf_def)
qed (rule assms(3))

text \<open>
  The shape of a sweep that got past its guard: the batch, the rows as the loop leaves them, and
  the flush.
\<close>

lemma sweep_flushed:
  assumes ok: "driver_ok drv" and sw: "sweep drv publish now s bus dp = (r, s', bus', dp')"
  obtains (idle) "s' = s" "dp_running dp' = dp_running dp"
      "dp_running dp \<or> (\<exists>e. r = Inl e) \<or>
        oldest_first o_createdAt (sat outbox_matches [StatusIs Pending, AttemptsBelow MAX_ATTEMPTS])
          MAX_BATCH (outbox s) []"
  | (flushed) es rows' q where
      "oldest_first o_createdAt (sat outbox_matches [StatusIs Pending, AttemptsBelow MAX_ATTEMPTS])
         MAX_BATCH (outbox s) es"
      "list_all2 attempted es rows'"
      "flush drv (map PutOutbox (map (touch_outbox now) rows')) s = (q, s')"
      "\<forall>d f. r = Inr (d, f) \<longrightarrow> q = Inr ()" "dp_running dp' = dp_running dp"
      "(\<And>p v b. fst (publish p v b) = None) \<Longrightarrow> \<forall>e \<in> set rows'. o_status e = Sent"
proof (cases "dp_running dp")
  case True
  with sw idle show ?thesis by (simp add: sweep_def)
next
  case running: False
  show ?thesis
  proof (cases "find_outbox_batch drv s [StatusIs Pending, AttemptsBelow MAX_ATTEMPTS] MAX_BATCH")
    case (Inl e)
    with sw idle running show ?thesis by (auto simp: sweep_def)
  next
    case (Inr es)
    let ?v = "sweep_rows publish now es
      \<lparr>sw_rows = [], sw_bus = bus, sw_dispatched = 0, sw_failed = 0, sw_terminal = []\<rparr>"
    have batch: "oldest_first o_createdAt
        (sat outbox_matches [StatusIs Pending, AttemptsBelow MAX_ATTEMPTS]) MAX_BATCH (outbox s) es"
      using ok Inr by (rule find_outbox_batch_Inr)
    have att: "list_all2 attempted es (sw_rows ?v)"
      using sweep_rows_attempts [of publish now es "\<lparr>sw_rows = [], sw_bus = bus,
        sw_dispatched = 0, sw_failed = 0, sw_terminal = []\<rparr>"] by auto
    have sent: "\<forall>e \<in> set (sw_rows ?v). o_status e = Sent"
      if silent: "\<And>p v b. fst (publish p v b) = None"
    proof
      fix e
      assume "e \<in> set (sw_rows ?v)"
      from sweep_rows_sent [OF silent this] show "o_status e = Sent" by simp
    qed
    show ?thesis
    proof (cases es)
      case Nil
      with sw idle running Inr batch show ?thesis by (simp add: sweep_def)
    next
      case (Cons a list)
      obtain q t where fl: "flush drv (sweep_changes now es (sw_rows ?v)) s = (q, t)"
        by fastforce
      from sw running Inr Cons fl have "s' = t" and "\<forall>d f. r = Inr (d, f) \<longrightarrow> q = Inr ()"
          and "dp_running dp' = dp_running dp"
        by (auto simp: sweep_def Let_def split: sum.splits unit.splits)
      with fl att batch sent sweep_changes_puts [OF att] show ?thesis
        by (intro flushed [of es "sw_rows ?v" q]) auto
    qed
  qed
qed

theorem sweep_preserves_wf:
  assumes "driver_ok drv" and "sweep drv publish now s bus dp = (r, s', bus', dp')"
    and "outbox_wf s"
  shows "outbox_wf s'"
  using assms(1,2)
proof (cases rule: sweep_flushed)
  case idle
  with assms(3) show ?thesis by simp
next
  case (flushed es rows' q)
  have "row_wf e" if "e \<in> set rows'" for e
  proof -
    from that flushed(2) obtain row where "row \<in> set es" and "attempted row e"
      by (metis in_set_conv_nth list_all2_conv_all_nth)
    with oldest_firstD(5) [OF flushed(1)] show ?thesis
      by (auto intro: attempted_wf)
  qed
  then show ?thesis
    by (intro flush_outbox_wf [OF assms(1) flushed(3) assms(3)]) auto
qed

subsection \<open>Draining the outbox\<close>

lemma sweep_unique:
  assumes "driver_ok drv" and "sweep drv publish now s bus dp = (r, s', bus', dp')"
    and "db_unique s"
  shows "db_unique s'"
  using assms(1,2)
proof (cases rule: sweep_flushed)
  case flushed
  then show ?thesis using flush_unique [OF assms(1)] assms(3) by blast
qed (use assms(3) in simp)

definition pending_rows :: "db \<Rightarrow> outbox_event set" where
  "pending_rows s = {e \<in> set (outbox s). o_status e = Pending}"

lemma finite_pending [simp]: "finite (pending_rows s)"
  by (simp add: pending_rows_def)

text \<open>
  A batch that has room, or all of them: with at most \<open>MAX_BATCH\<close> pending rows the sweep takes
  every one.
\<close>

lemma batch_takes_all:
  assumes "oldest_first t P n ds es" and "card {d \<in> set ds. P d} \<le> n"
  shows "set es = {d \<in> set ds. P d}"
proof (cases "length es < n")
  case True
  with assms(1) show ?thesis by (simp add: oldest_first_def)
next
  case False
  have "card (set es) = length es"
    using oldest_firstD(1) [OF assms(1)] by (rule distinct_card)
  with False assms(2) have "card {d \<in> set ds. P d} \<le> card (set es)" by simp
  with oldest_firstD(4,5) [OF assms(1)] show ?thesis
    by (intro card_seteq) auto
qed

lemma attempted_rows:
  assumes "list_all2 attempted es rows'"
  shows "map o_id rows' = map o_id es"
    and "e' \<in> set rows' \<Longrightarrow> \<exists>e \<in> set es. attempted e e'"
    and "e \<in> set es \<Longrightarrow> \<exists>e' \<in> set rows'. attempted e e'"
proof -
  show "map o_id rows' = map o_id es"
    using assms by (induction rule: list_all2_induct) (auto simp: attempted_def)
  show "e' \<in> set rows' \<Longrightarrow> \<exists>e \<in> set es. attempted e e'"
    using assms by (induction rule: list_all2_induct) auto
  show "e \<in> set es \<Longrightarrow> \<exists>e' \<in> set rows'. attempted e e'"
    using assms by (induction rule: list_all2_induct) auto
qed

lemma sweep_effect:
  assumes ok: "driver_ok drv" and sw: "sweep drv publish now s bus dp = (Inr cnt, s', bus', dp')"
    and u: "db_unique s" and wf: "outbox_wf s" and idle: "\<not> dp_running dp"
  obtains es rows' where
    "oldest_first o_createdAt (\<lambda>e. o_status e = Pending) MAX_BATCH (outbox s) es"
    "list_all2 attempted es rows'"
    "set (outbox s') = touch_outbox now ` set rows' \<union>
       {x \<in> set (outbox s). o_id x \<notin> o_id ` set es}"
    "users s' = users s" "devices s' = devices s" "\<not> dp_running dp'"
    "(\<And>p v b. fst (publish p v b) = None) \<Longrightarrow> \<forall>e \<in> set rows'. o_status e = Sent"
proof -
  let ?P = "sat outbox_matches [StatusIs Pending, AttemptsBelow MAX_ATTEMPTS]"
  have eq: "oldest_first o_createdAt (\<lambda>e. o_status e = Pending) MAX_BATCH (outbox s) es"
    if "oldest_first o_createdAt ?P MAX_BATCH (outbox s) es" for es
    using that wf unfolding oldest_first_def outbox_wf_def row_wf_def by auto
  from ok sw show ?thesis
  proof (cases rule: sweep_flushed)
    case idle
    with \<open>\<not> dp_running dp\<close> that [of "[]" "[]"] eq show ?thesis by auto
  next
    case (flushed es rows' q)
    obtain d f where "cnt = (d, f)" by fastforce
    with flushed(3,4) have s': "s' = apply_changes (map PutOutbox (map (touch_outbox now) rows')) s"
      using flush_Inr [OF ok] by blast
    have "set es \<subseteq> set (outbox s)" and "distinct es"
      using oldest_firstD [OF flushed(1)] by blast+
    with u have "distinct (map o_id es)"
      by (auto simp: distinct_map db_unique_def intro: inj_on_subset)
    moreover have ids: "map o_id (map (touch_outbox now) rows') = map o_id es"
      using attempted_rows(1) [OF flushed(2)] by (simp add: comp_def)
    ultimately have "distinct (map o_id (map (touch_outbox now) rows'))" by simp
    from apply_outbox_set [OF this, of s] s' ids
    have "set (outbox s') = touch_outbox now ` set rows' \<union>
        {x \<in> set (outbox s). o_id x \<notin> o_id ` set es}"
      by (metis list.set_map)
    moreover have "users s' = users s" and "devices s' = devices s"
      unfolding s' by (simp_all only: apply_outbox_frame)
    ultimately show ?thesis
      using that [OF eq [OF flushed(1)] flushed(2)] flushed(5,6) \<open>\<not> dp_running dp\<close> by simp
  qed
qed

text \<open>Sweeps in a row, none of which failed, with no staging between them.\<close>

fun sweeps :: "driver \<Rightarrow> 'b publisher \<Rightarrow> millis list \<Rightarrow> db \<Rightarrow> 'b \<Rightarrow> dispatcher \<Rightarrow> db option" where
  "sweeps drv publish [] s bus dp = Some s"
| "sweeps drv publish (now # ts) s bus dp =
     (case sweep drv publish now s bus dp of
        (Inr _, s', bus', dp') \<Rightarrow> sweeps drv publish ts s' bus' dp'
      | _ \<Rightarrow> None)"

definition drained_to :: "nat \<Rightarrow> db \<Rightarrow> bool" where
  "drained_to k s \<longleftrightarrow>
     card (pending_rows s) \<le> MAX_BATCH \<and> (\<forall>e \<in> pending_rows s. k \<le> o_attempts e)"

lemma sweep_drains:
  assumes ok: "driver_ok drv" and sw: "sweep drv publish now s bus dp = (Inr cnt, s', bus', dp')"
    and u: "db_unique s" and wf: "outbox_wf s" and idle: "\<not> dp_running dp"
    and k: "drained_to k s"
  shows "drained_to (Suc k) s'" and "\<not> dp_running dp'"
proof -
  from ok sw u wf idle obtain es rows' where
    batch: "oldest_first o_createdAt (\<lambda>e. o_status e = Pending) MAX_BATCH (outbox s) es" and
    att: "list_all2 attempted es rows'" and
    new: "set (outbox s') = touch_outbox now ` set rows' \<union>
       {x \<in> set (outbox s). o_id x \<notin> o_id ` set es}" and
    dp': "\<not> dp_running dp'"
    by (rule sweep_effect)
  have all: "set es = pending_rows s"
    using batch_takes_all [OF batch] k by (simp add: drained_to_def pending_rows_def)
  have old: "\<exists>e0 \<in> pending_rows s. o_id e0 = o_id e \<and> o_attempts e = Suc (o_attempts e0)"
    if "e \<in> pending_rows s'" for e
  proof -
    from that have "e \<notin> {x \<in> set (outbox s). o_id x \<notin> o_id ` set es}"
      by (auto simp: pending_rows_def all)
    moreover from that new have "e \<in> touch_outbox now ` set rows' \<union>
        {x \<in> set (outbox s). o_id x \<notin> o_id ` set es}"
      by (simp add: pending_rows_def)
    ultimately obtain e' where "e' \<in> set rows'" and "e = touch_outbox now e'" by blast
    with attempted_rows(2) [OF att] all show ?thesis
      by (fastforce simp: attempted_def)
  qed
  then have ids: "o_id ` pending_rows s' \<subseteq> o_id ` pending_rows s"
    by (auto simp: image_iff) metis
  have "inj_on o_id (pending_rows s')"
    using sweep_unique [OF ok sw u]
    by (auto simp: db_unique_def pending_rows_def intro: inj_on_subset)
  then have "card (pending_rows s') = card (o_id ` pending_rows s')"
    by (simp add: card_image)
  also have "\<dots> \<le> card (o_id ` pending_rows s)"
    using ids by (simp add: card_mono)
  also have "\<dots> \<le> card (pending_rows s)"
    by (simp add: card_image_le)
  finally have "card (pending_rows s') \<le> MAX_BATCH"
    using k by (simp add: drained_to_def)
  with old k show "drained_to (Suc k) s'"
    by (fastforce simp: drained_to_def)
  show "\<not> dp_running dp'" by (rule dp')
qed

lemma sweeps_drain:
  assumes "driver_ok drv" and "db_unique s" and "outbox_wf s" and "\<not> dp_running dp"
    and "drained_to k s" and "sweeps drv publish ts s bus dp = Some s'"
  shows "outbox_wf s' \<and> drained_to (k + length ts) s'"
  using assms(2-)
proof (induction ts arbitrary: s bus dp k)
  case Nil
  then show ?case by simp
next
  case (Cons now ts)
  from Cons.prems(5) obtain cnt s1 bus1 dp1
    where sw: "sweep drv publish now s bus dp = (Inr cnt, s1, bus1, dp1)"
      and rest: "sweeps drv publish ts s1 bus1 dp1 = Some s'"
    by (auto split: prod.splits sum.splits)
  have "drained_to (Suc k) s1" and "\<not> dp_running dp1"
    using sweep_drains [OF assms(1) sw Cons.prems(1-4)] by auto
  from Cons.IH [OF sweep_unique [OF assms(1) sw Cons.prems(1)]
      sweep_preserves_wf [OF assms(1) sw Cons.prems(2)] this(2,1) rest]
  show ?case by simp
qed

lemma sweep_leaves_settled_rows:
  assumes "driver_ok drv" and "sweep drv publish now s bus dp = (r, s', bus', dp')"
    and "db_unique s" and "e \<in> set (outbox s)" and "o_status e \<noteq> Pending"
  shows "e \<in> set (outbox s')"
  using assms(1,2)
proof (cases rule: sweep_flushed)
  case (flushed es rows' q)
  have "e' = e" if "e' \<in> set es" "o_id e' = o_id e" for e'
    using that oldest_firstD(4) [OF flushed(1)] assms(3,4)
    by (auto simp: db_unique_def dest: inj_onD)
  moreover have "e \<notin> set es"
    using oldest_firstD(5) [OF flushed(1), of e] assms(5) by auto
  ultimately have "o_id e \<notin> o_id ` set es" by (metis imageE)
  moreover have "o_id ` set rows' = o_id ` set es"
    using arg_cong [OF attempted_rows(1) [OF flushed(2)], of set] by simp
  ultimately have fresh: "o_id e \<notin> o_id ` set (map (touch_outbox now) rows')"
    by (simp add: image_image)
  show ?thesis
  proof (rule flush_preserves [OF assms(1) flushed(3), of "\<lambda>t. e \<in> set (outbox t)"])
    fix c and t :: db
    assume "c \<in> set (map PutOutbox (map (touch_outbox now) rows'))" and "e \<in> set (outbox t)"
    then obtain x where "x \<in> set (map (touch_outbox now) rows')" and "c = PutOutbox x"
      and "e \<in> set (outbox t)" by auto
    with fresh show "e \<in> set (outbox (apply_change c t))"
      by (auto simp del: list.set_map)
  qed (rule assms(4))
qed (use assms(4) in simp)

subsection \<open>Publishers\<close>

text \<open>
  The contract between the dispatcher and what publishes for it: a call that throws has handed
  nothing over, and one that returns has handed over at most one message, under the given routing
  key. \<open>handed\<close> reads the routing keys handed over so far.
\<close>

locale event_publisher =
  fixes publish :: "string \<Rightarrow> jsval \<Rightarrow> 'b \<Rightarrow> exn option \<times> 'b"
    and handed :: "'b \<Rightarrow> string list"
  assumes throws_unhanded: "publish p v b = (Some e, b') \<Longrightarrow> handed b' = handed b"
    and returns_handed: "publish p v b = (None, b') \<Longrightarrow> handed b' = handed b \<or> handed b' = handed b @ [p]"
begin

lemma sweep_row_hands:
  "handed (sw_bus (sweep_row publish now row v)) = handed (sw_bus v) \<or>
   handed (sw_bus (sweep_row publish now row v)) = handed (sw_bus v) @ [o_pattern row]"
  by (auto simp: sweep_row_def Let_def split: prod.splits option.splits
      dest: throws_unhanded returns_handed)

lemma sweep_rows_hands:
  "\<exists>ks. subseq ks (map o_pattern rows) \<and>
     handed (sw_bus (sweep_rows publish now rows v)) = handed (sw_bus v) @ ks"
proof (induction rows arbitrary: v)
  case Nil
  then show ?case by simp
next
  case (Cons row rows)
  from Cons.IH [of "sweep_row publish now row v"] obtain ks
    where ks: "subseq ks (map o_pattern rows)"
      and eq: "handed (sw_bus (sweep_rows publish now (row # rows) v))
        = handed (sw_bus (sweep_row publish now row v)) @ ks" by auto
  from sweep_row_hands [of now row v] show ?case
  proof
    assume "handed (sw_bus (sweep_row publish now row v)) = handed (sw_bus v)"
    with ks eq show ?thesis by (intro exI [of _ ks]) auto
  next
    assume "handed (sw_bus (sweep_row publish now row v)) = handed (sw_bus v) @ [o_pattern row]"
    with ks eq show ?thesis by (intro exI [of _ "o_pattern row # ks"]) auto
  qed
qed

lemma sweep_hands:
  assumes ok: "driver_ok drv" and sw: "sweep drv publish now s bus dp = (r, s', bus', dp')"
  shows "\<exists>es ks. oldest_first o_createdAt
             (sat outbox_matches [StatusIs Pending, AttemptsBelow MAX_ATTEMPTS]) MAX_BATCH (outbox s) es
           \<and> subseq ks (map o_pattern es) \<and> handed bus' = handed bus @ ks
       \<or> handed bus' = handed bus"
proof (cases "dp_running dp")
  case True
  with sw show ?thesis by (simp add: sweep_def)
next
  case running: False
  show ?thesis
  proof (cases "find_outbox_batch drv s [StatusIs Pending, AttemptsBelow MAX_ATTEMPTS] MAX_BATCH")
    case (Inl e)
    with sw running show ?thesis by (simp add: sweep_def)
  next
    case (Inr es)
    let ?v = "\<lparr>sw_rows = [], sw_bus = bus, sw_dispatched = 0, sw_failed = 0, sw_terminal = []\<rparr>"
    have "bus' = sw_bus (sweep_rows publish now es ?v)"
      using sw running Inr
      by (cases es) (auto simp: sweep_def Let_def split: prod.splits sum.splits unit.splits)
    with sweep_rows_hands [of es now ?v] find_outbox_batch_Inr [OF ok Inr] show ?thesis
      by auto
  qed
qed

end

text \<open>A publisher that cannot throw leaves every row it was given marked as sent.\<close>

locale silent_publisher = event_publisher +
  assumes never_throws: "fst (publish p v b) = None"
begin

lemma sweep_marks_sent:
  assumes "driver_ok drv" and "sweep drv publish now s bus dp = (Inr cnt, s', bus', dp')"
    and "db_unique s" and "outbox_wf s" and "\<not> dp_running dp"
    and "card (pending_rows s) \<le> MAX_BATCH" and e: "e \<in> pending_rows s"
  shows "\<exists>e' \<in> set (outbox s'). o_id e' = o_id e \<and> o_status e' = Sent"
proof -
  from assms(1-5) obtain es rows' where
    batch: "oldest_first o_createdAt (\<lambda>e. o_status e = Pending) MAX_BATCH (outbox s) es" and
    att: "list_all2 attempted es rows'" and
    new: "set (outbox s') = touch_outbox now ` set rows' \<union>
       {x \<in> set (outbox s). o_id x \<notin> o_id ` set es}" and
    sent: "(\<And>p v b. fst (publish p v b) = None) \<Longrightarrow> \<forall>e \<in> set rows'. o_status e = Sent"
    by (rule sweep_effect) blast
  have "e \<in> set es"
    using batch_takes_all [OF batch] assms(6) e by (simp add: pending_rows_def)
  from attempted_rows(3) [OF att this] obtain e' where "e' \<in> set rows'" and "attempted e e'" ..
  with sent never_throws new show ?thesis
    by (intro bexI [of _ "touch_outbox now e'"]) (auto simp: attempted_def)
qed

end

definition handed_keys :: "event_bus option \<Rightarrow> string list" where
  "handed_keys b = (case b of None \<Rightarrow> [] | Some bus \<Rightarrow> map m_routingKey (bus_handed bus))"

lemma rpc_publisher_handed:
  "rpc_publisher env chan tr p v b = (r, b') \<Longrightarrow> handed_keys b' = handed_keys b \<or>
     r = None \<and> handed_keys b' = handed_keys b @ [p]"
  by (auto simp: rpc_publisher_def publish_event_def bus_publish_def handed_keys_def Let_def
      split: option.splits prod.splits sum.splits if_splits)

interpretation rpc_pub: silent_publisher "rpc_publisher env chan tr" handed_keys
  for env :: environment and chan :: channel_publish and tr :: string
proof unfold_locales
  fix p v b e b'
  assume "rpc_publisher env chan tr p v b = (Some e, b')"
  then show "handed_keys b' = handed_keys b" by (auto dest: rpc_publisher_handed)
next
  fix p v b b'
  assume "rpc_publisher env chan tr p v b = (None, b')"
  then show "handed_keys b' = handed_keys b \<or> handed_keys b' = handed_keys b @ [p]"
    by (auto dest: rpc_publisher_handed)
next
  fix p v b
  show "fst (rpc_publisher env chan tr p v b) = None" by (simp add: rpc_publisher_def)
qed

end
