(* ===== verification/Outbox_Lifecycle.thy ===== *)
theory Outbox_Lifecycle
  imports Outbox
begin

section \<open>The dispatcher's timer as a state machine\<close>

text \<open>
  \<open>OutboxDispatcher.onModuleInit\<close>, \<open>onModuleDestroy\<close> and \<open>schedule\<close>
  (\<open>outbox.service.ts\<close>), and how they interleave with sweeps in flight. A step of the machine is
  one turn of the event loop: the module hooks, the timer firing, another caller calling the public
  \<open>sweep\<close>, and the end of a sweep, whose \<open>finally\<close> resets \<open>running\<close> and, for the timer's
  own sweep, schedules the next one.
\<close>

definition schedule :: "dispatcher \<Rightarrow> dispatcher" where
  "schedule dp = (if dp_shuttingDown dp then dp else dp\<lparr>dp_timer := True\<rparr>)"

definition on_module_init :: "driver \<Rightarrow> db \<Rightarrow> dispatcher \<Rightarrow> (exn + unit) \<times> dispatcher" where
  "on_module_init drv s dp =
     (case count_outbox drv s [StatusIs Failed] of
        Inl err \<Rightarrow> (Inl err, dp)
      | Inr stuck \<Rightarrow> (Inr (), schedule (dp\<lparr>dp_outboxFailed := stuck\<rparr>)))"

definition on_module_destroy :: "dispatcher \<Rightarrow> dispatcher" where
  "on_module_destroy dp = dp\<lparr>dp_shuttingDown := True, dp_timer := False\<rparr>"

definition new_dispatcher :: dispatcher where
  "new_dispatcher =
     \<lparr>dp_running = False, dp_timer = False, dp_shuttingDown = False, dp_outboxPending = 0,
      dp_outboxFailed = 0, dp_terminalFailures = []\<rparr>"

datatype sweep_origin = ByTimer | ByCaller

record lifecycle =
  lc_dp :: dispatcher
  lc_started :: bool
  lc_bodies :: "sweep_origin list"  \<comment> \<open>sweeps past their guard, not yet settled\<close>

datatype lifecycle_event =
  ModuleInit driver db | ModuleDestroy | TimerFires | CallerSweeps | SweepSettles sweep_origin

text \<open>The guard of \<open>sweep\<close>: its first two statements.\<close>

definition enter_sweep :: "sweep_origin \<Rightarrow> lifecycle \<Rightarrow> lifecycle" where
  "enter_sweep who l = l\<lparr>lc_dp := (lc_dp l)\<lparr>dp_running := True\<rparr>, lc_bodies := who # lc_bodies l\<rparr>"

inductive lifecycle_step :: "lifecycle \<Rightarrow> lifecycle_event \<Rightarrow> lifecycle \<Rightarrow> bool" where
  init: "\<not> lc_started l \<Longrightarrow> on_module_init drv s (lc_dp l) = (r, dp) \<Longrightarrow>
     lifecycle_step l (ModuleInit drv s) (l\<lparr>lc_dp := dp, lc_started := (r = Inr ())\<rparr>)"
| destroy: "lifecycle_step l ModuleDestroy (l\<lparr>lc_dp := on_module_destroy (lc_dp l)\<rparr>)"
| fire_skip: "dp_timer (lc_dp l) \<Longrightarrow> dp_running (lc_dp l) \<Longrightarrow>
     lifecycle_step l TimerFires (l\<lparr>lc_dp := schedule ((lc_dp l)\<lparr>dp_timer := False\<rparr>)\<rparr>)"
| fire: "dp_timer (lc_dp l) \<Longrightarrow> \<not> dp_running (lc_dp l) \<Longrightarrow>
     lifecycle_step l TimerFires
       (enter_sweep ByTimer (l\<lparr>lc_dp := (lc_dp l)\<lparr>dp_timer := False\<rparr>\<rparr>))"
| call_skip: "dp_running (lc_dp l) \<Longrightarrow> lifecycle_step l CallerSweeps l"
| call: "\<not> dp_running (lc_dp l) \<Longrightarrow> lifecycle_step l CallerSweeps (enter_sweep ByCaller l)"
| settle: "who \<in> set (lc_bodies l) \<Longrightarrow> dp = (lc_dp l)\<lparr>dp_running := False\<rparr> \<Longrightarrow>
     lifecycle_step l (SweepSettles who)
       (l\<lparr>lc_dp := (if who = ByTimer then schedule dp else dp),
          lc_bodies := remove1 who (lc_bodies l)\<rparr>)"

inductive_cases lifecycle_stepE: "lifecycle_step l e l'"
inductive_simps lifecycle_fires [simp]: "lifecycle_step l TimerFires l'"
inductive_simps lifecycle_called [simp]: "lifecycle_step l CallerSweeps l'"

definition lifecycle_init :: "lifecycle \<Rightarrow> bool" where
  "lifecycle_init l \<longleftrightarrow> l = \<lparr>lc_dp = new_dispatcher, lc_started = False, lc_bodies = []\<rparr>"

text \<open>
  At most one sweep is past its guard, exactly when \<open>running\<close> is set; the timer is armed only
  while no timer sweep is in flight and never after shutdown; and a started dispatcher that is not
  shutting down always has its next sweep coming.
\<close>

definition lifecycle_inv :: "lifecycle \<Rightarrow> bool" where
  "lifecycle_inv l \<longleftrightarrow>
     length (lc_bodies l) \<le> 1 \<and> (dp_running (lc_dp l) \<longleftrightarrow> lc_bodies l \<noteq> [])
     \<and> (dp_timer (lc_dp l) \<longrightarrow> lc_started l \<and> \<not> dp_shuttingDown (lc_dp l) \<and> ByTimer \<notin> set (lc_bodies l))
     \<and> (ByTimer \<in> set (lc_bodies l) \<longrightarrow> lc_started l)
     \<and> (lc_started l \<and> \<not> dp_shuttingDown (lc_dp l) \<longrightarrow>
          dp_timer (lc_dp l) \<or> ByTimer \<in> set (lc_bodies l))"

lemma schedule_simps [simp]:
  "dp_running (schedule dp) = dp_running dp"
  "dp_shuttingDown (schedule dp) = dp_shuttingDown dp"
  "dp_timer (schedule dp) = (\<not> dp_shuttingDown dp \<or> dp_timer dp)"
  by (simp_all add: schedule_def)

lemma on_module_init_effect:
  assumes "on_module_init drv s dp = (r, dp')"
  shows "dp_running dp' = dp_running dp" and "dp_shuttingDown dp' = dp_shuttingDown dp"
    and "dp_timer dp' = (if r = Inr () then \<not> dp_shuttingDown dp \<or> dp_timer dp else dp_timer dp)"
  using assms by (auto simp: on_module_init_def split: sum.splits)

lemma lifecycle_inv_step: "lifecycle_step l e l' \<Longrightarrow> lifecycle_inv l \<Longrightarrow> lifecycle_inv l'"
proof (induction rule: lifecycle_step.cases)
  case (init l drv s r dp)
  then show ?case
    by (auto simp: lifecycle_inv_def on_module_init_effect split: if_splits)
next
  case (settle who l dp)
  then have "lc_bodies l = [who]"
    by (cases "lc_bodies l") (auto simp: lifecycle_inv_def)
  with settle show ?case by (auto simp: lifecycle_inv_def)
qed (auto simp: lifecycle_inv_def on_module_destroy_def enter_sweep_def)

interpretation lc: invariant_system lifecycle_init lifecycle_step lifecycle_inv
proof unfold_locales
  show "lifecycle_init l \<Longrightarrow> lifecycle_inv l" for l
    by (simp add: lifecycle_init_def lifecycle_inv_def new_dispatcher_def)
qed (rule lifecycle_inv_step)

text \<open>Once the module is destroyed, no timer sweep starts any more.\<close>

definition stopped :: "lifecycle \<Rightarrow> bool" where
  "stopped l \<longleftrightarrow> dp_shuttingDown (lc_dp l) \<and> \<not> dp_timer (lc_dp l)"

lemma stopped_step: "lifecycle_step l e l' \<Longrightarrow> stopped l \<Longrightarrow> stopped l'"
  by (induction rule: lifecycle_step.cases)
    (auto simp: stopped_def on_module_destroy_def enter_sweep_def on_module_init_effect
      split: if_splits)

lemma destroy_stops: "lifecycle_step l ModuleDestroy l' \<Longrightarrow> stopped l'"
  by (auto elim: lifecycle_stepE simp: stopped_def on_module_destroy_def)

interpretation stop: invariant_system stopped lifecycle_step stopped
  by unfold_locales (auto intro: stopped_step)

lemma stopped_no_timer_sweep:
  "steps_along lifecycle_step l es l' \<Longrightarrow> stopped l \<Longrightarrow> TimerFires \<notin> set es"
proof (induction rule: steps_along.induct)
  case (along_cons s e s' es s'')
  then have "stopped s'" and "e \<noteq> TimerFires"
    using stopped_step [of s e s'] by (auto simp: stopped_def)
  with along_cons show ?case by simp
qed simp

subsection \<open>Staging\<close>

lemma staged_row_simps [simp]:
  "o_id (staged_row i t p) = i"
  "o_idempotencyKey (staged_row i t p) = st_idempotencyKey p"
  "o_status (staged_row i t p) = Pending"
  "o_pattern (staged_row i t p) = st_pattern p"
  "o_payload (staged_row i t p) = st_payload p"
  "o_attempts (staged_row i t p) = 0"
  by (simp_all add: staged_row_def new_outbox_event_def)

lemma revive_row_simps [simp]:
  "o_id (revive_row v e) = o_id e"
  "o_idempotencyKey (revive_row v e) = o_idempotencyKey e"
  by (simp_all add: revive_row_def)

lemma revive_row_wf: "row_wf e \<Longrightarrow> row_wf (revive_row v e)"
  by (auto simp: revive_row_def row_wf_def MAX_ATTEMPTS_def)

text \<open>
  What staging contributes to the caller's flush: a new pending row; or nothing; or, for a row that
  had given up, the same row pending again.
\<close>

lemma stage_outbox_cases:
  assumes "driver_ok drv" and "stage_outbox_event drv s now i p = Inr (row, created, cs)"
  obtains (new) "created" "row = staged_row i now p" "cs = [PutOutbox row]"
      "\<forall>e \<in> set (outbox s). o_idempotencyKey e \<noteq> st_idempotencyKey p"
  | (kept) "\<not> created" "row \<in> set (outbox s)" "o_status row \<noteq> Failed" "cs = []"
      "o_idempotencyKey row = st_idempotencyKey p"
  | (revived) e where "\<not> created" "e \<in> set (outbox s)" "o_status e = Failed"
      "o_idempotencyKey e = st_idempotencyKey p" "row = revive_row (st_payload p) e"
      "cs = [PutOutbox (touch_outbox now row)]"
proof (cases "find_outbox drv s [KeyIs (st_idempotencyKey p)]")
  case (Inl e)
  with assms(2) show ?thesis by (simp add: stage_outbox_event_def)
next
  case (Inr found)
  show ?thesis
  proof (cases found)
    case None
    with Inr assms find_outbox_None [OF assms(1), of s "[KeyIs (st_idempotencyKey p)]"] new
    show ?thesis by (fastforce simp: stage_outbox_event_def Let_def)
  next
    case (Some e)
    with Inr find_outbox_Some [OF assms(1), of s "[KeyIs (st_idempotencyKey p)]" e]
    have e: "e \<in> set (outbox s)" "o_idempotencyKey e = st_idempotencyKey p" by auto
    from Inr Some assms(2) have res: "row = revive_row (st_payload p) e" "\<not> created"
      "cs = save_outbox now e row"
      by (auto simp: stage_outbox_event_def Let_def)
    show ?thesis
    proof (cases "o_status e = Failed")
      case True
      then have "o_status row = Pending" using res(1) by (simp add: revive_row_def)
      with True have "row \<noteq> e" by auto
      with res e True revived show ?thesis by (auto simp: save_outbox_def)
    next
      case False
      with res e kept show ?thesis by (auto simp: save_outbox_def revive_row_def)
    qed
  qed
qed

lemma stage_row_wf:
  assumes "driver_ok drv" and "outbox_wf s"
    and "stage_outbox_event drv s now i p = Inr (row, created, cs)" and "PutOutbox e \<in> set cs"
  shows "row_wf e"
  using assms(1,3)
  by (cases rule: stage_outbox_cases)
    (use assms(2,4) in \<open>auto simp: outbox_wf_def revive_row_wf row_wf_def [of "staged_row i now p"]
      MAX_ATTEMPTS_def\<close>)

lemma stage_changes_outbox_only:
  assumes "driver_ok drv" and "stage_outbox_event drv s now i p = Inr (row, created, cs)"
    and "c \<in> set cs"
  shows "\<exists>e. c = PutOutbox e \<and> o_idempotencyKey e = st_idempotencyKey p"
  using assms(1,2) by (cases rule: stage_outbox_cases) (use assms(3) in auto)

lemma stage_cases_frame:
  assumes "driver_ok drv" and "stage_outbox_event drv s now i p = Inr (row, created, cs)"
    and "s' = apply_changes cs t"
  shows "users s' = users t"
  using assms(1,2) by (cases rule: stage_outbox_cases) (use assms(3) in auto)

end
