(* ===== verification/Email_Service.thy ===== *)
theory Email_Service
  imports Env_Config
begin

section \<open>Outbound e-mail\<close>

text \<open>
  \<open>apps/user/src/modules/email/email.service.ts\<close>. The SMTP transport is a parameter: the
  exception that handing it a message raises, if any. The state is the list of messages it took.
\<close>

record smtp_config =
  smtp_host :: string
  smtp_port :: int
  smtp_secure :: bool
  smtp_auth :: "(string \<times> string) option"

record email_service =
  em_fromAddr :: string
  em_transporter :: "smtp_config option"
  em_usingStub :: bool

record email_message =
  ml_from :: string
  ml_to :: string
  ml_subject :: string
  ml_text :: string
  ml_tag :: "string option"

type_synonym smtp = "email_message \<Rightarrow> exn option"

text \<open>The constructor.\<close>

definition new_email_service ::
  "(string \<Rightarrow> js_number) \<Rightarrow> (int \<Rightarrow> string) \<Rightarrow> environment \<Rightarrow> exn + email_service" where
  "new_email_service number_of show_int env =
     (let fromAddr = optional_env env ''EMAIL_FROM'' ''noreply@example.com'';
          host = optional_env env ''SMTP_HOST'' [] in
      if host = []
      then Inr \<lparr>em_fromAddr = fromAddr, em_transporter = None, em_usingStub = True\<rparr>
      else
        case require_env_int number_of show_int env ''SMTP_PORT'' (Some 1) (Some 65535) of
          Inl e \<Rightarrow> Inl e
        | Inr port \<Rightarrow>
            let secureOverride = js_lower (optional_env env ''SMTP_SECURE'' []);
                secure = (if secureOverride = ''true'' then True
                          else if secureOverride = ''false'' then False
                          else port = 465);
                user = optional_env env ''SMTP_USER'' []
            in case (if user \<noteq> [] then require_env env ''SMTP_PASSWORD'' else Inr []) of
                 Inl e \<Rightarrow> Inl e
               | Inr pass \<Rightarrow>
                   Inr \<lparr>em_fromAddr = fromAddr,
                        em_transporter =
                          Some \<lparr>smtp_host = host, smtp_port = port, smtp_secure = secure,
                                smtp_auth = (if user \<noteq> [] then Some (user, pass) else None)\<rparr>,
                        em_usingStub = False\<rparr>)"

text \<open>\<open>send\<close>: the exception that escapes (never one), and the messages the transport took.\<close>

definition send_email ::
  "smtp \<Rightarrow> email_service \<Rightarrow> string \<Rightarrow> string \<Rightarrow> string \<Rightarrow> string option \<Rightarrow> email_message list
     \<Rightarrow> exn option \<times> email_message list" where
  "send_email smtp svc rcpt subject bodyText tag mails =
     (if em_usingStub svc \<or> em_transporter svc = None then (None, mails)
      else
        let m = \<lparr>ml_from = em_fromAddr svc, ml_to = rcpt, ml_subject = subject,
                 ml_text = bodyText, ml_tag = tag\<rparr>
        in case smtp m of
             None \<Rightarrow> (None, mails @ [m])
           | Some err \<Rightarrow> (None, mails))"

subsection \<open>\<open>encodeURIComponent\<close>, on code units below 256\<close>

definition uri_unreserved :: "char \<Rightarrow> bool" where
  "uri_unreserved c \<longleftrightarrow>
     (let n = (of_char c :: nat)
      in 48 \<le> n \<and> n \<le> 57 \<or> 65 \<le> n \<and> n \<le> 90 \<or> 97 \<le> n \<and> n \<le> 122
         \<or> c \<in> set ''-_.!~*()'' \<or> n = 39)"

definition percent_byte :: "nat \<Rightarrow> string" where
  "percent_byte n = [CHR ''%'', ''0123456789ABCDEF'' ! (n div 16 mod 16), ''0123456789ABCDEF'' ! (n mod 16)]"

definition encode_uri_char :: "char \<Rightarrow> string" where
  "encode_uri_char c =
     (let n = (of_char c :: nat) in
      if uri_unreserved c then [c]
      else if n < 128 then percent_byte n
      else percent_byte (192 + n div 64) @ percent_byte (128 + n mod 64))"

text \<open>A reset token is hexadecimal, for which \<open>encodeURIComponent\<close> does not throw; \<open>encode_uri\<close> in \<open>OAuth\<close> has the other case.\<close>

definition encode_uri_component :: "string \<Rightarrow> string" where
  "encode_uri_component s = concat (map encode_uri_char s)"

definition reset_body :: "environment \<Rightarrow> string \<Rightarrow> string" where
  "reset_body env token =
     ''To reset your password, follow this link:'' @ [CHR 0x0A, CHR 0x0A]
     @ optional_env env ''PASSWORD_RESET_URL'' ''https://example.com/reset''
     @ ''?token='' @ encode_uri_component token @ [CHR 0x0A, CHR 0x0A]
     @ ''The link is valid for one hour. If you didn'' @ [CHR 0x27] @ ''t request this, ignore this email.''"

definition send_password_reset ::
  "smtp \<Rightarrow> environment \<Rightarrow> email_service \<Rightarrow> string \<Rightarrow> string \<Rightarrow> email_message list
     \<Rightarrow> exn option \<times> email_message list" where
  "send_password_reset smtp env svc rcpt token mails =
     send_email smtp svc rcpt ''Password reset'' (reset_body env token) (Some ''password_reset'') mails"

lemma send_email_never_throws [simp]: "fst (send_email smtp svc t s b tag mails) = None"
  by (simp add: send_email_def Let_def split: option.splits)

lemma send_password_reset_never_throws [simp]:
  "fst (send_password_reset smtp env svc t tok mails) = None"
  by (simp add: send_password_reset_def)

lemma send_password_reset_mails:
  "send_password_reset smtp env svc t tok mails = (r, mails') \<Longrightarrow>
     mails' = mails \<or> (\<exists>m. mails' = mails @ [m] \<and> ml_to m = t \<and> ml_text m = reset_body env tok)"
  by (auto simp: send_password_reset_def send_email_def Let_def split: if_splits option.splits)

lemma encode_uri_component_unreserved:
  "list_all uri_unreserved s \<Longrightarrow> encode_uri_component s = s"
  by (induction s) (auto simp: encode_uri_component_def encode_uri_char_def)

end
