(* ===== verification/Users_Service.thy ===== *)
theory Users_Service
  imports Outbox_Lifecycle Email_Service
begin

section \<open>The user service\<close>

text \<open>
  \<open>apps/user/src/modules/users/users.service.ts\<close>, one definition per method, in its order. A
  method takes the database and returns its result (or the exception it throws) with the database
  it leaves; the entity manager of the request is local to the call, so an exception before a flush
  leaves nothing behind. What the method draws from its surroundings in one call is the record
  \<open>call_env\<close>: the clock (one reading per call), the object ids and the random bytes it
  generates, and the functions of the libraries (\<open>crypto\<close>, \<open>argon2\<close>, BSON's
  \<open>ObjectId\<close>, which normalises or refuses a string).
\<close>

record call_env =
  ce_now :: millis
  ce_userId :: oid
  ce_deviceId :: oid
  ce_outboxId :: oid
  ce_randomToken :: string  \<comment> \<open>\<open>crypto.randomBytes(32).toString('hex')\<close>\<close>
  sha256_hex :: "string \<Rightarrow> string"
  argon2_hash :: "string \<Rightarrow> exn + string"
  argon2_verify :: "string \<Rightarrow> string \<Rightarrow> exn + bool"
  to_object_id :: "string \<Rightarrow> exn + oid"

record autoreg_payload =
  ap_fingerprint :: string
  ap_platform :: "platform option"
  ap_ipHash :: "string option"

record oauth_payload =
  op_provider :: string
  op_providerUserId :: string
  op_email :: "string option"
  op_emailVerified :: bool
  op_name :: "string option"

datatype upgrade_method = ByEmail | ByProvider string

record upgrade_payload =
  up_method :: upgrade_method
  up_email :: "string option"
  up_password :: "string option"
  up_name :: "string option"
  up_providerUserId :: "string option"

text \<open>A field of \<open>UpdateUserInput\<close> that may be absent, \<open>null\<close> or a value.\<close>

datatype 'a patch = Absent | SetNull | SetTo 'a

record update_user_input =
  ui_name :: "string patch"
  ui_tz :: "string option"
  ui_locale :: "user_locale option"
  ui_avatarUrl :: "string patch"
  ui_onboardingCompleted :: "bool option"

record grant =
  g_id :: oid
  g_accountType :: account_type
  g_tokenVersion :: nat

record autoreg_result =
  ar_id :: oid
  ar_deviceRecordId :: oid
  ar_tokenVersion :: nat

record user_dto =
  dto_id :: oid
  dto_accountType :: account_type
  dto_email :: "string option"
  dto_name :: string
  dto_tz :: string
  dto_locale :: user_locale
  dto_avatarUrl :: "string option"
  dto_onboardingCompleted :: bool
  dto_createdAt :: millis
  dto_updatedAt :: millis

definition DUMMY_ARGON2_HASH :: string where
  "DUMMY_ARGON2_HASH =
     ''$argon2id$v=19$m=65536,t=3,p=4$B1s61iTQ08nOuxDcmd0vuA$rmWDDrZq9l6brSGdOr5p34voo0slFj31ajurPq49ETI''"

definition hash_reset_token :: "call_env \<Rightarrow> string \<Rightarrow> string" where
  "hash_reset_token ce token = sha256_hex ce token"

definition email_taken :: exn where
  "email_taken = microservice_exn 409 ''EMAIL_EXISTS'' ''Email already registered'' JUndef"

definition device_blocked :: "device \<Rightarrow> exn" where
  "device_blocked d =
     microservice_exn 403 ''device_blocked'' ''This device is blocked''
       (JObj [(''reason'', JStr (nullish (d_blockedReason d) ''policy_violation''))])"

definition invalid_credentials :: exn where
  "invalid_credentials = microservice_exn 401 TOKEN_INVALID ''Invalid credentials'' JUndef"

definition invalid_reset_token :: exn where
  "invalid_reset_token = microservice_exn 401 TOKEN_INVALID ''Invalid or expired reset token'' JUndef"

definition oauth_collision :: "oid \<Rightarrow> exn" where
  "oauth_collision i =
     microservice_exn 409 ''oauth_collision'' ''OAuth identity already linked to another account''
       (JObj [(''conflictingUserId'', JStr i)])"

definition user_not_found :: exn where
  "user_not_found = exn_not_found ''User not found''"

subsection \<open>\<open>createAutoregUser\<close>\<close>

definition seen_device :: "call_env \<Rightarrow> autoreg_payload \<Rightarrow> device \<Rightarrow> device" where
  "seen_device ce p d =
     (let d' = d\<lparr>d_lastSeenAt := ce_now ce\<rparr>
      in if truthy (ap_ipHash p) then d'\<lparr>d_lastIpHash := ap_ipHash p\<rparr> else d')"

definition autoreg_device :: "call_env \<Rightarrow> autoreg_payload \<Rightarrow> device" where
  "autoreg_device ce p =
     (new_device (ce_deviceId ce) (ce_now ce) (ap_fingerprint p) (ce_userId ce))\<lparr>
        d_platform := nullish (ap_platform p) Android, d_lastIpHash := ap_ipHash p\<rparr>"

text \<open>The tail of the method: a fresh anonymous account and its device.\<close>

definition create_fresh_autoreg ::
  "driver \<Rightarrow> call_env \<Rightarrow> autoreg_payload \<Rightarrow> db \<Rightarrow> (exn + autoreg_result) \<times> db" where
  "create_fresh_autoreg drv ce p s =
     (case flush drv [PutUser (new_user (ce_userId ce) (ce_now ce)), PutDevice (autoreg_device ce p)] s of
        (Inl e, s') \<Rightarrow> (Inl e, s')
      | (Inr (), s') \<Rightarrow>
          (Inr \<lparr>ar_id = ce_userId ce, ar_deviceRecordId = ce_deviceId ce, ar_tokenVersion = 0\<rparr>, s'))"

definition create_autoreg_user ::
  "driver \<Rightarrow> call_env \<Rightarrow> autoreg_payload \<Rightarrow> db \<Rightarrow> (exn + autoreg_result) \<times> db" where
  "create_autoreg_user drv ce p s =
     (case find_device drv s [FingerprintIs (ap_fingerprint p)] of
        Inl e \<Rightarrow> (Inl e, s)
      | Inr None \<Rightarrow> create_fresh_autoreg drv ce p s
      | Inr (Some existing) \<Rightarrow>
          if d_isBlocked existing then (Inl (device_blocked existing), s)
          else
            (case find_user drv s [UserIdIs (d_userId existing)] of
               Inl e \<Rightarrow> (Inl e, s)
             | Inr linkedUser \<Rightarrow>
                 if linkedUser = None \<or> u_accountType (the linkedUser) \<noteq> Autoreg
                 then
                   (case delete_devices drv [DeviceIdIs (d_id existing)] s of
                      (Inl e, s') \<Rightarrow> (Inl e, s')
                    | (Inr (), s') \<Rightarrow> create_fresh_autoreg drv ce p s')
                 else
                   (case flush drv (save_device (ce_now ce) existing (seen_device ce p existing)) s of
                      (Inl e, s') \<Rightarrow> (Inl e, s')
                    | (Inr (), s') \<Rightarrow>
                        (Inr \<lparr>ar_id = d_userId existing, ar_deviceRecordId = d_id existing,
                              ar_tokenVersion = token_version (the linkedUser)\<rparr>, s'))))"

subsection \<open>\<open>login\<close>\<close>

definition grant_of :: "user \<Rightarrow> grant" where
  "grant_of u = \<lparr>g_id = u_id u, g_accountType = u_accountType u, g_tokenVersion = token_version u\<rparr>"

definition login :: "driver \<Rightarrow> call_env \<Rightarrow> string \<Rightarrow> string \<Rightarrow> db \<Rightarrow> exn + grant" where
  "login drv ce email password s =
     (case find_user drv s [EmailIs email, NotDeleted] of
        Inl e \<Rightarrow> Inl e
      | Inr found \<Rightarrow>
          let stored = (case found of None \<Rightarrow> None | Some u \<Rightarrow> u_passwordHash u);
              passwordHash = nullish stored DUMMY_ARGON2_HASH;
              valid = (case argon2_verify ce passwordHash password of Inr b \<Rightarrow> b | Inl err \<Rightarrow> False)
          in case found of
               None \<Rightarrow> Inl invalid_credentials
             | Some u \<Rightarrow>
                 if \<not> truthy (u_passwordHash u) \<or> \<not> valid then Inl invalid_credentials
                 else Inr (grant_of u))"

subsection \<open>\<open>findById\<close>\<close>

definition find_by_id :: "driver \<Rightarrow> call_env \<Rightarrow> string \<Rightarrow> db \<Rightarrow> exn + user" where
  "find_by_id drv ce userId s =
     (case to_object_id ce userId of
        Inl e \<Rightarrow> Inl e
      | Inr i \<Rightarrow>
          (case find_user drv s [UserIdIs i] of
             Inl e \<Rightarrow> Inl e
           | Inr None \<Rightarrow> Inl user_not_found
           | Inr (Some u) \<Rightarrow> if u_deletedAt u \<noteq> None then Inl user_not_found else Inr u))"

subsection \<open>\<open>upgradeAccount\<close>\<close>

definition oauth_link_now :: "call_env \<Rightarrow> string \<Rightarrow> string \<Rightarrow> string option \<Rightarrow> oauth_link" where
  "oauth_link_now ce provider providerUserId email =
     \<lparr>l_provider = provider, l_providerUserId = providerUserId, l_email = email,
      l_linkedAt = ce_now ce\<rparr>"

text \<open>The two branches that attach an identity to the loaded user.\<close>

definition attach_email ::
  "driver \<Rightarrow> call_env \<Rightarrow> string \<Rightarrow> upgrade_payload \<Rightarrow> db \<Rightarrow> user \<Rightarrow> exn + user" where
  "attach_email drv ce userId p s user =
     (if \<not> truthy (up_email p) \<or> \<not> truthy (up_password p)
      then Inl (exn_bad_request ''Email and password required'')
      else
        case find_user drv s [EmailIs (the (up_email p))] of
          Inl e \<Rightarrow> Inl e
        | Inr existing \<Rightarrow>
            if existing \<noteq> None \<and> u_id (the existing) \<noteq> userId then Inl email_taken
            else
              (case argon2_hash ce (the (up_password p)) of
                 Inl e \<Rightarrow> Inl e
               | Inr h \<Rightarrow> Inr (user\<lparr>u_email := up_email p, u_passwordHash := Some h\<rparr>)))"

definition attach_provider ::
  "driver \<Rightarrow> call_env \<Rightarrow> string \<Rightarrow> string \<Rightarrow> upgrade_payload \<Rightarrow> db \<Rightarrow> user \<Rightarrow> exn + user" where
  "attach_provider drv ce userId provider p s user =
     (if \<not> truthy (up_providerUserId p)
      then Inl (exn_bad_request ''providerUserId required for OAuth upgrade'')
      else
        case find_user drv s [LinkIs provider (the (up_providerUserId p))] of
          Inl e \<Rightarrow> Inl e
        | Inr clash \<Rightarrow>
            if clash \<noteq> None \<and> u_id (the clash) \<noteq> userId then Inl (oauth_collision (u_id (the clash)))
            else
              Inr (user\<lparr>u_email := or_else (up_email p) (u_email user),
                        u_oauthLinks := u_oauthLinks user
                          @ [oauth_link_now ce provider (the (up_providerUserId p)) (up_email p)]\<rparr>))"

definition attach_identity ::
  "driver \<Rightarrow> call_env \<Rightarrow> string \<Rightarrow> upgrade_payload \<Rightarrow> db \<Rightarrow> user \<Rightarrow> exn + user" where
  "attach_identity drv ce userId p s user =
     (case up_method p of
        ByEmail \<Rightarrow> attach_email drv ce userId p s user
      | ByProvider provider \<Rightarrow> attach_provider drv ce userId provider p s user)"

definition registered_now :: "call_env \<Rightarrow> upgrade_payload \<Rightarrow> user \<Rightarrow> user" where
  "registered_now ce p u =
     bump_token_version
       ((if truthy (up_name p) then u\<lparr>u_name := up_name p\<rparr> else u)\<lparr>
          u_accountType := Registered, u_upgradedAt := Some (ce_now ce)\<rparr>)"

definition upgrade_account ::
  "driver \<Rightarrow> call_env \<Rightarrow> string \<Rightarrow> upgrade_payload \<Rightarrow> db \<Rightarrow> (exn + user) \<times> db" where
  "upgrade_account drv ce userId p s =
     (case find_by_id drv ce userId s of
        Inl e \<Rightarrow> (Inl e, s)
      | Inr user \<Rightarrow>
          if u_accountType user \<noteq> Autoreg then (Inl (exn_conflict ''Account already upgraded''), s)
          else
            (case attach_identity drv ce userId p s user of
               Inl e \<Rightarrow> (Inl e, s)
             | Inr attached \<Rightarrow>
                 let user' = touch_user (ce_now ce) (registered_now ce p attached) in
                 (case flush drv [PutUser user'] s of
                    (Inl err, s') \<Rightarrow>
                      (Inl (if is_duplicate_key_error err (Some ''email'') then email_taken else err), s')
                  | (Inr (), s') \<Rightarrow>
                      (case delete_devices drv [DeviceUserIs (u_id user)] s' of
                         (Inl e, s'') \<Rightarrow> (Inl e, s'')
                       | (Inr (), s'') \<Rightarrow> (Inr user', s'')))))"

subsection \<open>\<open>findOrCreateOAuthUser\<close>\<close>

definition new_oauth_user :: "call_env \<Rightarrow> oauth_payload \<Rightarrow> user" where
  "new_oauth_user ce p =
     (new_user (ce_userId ce) (ce_now ce))\<lparr>
        u_accountType := Registered, u_email := op_email p, u_name := op_name p,
        u_oauthLinks := [oauth_link_now ce (op_provider p) (op_providerUserId p) (op_email p)]\<rparr>"

definition create_oauth_user ::
  "driver \<Rightarrow> call_env \<Rightarrow> oauth_payload \<Rightarrow> db \<Rightarrow> (exn + grant) \<times> db" where
  "create_oauth_user drv ce p s =
     (let user = new_oauth_user ce p in
      case flush drv [PutUser user] s of
        (Inl err, s') \<Rightarrow>
          (Inl (if is_duplicate_key_error err (Some ''email'') then email_taken else err), s')
      | (Inr (), s') \<Rightarrow> (Inr (grant_of user), s'))"

definition merge_oauth_link :: "call_env \<Rightarrow> oauth_payload \<Rightarrow> user \<Rightarrow> user" where
  "merge_oauth_link ce p u =
     u\<lparr>u_oauthLinks := u_oauthLinks u
        @ [oauth_link_now ce (op_provider p) (op_providerUserId p) (op_email p)]\<rparr>"

definition find_or_create_oauth_user ::
  "driver \<Rightarrow> call_env \<Rightarrow> oauth_payload \<Rightarrow> db \<Rightarrow> (exn + grant) \<times> db" where
  "find_or_create_oauth_user drv ce p s =
     (case find_user drv s [LinkIs (op_provider p) (op_providerUserId p), NotDeleted] of
        Inl e \<Rightarrow> (Inl e, s)
      | Inr (Some byProvider) \<Rightarrow> (Inr (grant_of byProvider), s)
      | Inr None \<Rightarrow>
          if truthy (op_email p) \<and> op_emailVerified p
          then
            (case find_user drv s [EmailIs (the (op_email p)), NotDeleted] of
               Inl e \<Rightarrow> (Inl e, s)
             | Inr (Some byEmail) \<Rightarrow>
                 (case flush drv (save_user (ce_now ce) byEmail (merge_oauth_link ce p byEmail)) s of
                    (Inl e, s') \<Rightarrow> (Inl e, s')
                  | (Inr (), s') \<Rightarrow> (Inr (grant_of byEmail), s'))
             | Inr None \<Rightarrow> create_oauth_user drv ce p s)
          else create_oauth_user drv ce p s)"

subsection \<open>\<open>forgotPassword\<close> and \<open>resetPassword\<close>\<close>

definition reset_ttl :: millis where
  "reset_ttl = 60 * 60 * 1000"

definition with_reset_token :: "call_env \<Rightarrow> user \<Rightarrow> user" where
  "with_reset_token ce u =
     u\<lparr>u_resetPasswordToken := Some (hash_reset_token ce (ce_randomToken ce)),
       u_resetPasswordExpiry := Some (ce_now ce + reset_ttl)\<rparr>"

text \<open>
  The e-mail dispatch is the parameter \<open>mail\<close>: the exception it throws, if any, and the mail
  state. The result of the method is always \<open>{success: true}\<close> when it returns.
\<close>

definition forgot_password ::
  "driver \<Rightarrow> call_env \<Rightarrow> (string \<Rightarrow> string \<Rightarrow> 'm \<Rightarrow> exn option \<times> 'm) \<Rightarrow> string \<Rightarrow> db \<Rightarrow> 'm
     \<Rightarrow> (exn + unit) \<times> db \<times> 'm" where
  "forgot_password drv ce mail email s m =
     (case find_user drv s [EmailIs email, NotDeleted] of
        Inl e \<Rightarrow> (Inl e, s, m)
      | Inr None \<Rightarrow> (Inr (), s, m)
      | Inr (Some user) \<Rightarrow>
          (case flush drv (save_user (ce_now ce) user (with_reset_token ce user)) s of
             (Inl e, s') \<Rightarrow> (Inl e, s', m)
           | (Inr (), s') \<Rightarrow>
               (case mail email (ce_randomToken ce) m of
                  (None, m') \<Rightarrow> (Inr (), s', m')
                | (Some err, m') \<Rightarrow> (Inr (), s', m'))))"

definition with_new_password :: "string \<Rightarrow> user \<Rightarrow> user" where
  "with_new_password h u =
     bump_token_version
       (u\<lparr>u_passwordHash := Some h, u_resetPasswordToken := None, u_resetPasswordExpiry := None\<rparr>)"

definition reset_password ::
  "driver \<Rightarrow> call_env \<Rightarrow> string \<Rightarrow> string \<Rightarrow> db \<Rightarrow> (exn + unit) \<times> db" where
  "reset_password drv ce token newPassword s =
     (case find_user drv s [ResetTokenIs (hash_reset_token ce token), NotDeleted] of
        Inl e \<Rightarrow> (Inl e, s)
      | Inr None \<Rightarrow> (Inl invalid_reset_token, s)
      | Inr (Some user) \<Rightarrow>
          if u_resetPasswordExpiry user = None \<or> the (u_resetPasswordExpiry user) < ce_now ce
          then (Inl invalid_reset_token, s)
          else
            (case argon2_hash ce newPassword of
               Inl e \<Rightarrow> (Inl e, s)
             | Inr h \<Rightarrow> flush drv (save_user (ce_now ce) user (with_new_password h user)) s))"

subsection \<open>\<open>updateUser\<close>, \<open>deleteUser\<close> and the DTO\<close>

definition to_dto :: "user \<Rightarrow> user_dto" where
  "to_dto u =
     \<lparr>dto_id = u_id u, dto_accountType = u_accountType u, dto_email = u_email u,
      dto_name = nullish (u_name u) [], dto_tz = u_tz u, dto_locale = u_locale u,
      dto_avatarUrl = u_avatarUrl u, dto_onboardingCompleted = nullish (u_onboardingCompleted u) False,
      dto_createdAt = u_createdAt u, dto_updatedAt = u_updatedAt u\<rparr>"

fun patched :: "'a patch \<Rightarrow> 'a option \<Rightarrow> 'a option" where
  "patched Absent old = old"
| "patched SetNull old = None"
| "patched (SetTo v) old = Some v"

definition apply_update :: "update_user_input \<Rightarrow> user \<Rightarrow> user" where
  "apply_update d u =
     u\<lparr>u_name := patched (ui_name d) (u_name u),
       u_tz := nullish (ui_tz d) (u_tz u),
       u_locale := nullish (ui_locale d) (u_locale u),
       u_avatarUrl := patched (ui_avatarUrl d) (u_avatarUrl u),
       u_onboardingCompleted := or_else (ui_onboardingCompleted d) (u_onboardingCompleted u)\<rparr>"

text \<open>The managed entity after a flush carries the new \<open>updatedAt\<close> when it was written.\<close>

definition flushed_user :: "millis \<Rightarrow> user \<Rightarrow> user \<Rightarrow> user" where
  "flushed_user now old new = (if new = old then old else touch_user now new)"

definition update_user ::
  "driver \<Rightarrow> call_env \<Rightarrow> string \<Rightarrow> update_user_input \<Rightarrow> db \<Rightarrow> (exn + user_dto) \<times> db" where
  "update_user drv ce userId d s =
     (case find_by_id drv ce userId s of
        Inl e \<Rightarrow> (Inl e, s)
      | Inr user \<Rightarrow>
          let user' = apply_update d user in
          (case flush drv (save_user (ce_now ce) user user') s of
             (Inl e, s') \<Rightarrow> (Inl e, s')
           | (Inr (), s') \<Rightarrow> (Inr (to_dto (flushed_user (ce_now ce) user user')), s')))"

definition deleted_user :: "millis \<Rightarrow> user \<Rightarrow> user" where
  "deleted_user now u =
     bump_token_version
       (u\<lparr>u_deletedAt := Some now, u_email := None, u_passwordHash := None,
          u_resetPasswordToken := None, u_resetPasswordExpiry := None\<rparr>)"

definition user_deleted_stage :: "oid \<Rightarrow> stage_params" where
  "user_deleted_stage i =
     \<lparr>st_target = ''user'', st_pattern = ''user.deleted'',
      st_payload = JObj [(''userId'', JStr i)], st_idempotencyKey = ''user.deleted:'' @ i\<rparr>"

definition delete_user :: "driver \<Rightarrow> call_env \<Rightarrow> string \<Rightarrow> db \<Rightarrow> (exn + unit) \<times> db" where
  "delete_user drv ce userId s =
     (case find_by_id drv ce userId s of
        Inl e \<Rightarrow> (Inl e, s)
      | Inr user \<Rightarrow>
          (case stage_outbox_event drv s (ce_now ce) (ce_outboxId ce) (user_deleted_stage (u_id user)) of
             Inl e \<Rightarrow> (Inl e, s)
           | Inr (row, created, staged) \<Rightarrow>
               flush drv (save_user (ce_now ce) user (deleted_user (ce_now ce) user) @ staged) s))"

end
