(* ===== verification/Users_Invariants.thy ===== *)
theory Users_Invariants
  imports Users_Service
begin

section \<open>What every method of the user service keeps\<close>

text \<open>
  For each method: how it ends up writing (\<open>*_writes\<close>, an elimination rule that lists the
  flushes it can do), and from it the three invariants of the collections (well-formed accounts and
  unique indexes, \<open>db_wf\<close>; rows of the outbox, \<open>outbox_wf\<close>; one live account per provider
  identity, \<open>links_unique\<close>) and the evolution of accounts (\<open>evolves\<close>: token versions never go
  back, the account type changes only together with a bump, and a deleted account is frozen).
\<close>

definition live :: "user \<Rightarrow> bool" where
  "live u \<longleftrightarrow> u_deletedAt u = None"

definition has_link :: "user \<Rightarrow> string \<Rightarrow> string \<Rightarrow> bool" where
  "has_link u p i \<longleftrightarrow> (\<exists>l \<in> set (u_oauthLinks u). l_provider l = p \<and> l_providerUserId l = i)"

definition links_unique :: "db \<Rightarrow> bool" where
  "links_unique s \<longleftrightarrow>
     (\<forall>u \<in> set (users s). \<forall>v \<in> set (users s). \<forall>p i.
        live u \<longrightarrow> live v \<longrightarrow> has_link u p i \<longrightarrow> has_link v p i \<longrightarrow> u_id u = u_id v)"

definition advances :: "user \<Rightarrow> user \<Rightarrow> bool" where
  "advances u u' \<longleftrightarrow>
     u_id u' = u_id u \<and> token_version u \<le> token_version u'
     \<and> (token_version u' = token_version u \<longrightarrow>
          u_accountType u' = u_accountType u \<and> u_deletedAt u' = u_deletedAt u)
     \<and> (\<not> live u \<longrightarrow> u' = u)"

definition evolves :: "db \<Rightarrow> db \<Rightarrow> bool" where
  "evolves s s' \<longleftrightarrow> (\<forall>u \<in> set (users s). \<exists>u' \<in> set (users s'). advances u u')"

lemma advances_refl [simp]: "advances u u"
  by (simp add: advances_def)

lemma advances_trans: "advances u v \<Longrightarrow> advances v w \<Longrightarrow> advances u w"
  by (auto simp: advances_def live_def)

lemma evolves_refl [simp]: "evolves s s"
  by (auto simp: evolves_def intro: advances_refl)

lemma evolves_trans: "evolves s t \<Longrightarrow> evolves t v \<Longrightarrow> evolves s v"
  unfolding evolves_def by (meson advances_trans)

lemma evolves_same_users: "users s' = users s \<Longrightarrow> evolves s s'"
  by (auto simp: evolves_def intro: advances_refl)

lemma flush_evolves:
  assumes "driver_ok drv" and "flush drv cs s = (r, s')"
    and "\<And>x u. PutUser x \<in> set cs \<Longrightarrow> u \<in> set (users s) \<Longrightarrow> u_id u = u_id x \<Longrightarrow> advances u x"
  shows "evolves s s'"
proof (rule flush_preserves [OF assms(1,2), of "evolves s"])
  fix c and t :: db
  assume c: "c \<in> set cs" and ev: "evolves s t"
  show "evolves s (apply_change c t)"
  proof (cases c)
    case (PutUser x)
    show ?thesis
      unfolding evolves_def
    proof
      fix u
      assume u: "u \<in> set (users s)"
      with ev obtain u' where u': "u' \<in> set (users t)" "advances u u'"
        by (auto simp: evolves_def)
      show "\<exists>u' \<in> set (users (apply_change c t)). advances u u'"
      proof (cases "u_id u = u_id x")
        case True
        with assms(3) [of x u] c u PutUser show ?thesis by auto
      next
        case False
        with u' PutUser show ?thesis by (auto simp: advances_def)
      qed
    qed
  qed (use ev in \<open>simp_all add: evolves_def\<close>)
qed simp

text \<open>Two of the invariants at once, through a flush of well-formed changes.\<close>

lemma flush_links:
  assumes "driver_ok drv" and "flush drv cs s = (r, s')" and "links_unique s"
    and "\<And>x v p i. PutUser x \<in> set cs \<Longrightarrow> v \<in> set (users s) \<or> PutUser v \<in> set cs \<Longrightarrow>
           live x \<Longrightarrow> live v \<Longrightarrow> has_link x p i \<Longrightarrow> has_link v p i \<Longrightarrow> u_id x = u_id v"
  shows "links_unique s'"
proof -
  let ?P = "\<lambda>t. \<forall>v \<in> set (users t). v \<in> set (users s) \<or> PutUser v \<in> set cs"
  have "?P s'"
  proof (rule flush_preserves [OF assms(1,2), of ?P])
    fix c and t :: db
    assume c: "c \<in> set cs" and t: "?P t"
    show "?P (apply_change c t)"
    proof (cases c)
      case (PutUser x)
      have "v \<in> set (users s) \<or> PutUser v \<in> set cs" if "v \<in> set (users (apply_change c t))" for v
        using that c t PutUser by (cases "v = x") auto
      then show ?thesis by blast
    qed (use t in auto)
  qed simp
  with assms(3,4) show ?thesis
    unfolding links_unique_def by metis
qed

lemma user_cond_link: "user_matches (LinkIs p i) u \<longleftrightarrow> has_link u p i"
  by (simp add: has_link_def)

subsection \<open>Users as the methods rewrite them\<close>

lemma find_by_id_Inr:
  assumes "driver_ok drv" and "find_by_id drv ce userId s = Inr u"
  shows "u \<in> set (users s)" and "live u" and "to_object_id ce userId = Inr (u_id u)"
proof -
  from assms(2) obtain i where "to_object_id ce userId = Inr i"
    and "find_user drv s [UserIdIs i] = Inr (Some u)" and "u_deletedAt u = None"
    by (auto simp: find_by_id_def split: sum.splits option.splits if_splits)
  with find_user_Some [OF assms(1)] show "u \<in> set (users s)" and "live u"
    and "to_object_id ce userId = Inr (u_id u)"
    by (fastforce simp: live_def)+
qed

lemma registered_now_simps [simp]:
  "u_id (registered_now ce p u) = u_id u"
  "u_accountType (registered_now ce p u) = Registered"
  "u_email (registered_now ce p u) = u_email u"
  "u_passwordHash (registered_now ce p u) = u_passwordHash u"
  "u_oauthLinks (registered_now ce p u) = u_oauthLinks u"
  "u_resetPasswordToken (registered_now ce p u) = u_resetPasswordToken u"
  "u_resetPasswordExpiry (registered_now ce p u) = u_resetPasswordExpiry u"
  "u_deletedAt (registered_now ce p u) = u_deletedAt u"
  "token_version (registered_now ce p u) = Suc (token_version u)"
  by (simp_all add: registered_now_def token_version_def bump_token_version_def)

lemma deleted_user_simps [simp]:
  "u_id (deleted_user t u) = u_id u"
  "u_accountType (deleted_user t u) = u_accountType u"
  "u_email (deleted_user t u) = None"
  "u_passwordHash (deleted_user t u) = None"
  "u_resetPasswordToken (deleted_user t u) = None"
  "u_resetPasswordExpiry (deleted_user t u) = None"
  "u_oauthLinks (deleted_user t u) = u_oauthLinks u"
  "u_deletedAt (deleted_user t u) = Some t"
  "token_version (deleted_user t u) = Suc (token_version u)"
  by (simp_all add: deleted_user_def token_version_def bump_token_version_def)

lemma with_new_password_simps [simp]:
  "u_id (with_new_password h u) = u_id u"
  "u_accountType (with_new_password h u) = u_accountType u"
  "u_email (with_new_password h u) = u_email u"
  "u_passwordHash (with_new_password h u) = Some h"
  "u_oauthLinks (with_new_password h u) = u_oauthLinks u"
  "u_resetPasswordToken (with_new_password h u) = None"
  "u_resetPasswordExpiry (with_new_password h u) = None"
  "u_deletedAt (with_new_password h u) = u_deletedAt u"
  "token_version (with_new_password h u) = Suc (token_version u)"
  by (simp_all add: with_new_password_def token_version_def bump_token_version_def)

lemma with_reset_token_simps [simp]:
  "u_id (with_reset_token ce u) = u_id u"
  "u_accountType (with_reset_token ce u) = u_accountType u"
  "u_email (with_reset_token ce u) = u_email u"
  "u_passwordHash (with_reset_token ce u) = u_passwordHash u"
  "u_oauthLinks (with_reset_token ce u) = u_oauthLinks u"
  "u_resetPasswordToken (with_reset_token ce u) = Some (sha256_hex ce (ce_randomToken ce))"
  "u_resetPasswordExpiry (with_reset_token ce u) = Some (ce_now ce + reset_ttl)"
  "u_deletedAt (with_reset_token ce u) = u_deletedAt u"
  "token_version (with_reset_token ce u) = token_version u"
  by (simp_all add: with_reset_token_def token_version_def hash_reset_token_def)

lemma apply_update_simps [simp]:
  "u_id (apply_update d u) = u_id u"
  "u_createdAt (apply_update d u) = u_createdAt u"
  "u_accountType (apply_update d u) = u_accountType u"
  "u_email (apply_update d u) = u_email u"
  "u_passwordHash (apply_update d u) = u_passwordHash u"
  "u_oauthLinks (apply_update d u) = u_oauthLinks u"
  "u_resetPasswordToken (apply_update d u) = u_resetPasswordToken u"
  "u_resetPasswordExpiry (apply_update d u) = u_resetPasswordExpiry u"
  "u_upgradedAt (apply_update d u) = u_upgradedAt u"
  "u_deletedAt (apply_update d u) = u_deletedAt u"
  "token_version (apply_update d u) = token_version u"
  by (simp_all add: apply_update_def token_version_def)

lemma merge_oauth_link_simps [simp]:
  "u_id (merge_oauth_link ce p u) = u_id u"
  "u_accountType (merge_oauth_link ce p u) = u_accountType u"
  "u_email (merge_oauth_link ce p u) = u_email u"
  "u_passwordHash (merge_oauth_link ce p u) = u_passwordHash u"
  "u_resetPasswordToken (merge_oauth_link ce p u) = u_resetPasswordToken u"
  "u_deletedAt (merge_oauth_link ce p u) = u_deletedAt u"
  "token_version (merge_oauth_link ce p u) = token_version u"
  by (simp_all add: merge_oauth_link_def token_version_def)

lemma merge_oauth_link_changes [simp]: "merge_oauth_link ce p u \<noteq> u"
proof
  assume "merge_oauth_link ce p u = u"
  then have "length (u_oauthLinks (merge_oauth_link ce p u)) = length (u_oauthLinks u)" by (rule arg_cong)
  then show False by (simp add: merge_oauth_link_def)
qed

lemma new_oauth_user_simps [simp]:
  "u_id (new_oauth_user ce p) = ce_userId ce"
  "u_accountType (new_oauth_user ce p) = Registered"
  "u_email (new_oauth_user ce p) = op_email p"
  "u_passwordHash (new_oauth_user ce p) = None"
  "u_deletedAt (new_oauth_user ce p) = None"
  "token_version (new_oauth_user ce p) = 0"
  by (simp_all add: new_oauth_user_def token_version_def)

lemma has_link_frame [simp]:
  "has_link (touch_user t u) p i = has_link u p i"
  "has_link (registered_now ce pl u) p i = has_link u p i"
  "has_link (with_new_password h u) p i = has_link u p i"
  "has_link (with_reset_token ce u) p i = has_link u p i"
  "has_link (apply_update d u) p i = has_link u p i"
  "has_link (deleted_user t u) p i = has_link u p i"
  "\<not> has_link (new_user j t) p i"
  by (simp_all add: has_link_def)

lemma has_link_merge [simp]:
  "has_link (merge_oauth_link ce pl u) p i \<longleftrightarrow>
     has_link u p i \<or> p = op_provider pl \<and> i = op_providerUserId pl"
  by (auto simp: has_link_def merge_oauth_link_def oauth_link_now_def)

lemma has_link_new_oauth [simp]:
  "has_link (new_oauth_user ce pl) p i \<longleftrightarrow> p = op_provider pl \<and> i = op_providerUserId pl"
  by (auto simp: has_link_def new_oauth_user_def oauth_link_now_def)

lemma live_frame [simp]:
  "live (touch_user t u) = live u"
  "live (registered_now ce p u) = live u"
  "live (with_new_password h u) = live u"
  "live (with_reset_token ce u) = live u"
  "live (apply_update d u) = live u"
  "live (merge_oauth_link ce pl u) = live u"
  "live (new_user i t)" "live (new_oauth_user ce pl)" "\<not> live (deleted_user t u)"
  by (simp_all add: live_def)

subsection \<open>The invariants, method by method\<close>

text \<open>
  \<open>service_inv\<close> is what holds of the collections between calls; \<open>keeps ce s s'\<close> says that a
  method leads from a state with the invariant to one with the invariant, along which accounts only
  advanced and only the call's own identifier was added. \<open>fresh_ids\<close> is what ObjectIds guarantee: the one a call generates is unused,
  and the ones in the store are in the canonical form that \<open>new ObjectId\<close> gives back.
\<close>

definition service_inv :: "db \<Rightarrow> bool" where
  "service_inv s \<longleftrightarrow> db_wf s \<and> outbox_wf s \<and> links_unique s"

definition fresh_ids :: "call_env \<Rightarrow> db \<Rightarrow> bool" where
  "fresh_ids ce s \<longleftrightarrow>
     ce_userId ce \<notin> u_id ` set (users s)
     \<and> (\<forall>u \<in> set (users s). to_object_id ce (u_id u) = Inr (u_id u))"

lemma service_invD:
  "service_inv s \<Longrightarrow> db_wf s" "service_inv s \<Longrightarrow> outbox_wf s" "service_inv s \<Longrightarrow> links_unique s"
  "service_inv s \<Longrightarrow> db_unique s"
  by (auto simp: service_inv_def db_wf_def)

definition keeps :: "call_env \<Rightarrow> db \<Rightarrow> db \<Rightarrow> bool" where
  "keeps ce s s' \<longleftrightarrow>
     service_inv s' \<and> evolves s s'
     \<and> u_id ` set (users s') \<subseteq> insert (ce_userId ce) (u_id ` set (users s))"

lemma keeps_refl [simp]: "keeps ce s s = service_inv s"
  by (auto simp: keeps_def)

lemma keeps_trans: "keeps ce s t \<Longrightarrow> keeps ce t v \<Longrightarrow> keeps ce s v"
  unfolding keeps_def by (blast intro: evolves_trans)

text \<open>What a flush must satisfy to keep the invariants, in one rule.\<close>

lemma flush_keeps:
  assumes ok: "driver_ok drv" and fl: "flush drv cs s = (r, s')" and inv: "service_inv s"
    and wf: "\<And>x. PutUser x \<in> set cs \<Longrightarrow> user_wf x"
    and adv: "\<And>x u. PutUser x \<in> set cs \<Longrightarrow> u \<in> set (users s) \<Longrightarrow> u_id u = u_id x \<Longrightarrow> advances u x"
    and links: "\<And>x v p i. PutUser x \<in> set cs \<Longrightarrow> v \<in> set (users s) \<or> PutUser v \<in> set cs \<Longrightarrow>
      live x \<Longrightarrow> live v \<Longrightarrow> has_link x p i \<Longrightarrow> has_link v p i \<Longrightarrow> u_id x = u_id v"
    and rows: "\<And>e. PutOutbox e \<in> set cs \<Longrightarrow> row_wf e"
    and ids: "\<And>x. PutUser x \<in> set cs \<Longrightarrow> u_id x \<in> insert (ce_userId ce) (u_id ` set (users s))"
  shows "keeps ce s s'"
proof -
  let ?ids = "insert (ce_userId ce) (u_id ` set (users s))"
  have "u_id ` set (users s') \<subseteq> ?ids"
  proof (rule flush_preserves [OF ok fl, of "\<lambda>t. u_id ` set (users t) \<subseteq> ?ids"])
    fix c and t :: db
    assume "c \<in> set cs" and "u_id ` set (users t) \<subseteq> ?ids"
    with ids show "u_id ` set (users (apply_change c t)) \<subseteq> ?ids"
      by (cases c) auto
  qed blast
  moreover
  have "db_wf s'"
    using flush_wf [OF ok fl service_invD(1) [OF inv]] wf by blast
  moreover have "outbox_wf s'"
    using flush_outbox_wf [OF ok fl service_invD(2) [OF inv]] rows by blast
  moreover have "links_unique s'"
    by (rule flush_links [OF ok fl service_invD(3) [OF inv]]) (use links in blast)
  moreover have "evolves s s'"
    by (rule flush_evolves [OF ok fl]) (use adv in blast)
  ultimately show ?thesis by (simp add: keeps_def service_inv_def)
qed

text \<open>The usual unit of work: one user of the store, rewritten without touching its identities.\<close>

lemma flush_user_keeps:
  assumes ok: "driver_ok drv" and fl: "flush drv cs s = (r, s')" and inv: "service_inv s"
    and cs: "set cs \<subseteq> {PutUser x} \<union> {PutOutbox e |e. row_wf e}"
    and u: "u \<in> set (users s)" and adv: "advances u x" and wf: "user_wf x"
    and links: "\<And>p i. has_link x p i \<Longrightarrow> has_link u p i \<or> (\<forall>v \<in> set (users s). live v \<longrightarrow> \<not> has_link v p i)"
    and alive: "live u"
  shows "keeps ce s s'"
proof (rule flush_keeps [OF ok fl inv])
  fix y v
  assume "PutUser y \<in> set cs" and "v \<in> set (users s)" and "u_id v = u_id y"
  moreover from this cs have "y = x" by auto
  ultimately have "v = u"
    using user_by_id [OF service_invD(4) [OF inv] _ u, of v] adv by (simp add: advances_def)
  with adv \<open>y = x\<close> show "advances v y" by simp
next
  fix y v p i
  assume "PutUser y \<in> set cs" and v: "v \<in> set (users s) \<or> PutUser v \<in> set cs"
    and "live v" and "has_link y p i" "has_link v p i"
  moreover from this cs have "y = x" by auto
  ultimately have new: "has_link u p i \<or> (\<forall>v \<in> set (users s). live v \<longrightarrow> \<not> has_link v p i)"
    using links by blast
  from v show "u_id y = u_id v"
  proof
    assume v: "v \<in> set (users s)"
    with new \<open>live v\<close> \<open>has_link v p i\<close> have "has_link u p i" by blast
    with v service_invD(3) [OF inv] u alive \<open>live v\<close> \<open>has_link v p i\<close>
    have "u_id u = u_id v" unfolding links_unique_def by blast
    with adv \<open>y = x\<close> show ?thesis by (simp add: advances_def)
  next
    assume "PutUser v \<in> set cs"
    with cs \<open>y = x\<close> show ?thesis by auto
  qed
next
  fix y
  assume "PutUser y \<in> set cs"
  with cs have "y = x" by auto
  with adv u show "u_id y \<in> insert (ce_userId ce) (u_id ` set (users s))"
    by (auto simp: advances_def)
qed (use cs wf in auto)

lemma delete_devices_keeps:
  assumes ok: "driver_ok drv" and del: "delete_devices drv cs s = (r, s')" and inv: "service_inv s"
  shows "keeps ce s s'"
proof -
  have u: "users s' = users s" by (rule delete_devices_frame(1) [OF ok del])
  have out: "outbox s' = outbox s" by (rule delete_devices_frame(2) [OF ok del])
  have "links_unique s'"
    using service_invD(3) [OF inv] unfolding links_unique_def u .
  moreover have "outbox_wf s'"
    using service_invD(2) [OF inv] unfolding outbox_wf_def out .
  moreover have "db_wf s'"
    using delete_devices_wf [OF ok del service_invD(1) [OF inv]] .
  ultimately show ?thesis
    using evolves_same_users [OF u] u by (auto simp: keeps_def service_inv_def)
qed

lemma find_live_user:
  assumes "driver_ok drv" and "find_user drv s (cs @ [NotDeleted]) = Inr (Some u)"
  shows "u \<in> set (users s)" and "live u" and "sat user_matches cs u"
  using find_user_Some [OF assms] by (auto simp: sat_def live_def)

lemma user_wf_pw [simp]: "user_wf (touch_user t u) = user_wf u"
  by (simp add: user_wf_def)

lemma create_fresh_autoreg_keeps:
  assumes ok: "driver_ok drv" and inv: "service_inv s" and fresh: "fresh_ids ce s"
    and op: "create_fresh_autoreg drv ce p s = (r, s')"
  shows "keeps ce s s'"
proof -
  let ?cs = "[PutUser (new_user (ce_userId ce) (ce_now ce)), PutDevice (autoreg_device ce p)]"
  obtain q where "flush drv ?cs s = (q, s')"
    using op by (auto simp: create_fresh_autoreg_def split: prod.splits sum.splits unit.splits)
  then show ?thesis
    by (rule flush_keeps [OF ok _ inv])
      (use fresh in \<open>auto simp: user_wf_def fresh_ids_def rev_image_eqI\<close>)
qed

theorem create_autoreg_user_keeps:
  assumes ok: "driver_ok drv" and inv: "service_inv s" and fresh: "fresh_ids ce s"
    and op: "create_autoreg_user drv ce p s = (r, s')"
  shows "keeps ce s s'"
proof -
  consider "s' = s" | "create_fresh_autoreg drv ce p s = (r, s')"
  | i q t where "delete_devices drv [DeviceIdIs i] s = (q, t)"
      "s' = t \<or> create_fresh_autoreg drv ce p t = (r, s')"
  | d q where "flush drv (save_device (ce_now ce) d (seen_device ce p d)) s = (q, s')"
    using op
    by (auto simp: create_autoreg_user_def split: sum.splits option.splits if_splits prod.splits
        unit.splits)
  then show ?thesis
  proof cases
    case 1
    with inv show ?thesis by simp
  next
    case 2
    with ok inv fresh show ?thesis by (rule create_fresh_autoreg_keeps)
  next
    case (3 i q t)
    then have t: "keeps ce s t" using delete_devices_keeps [OF ok _ inv] by blast
    moreover have "fresh_ids ce t"
      using fresh delete_devices_frame(1) [OF ok 3(1)] by (simp add: fresh_ids_def)
    ultimately show ?thesis
      using 3(2) create_fresh_autoreg_keeps [OF ok] by (meson keeps_def keeps_trans)
  next
    case (4 d q)
    then show ?thesis
      by (rule flush_keeps [OF ok _ inv]) (auto simp: save_device_def split: if_splits)
  qed
qed

lemma attach_email_Inr:
  assumes "attach_email drv ce userId p s u = Inr u'"
  obtains h where "u' = u\<lparr>u_email := up_email p, u_passwordHash := Some h\<rparr>"
    and "truthy (up_email p)" and "argon2_hash ce (the (up_password p)) = Inr h"
  using assms by (auto simp: attach_email_def split: if_splits sum.splits)

lemma attach_provider_Inr:
  assumes "driver_ok drv" and "attach_provider drv ce userId pr p s u = Inr u'"
  obtains i where "up_providerUserId p = Some i"
    and "u' = u\<lparr>u_email := or_else (up_email p) (u_email u),
               u_oauthLinks := u_oauthLinks u @ [oauth_link_now ce pr i (up_email p)]\<rparr>"
    and "\<forall>v \<in> set (users s). \<not> has_link v pr i"
  | i c where "up_providerUserId p = Some i"
    and "u' = u\<lparr>u_email := or_else (up_email p) (u_email u),
               u_oauthLinks := u_oauthLinks u @ [oauth_link_now ce pr i (up_email p)]\<rparr>"
    and "c \<in> set (users s)" "has_link c pr i" "u_id c = userId"
proof -
  from assms(2) obtain i where i: "up_providerUserId p = Some i"
    by (auto simp: attach_provider_def truthy_iff split: if_splits)
  with assms(2) obtain found where f: "find_user drv s [LinkIs pr i] = Inr found"
    and u': "u' = u\<lparr>u_email := or_else (up_email p) (u_email u),
               u_oauthLinks := u_oauthLinks u @ [oauth_link_now ce pr i (up_email p)]\<rparr>"
    and own: "found = None \<or> u_id (the found) = userId"
    by (auto simp: attach_provider_def split: if_splits sum.splits)
  show ?thesis
  proof (cases found)
    case None
    then have "\<forall>v \<in> set (users s). \<not> has_link v pr i"
      using find_user_None [OF assms(1), of s "[LinkIs pr i]"] f by (auto simp: has_link_def)
    with i u' that(1) show ?thesis by blast
  next
    case (Some c)
    with f own find_user_Some [OF assms(1), of s "[LinkIs pr i]" c] i u' that(2)
    show ?thesis by (auto simp: has_link_def)
  qed
qed

lemma upgraded_user:
  assumes ok: "driver_ok drv" and inv: "service_inv s" and fresh: "fresh_ids ce s"
    and u: "find_by_id drv ce userId s = Inr u" "u_accountType u = Autoreg"
    and at: "attach_identity drv ce userId p s u = Inr a"
  shows "u_id a = u_id u \<and> token_version a = token_version u \<and> u_deletedAt a = u_deletedAt u
    \<and> u_accountType a = u_accountType u \<and> u_resetPasswordToken a = None
    \<and> (\<forall>q i. has_link a q i \<longrightarrow> (\<forall>v \<in> set (users s). live v \<longrightarrow> \<not> has_link v q i))"
proof -
  note byid = find_by_id_Inr [OF ok u(1)]
  have wf: "u_oauthLinks u = []" "u_resetPasswordToken u = None"
    using db_wfD [OF service_invD(1) [OF inv] byid(1)] u(2) by (auto simp: user_wf_def)
  show ?thesis
  proof (cases "up_method p")
    case ByEmail
    with at have "attach_email drv ce userId p s u = Inr a" by (simp add: attach_identity_def)
    then show ?thesis
      by (rule attach_email_Inr) (use wf in \<open>auto simp: token_version_def has_link_def\<close>)
  next
    case (ByProvider pr)
    with at have at': "attach_provider drv ce userId pr p s u = Inr a"
      by (simp add: attach_identity_def)
    from ok at' show ?thesis
    proof (cases rule: attach_provider_Inr)
      case (1 i)
      with wf show ?thesis
        by (auto simp: token_version_def has_link_def oauth_link_now_def)
    next
      case (2 i c)
      with fresh byid(3) have "u_id c = u_id u" by (auto simp: fresh_ids_def)
      with user_by_id [OF service_invD(4) [OF inv] 2(3) byid(1)] 2(4) wf(1) show ?thesis
        by (simp add: has_link_def)
    qed
  qed
qed

lemma upgrade_account_writes:
  assumes "upgrade_account drv ce userId p s = (r, s')"
  obtains (none) e where "s' = s" "r = Inl e"
  | (failed) u a err where "find_by_id drv ce userId s = Inr u" "u_accountType u = Autoreg"
      "attach_identity drv ce userId p s u = Inr a"
      "flush drv [PutUser (touch_user (ce_now ce) (registered_now ce p a))] s = (Inl err, s')"
      "r = Inl (if is_duplicate_key_error err (Some ''email'') then email_taken else err)"
  | (written) u a t q where "find_by_id drv ce userId s = Inr u" "u_accountType u = Autoreg"
      "attach_identity drv ce userId p s u = Inr a"
      "flush drv [PutUser (touch_user (ce_now ce) (registered_now ce p a))] s = (Inr (), t)"
      "delete_devices drv [DeviceUserIs (u_id u)] t = (q, s')"
      "r = (case q of Inl e \<Rightarrow> Inl e | Inr () \<Rightarrow> Inr (touch_user (ce_now ce) (registered_now ce p a)))"
proof (cases "find_by_id drv ce userId s")
  case (Inl e)
  with assms have "s' = s" and "r = Inl e" by (simp_all add: upgrade_account_def)
  then show ?thesis by (rule none)
next
  case u: (Inr u)
  show ?thesis
  proof (cases "attach_identity drv ce userId p s u")
    case (Inl e)
    with assms u have "s' = s \<and> (\<exists>e. r = Inl e)"
      by (simp add: upgrade_account_def split: if_splits; blast)
    with none show ?thesis by blast
  next
    case a: (Inr a)
    let ?x = "touch_user (ce_now ce) (registered_now ce p a)"
    obtain q t where fl: "flush drv [PutUser ?x] s = (q, t)" by fastforce
    obtain q' t' where del: "delete_devices drv [DeviceUserIs (u_id u)] t = (q', t')" by fastforce
    show ?thesis
    proof (cases "u_accountType u = Autoreg")
      case False
      with assms u have "s' = s" and "r = Inl (exn_conflict ''Account already upgraded'')"
        by (simp_all add: upgrade_account_def)
      then show ?thesis by (rule none)
    next
      case True
      show ?thesis
      proof (cases q)
        case (Inl err)
        with assms u a True fl failed [OF u True a] show ?thesis by (simp add: upgrade_account_def)
      next
        case (Inr x)
        with assms u a True fl del written [OF u True a, of t q'] show ?thesis
          by (cases q') (simp_all add: upgrade_account_def Let_def)
      qed
    qed
  qed
qed

theorem upgrade_account_keeps:
  assumes ok: "driver_ok drv" and inv: "service_inv s" and fresh: "fresh_ids ce s"
    and op: "upgrade_account drv ce userId p s = (r, s')"
  shows "keeps ce s s'"
proof -
  have fl: "keeps ce s t"
    if "find_by_id drv ce userId s = Inr u" "u_accountType u = Autoreg"
      "attach_identity drv ce userId p s u = Inr a"
      "flush drv [PutUser (touch_user (ce_now ce) (registered_now ce p a))] s = (q, t)"
    for u a q t
  proof (rule flush_user_keeps [OF ok that(4) inv])
    note a = upgraded_user [OF ok inv fresh that(1-3)]
    note u = find_by_id_Inr [OF ok that(1)]
    show "u \<in> set (users s)" and "live u" by (rule u)+
    show "advances u (touch_user (ce_now ce) (registered_now ce p a))"
      using a u(2) by (simp add: advances_def)
    show "user_wf (touch_user (ce_now ce) (registered_now ce p a))"
      using a u(2) by (simp add: user_wf_def live_def)
    show "has_link u q i \<or> (\<forall>v \<in> set (users s). live v \<longrightarrow> \<not> has_link v q i)"
      if "has_link (touch_user (ce_now ce) (registered_now ce p a)) q i" for q i
      using that a by simp
  qed simp
  from op show ?thesis
  proof (cases rule: upgrade_account_writes)
    case none
    with inv show ?thesis by simp
  next
    case failed
    then show ?thesis using fl by blast
  next
    case (written u a t q)
    from fl [OF written(1-4)] have "keeps ce s t" .
    moreover from this have "keeps ce t s'"
      using delete_devices_keeps [OF ok written(5)] by (simp add: keeps_def)
    ultimately show ?thesis by (rule keeps_trans)
  qed
qed

lemma create_oauth_user_keeps:
  assumes ok: "driver_ok drv" and inv: "service_inv s" and fresh: "fresh_ids ce s"
    and none: "\<forall>v \<in> set (users s). live v \<longrightarrow> \<not> has_link v (op_provider p) (op_providerUserId p)"
    and op: "create_oauth_user drv ce p s = (r, s')"
  shows "keeps ce s s'"
proof -
  obtain q where "flush drv [PutUser (new_oauth_user ce p)] s = (q, s')"
    using op by (auto simp: create_oauth_user_def Let_def split: prod.splits sum.splits unit.splits)
  then show ?thesis
    by (rule flush_keeps [OF ok _ inv])
      (use fresh none in \<open>auto simp: user_wf_def fresh_ids_def rev_image_eqI\<close>)
qed

theorem find_or_create_oauth_user_keeps:
  assumes ok: "driver_ok drv" and inv: "service_inv s" and fresh: "fresh_ids ce s"
    and op: "find_or_create_oauth_user drv ce p s = (r, s')"
  shows "keeps ce s s'"
proof (cases "find_user drv s [LinkIs (op_provider p) (op_providerUserId p), NotDeleted] = Inr None")
  case False
  with op have "s' = s"
    by (auto simp: find_or_create_oauth_user_def split: sum.splits option.splits)
  with inv show ?thesis by simp
next
  case True
  have none: "\<forall>v \<in> set (users s). live v \<longrightarrow> \<not> has_link v (op_provider p) (op_providerUserId p)"
    using find_user_None [OF ok True] by (fastforce simp: live_def has_link_def)
  from True op consider "s' = s" | "create_oauth_user drv ce p s = (r, s')"
  | u e q where "find_user drv s ([EmailIs e] @ [NotDeleted]) = Inr (Some u)"
      "flush drv (save_user (ce_now ce) u (merge_oauth_link ce p u)) s = (q, s')"
    by (auto simp: find_or_create_oauth_user_def
        split: sum.splits option.splits if_splits prod.splits unit.splits)
  then show ?thesis
  proof cases
    case 1
    with inv show ?thesis by simp
  next
    case 2
    with ok inv fresh none show ?thesis by (rule create_oauth_user_keeps)
  next
    case (3 u e q)
    note u = find_live_user [OF ok 3(1)]
    show ?thesis
    proof (rule flush_user_keeps [OF ok 3(2) inv _ u(1)])
      show "advances u (touch_user (ce_now ce) (merge_oauth_link ce p u))"
        using u(2) by (simp add: advances_def)
      show "user_wf (touch_user (ce_now ce) (merge_oauth_link ce p u))"
        using db_wfD [OF service_invD(1) [OF inv] u(1)] u(2,3) by (auto simp: user_wf_def live_def)
      show "has_link u q i \<or> (\<forall>v \<in> set (users s). live v \<longrightarrow> \<not> has_link v q i)"
        if "has_link (touch_user (ce_now ce) (merge_oauth_link ce p u)) q i" for q i
        using that none by auto
    qed (use u in \<open>auto simp: save_user_def\<close>)
  qed
qed

text \<open>A method that rewrites one live user, keeping its identities and its links.\<close>

lemma save_user_keeps:
  assumes ok: "driver_ok drv" and inv: "service_inv s"
    and fl: "flush drv (save_user now u u') s = (q, s')"
    and u: "u \<in> set (users s)" "live u" and adv: "advances u u'" and wf: "user_wf u'"
    and links: "\<And>p i. has_link u' p i = has_link u p i"
  shows "keeps ce s s'"
  by (rule flush_user_keeps [OF ok fl inv _ u(1), of "touch_user now u'"])
    (use u adv wf links in \<open>auto simp: save_user_def advances_def live_def\<close>)

theorem forgot_password_keeps:
  assumes ok: "driver_ok drv" and inv: "service_inv s"
    and op: "forgot_password drv ce mail email s m = (r, s', m')"
  shows "keeps ce s s'"
proof -
  from op consider "s' = s"
  | u q where "find_user drv s ([EmailIs email] @ [NotDeleted]) = Inr (Some u)"
      "flush drv (save_user (ce_now ce) u (with_reset_token ce u)) s = (q, s')"
    by (auto simp: forgot_password_def
        split: sum.splits option.splits if_splits prod.splits unit.splits)
  then show ?thesis
  proof cases
    case 1
    with inv show ?thesis by simp
  next
    case (2 u q)
    note u = find_live_user [OF ok 2(1)]
    show ?thesis
      by (rule save_user_keeps [OF ok inv 2(2) u(1,2)])
        (use db_wfD [OF service_invD(1) [OF inv] u(1)] u(2,3) in
          \<open>auto simp: advances_def user_wf_def live_def\<close>)
  qed
qed

theorem reset_password_keeps:
  assumes ok: "driver_ok drv" and inv: "service_inv s"
    and op: "reset_password drv ce token pw s = (r, s')"
  shows "keeps ce s s'"
proof -
  from op consider "s' = s"
  | u h q where "find_user drv s ([ResetTokenIs (hash_reset_token ce token)] @ [NotDeleted]) = Inr (Some u)"
      "flush drv (save_user (ce_now ce) u (with_new_password h u)) s = (q, s')"
    by (auto simp: reset_password_def split: sum.splits option.splits if_splits)
  then show ?thesis
  proof cases
    case 1
    with inv show ?thesis by simp
  next
    case (2 u h q)
    note u = find_live_user [OF ok 2(1)]
    show ?thesis
      by (rule save_user_keeps [OF ok inv 2(2) u(1,2)])
        (use db_wfD [OF service_invD(1) [OF inv] u(1)] u(2,3) in
          \<open>auto simp: advances_def user_wf_def live_def\<close>)
  qed
qed

theorem update_user_keeps:
  assumes ok: "driver_ok drv" and inv: "service_inv s"
    and op: "update_user drv ce userId d s = (r, s')"
  shows "keeps ce s s'"
proof -
  from op consider "s' = s"
  | u q where "find_by_id drv ce userId s = Inr u"
      "flush drv (save_user (ce_now ce) u (apply_update d u)) s = (q, s')"
    by (auto simp: update_user_def Let_def split: sum.splits prod.splits unit.splits)
  then show ?thesis
  proof cases
    case 1
    with inv show ?thesis by simp
  next
    case (2 u q)
    note u = find_by_id_Inr [OF ok 2(1)]
    show ?thesis
      by (rule save_user_keeps [OF ok inv 2(2) u(1,2)])
        (use db_wfD [OF service_invD(1) [OF inv] u(1)] u(2) in
          \<open>auto simp: advances_def user_wf_def live_def\<close>)
  qed
qed

theorem delete_user_keeps:
  assumes ok: "driver_ok drv" and inv: "service_inv s"
    and op: "delete_user drv ce userId s = (r, s')"
  shows "keeps ce s s'"
proof -
  from op consider "s' = s"
  | u row created staged where "find_by_id drv ce userId s = Inr u"
      "stage_outbox_event drv s (ce_now ce) (ce_outboxId ce) (user_deleted_stage (u_id u))
         = Inr (row, created, staged)"
      "flush drv (save_user (ce_now ce) u (deleted_user (ce_now ce) u) @ staged) s = (r, s')"
    by (auto simp: delete_user_def split: sum.splits)
  then show ?thesis
  proof cases
    case 1
    with inv show ?thesis by simp
  next
    case (2 u row created staged)
    note u = find_by_id_Inr [OF ok 2(1)]
    have staged: "\<exists>e. c = PutOutbox e \<and> row_wf e" if "c \<in> set staged" for c
      using stage_changes_outbox_only [OF ok 2(2) that]
        stage_row_wf [OF ok service_invD(2) [OF inv] 2(2)] that by blast
    show ?thesis
    proof (rule flush_user_keeps [OF ok 2(3) inv _ u(1)])
      show "set (save_user (ce_now ce) u (deleted_user (ce_now ce) u) @ staged)
          \<subseteq> {PutUser (touch_user (ce_now ce) (deleted_user (ce_now ce) u))} \<union> {PutOutbox e |e. row_wf e}"
        using staged by (auto simp: save_user_def)
      show "advances u (touch_user (ce_now ce) (deleted_user (ce_now ce) u))"
        using u(2) by (simp add: advances_def)
      show "user_wf (touch_user (ce_now ce) (deleted_user (ce_now ce) u))"
        using db_wfD [OF service_invD(1) [OF inv] u(1)] by (auto simp: user_wf_def)
    qed (use u in auto)
  qed
qed

end
