(* ===== verification/Users_Controller.thy ===== *)
theory Users_Controller
  imports Users_Invariants
begin

section \<open>The user service's message handlers\<close>

text \<open>
  \<open>apps/user/src/modules/users/users.controller.ts\<close>: one constructor of \<open>user_message\<close> per
  \<open>@MessagePattern\<close>, with the fields of the payload its handler reads. A field the handler reads
  with \<open>!\<close> is one every caller sends (the gateway validates it), and is not optional here.
  \<open>serve\<close> is a handler behind \<open>RpcAllExceptionsFilter\<close>, as the RPC server runs it; a handler
  that returns nothing has the reply \<open>NoReply\<close>.
\<close>

datatype user_message =
    Ping
  | CreateAutoregUser "string option" "platform option" "string option"
      \<comment> \<open>\<open>fingerprint\<close>, \<open>platform\<close>, \<open>ipHash\<close>\<close>
  | LoginUser string string
  | UpgradeUserAccount string "upgrade_method option" "string option" "string option" "string option"
      "string option"  \<comment> \<open>\<open>userId\<close>, \<open>method\<close>, \<open>email\<close>, \<open>password\<close>, \<open>name\<close>, \<open>providerUserId\<close>\<close>
  | FindOrCreateOAuthUser string string "string option" "bool option" "string option"
      \<comment> \<open>\<open>provider\<close>, \<open>providerUserId\<close>, \<open>email\<close>, \<open>emailVerified\<close>, \<open>name\<close>\<close>
  | ForgotPassword string
  | ResetPassword string string
  | GetUserById string
  | GetUserTokenVersion string
  | UpdateUser string update_user_input
  | DeleteUser string

datatype user_reply =
    PongReply
  | AutoregReply autoreg_result
  | GrantReply grant
  | UserReply user
  | SuccessReply
  | DtoReply user_dto
  | VersionReply nat
  | NoReply

fun map_result :: "('a \<Rightarrow> 'b) \<Rightarrow> exn + 'a \<Rightarrow> exn + 'b" where
  "map_result f (Inl e) = Inl e"
| "map_result f (Inr x) = Inr (f x)"

definition lift_reply :: "('a \<Rightarrow> user_reply) \<Rightarrow> (exn + 'a) \<times> db \<Rightarrow> 'm \<Rightarrow> (exn + user_reply) \<times> db \<times> 'm" where
  "lift_reply f rs m = (map_result f (fst rs), snd rs, m)"

type_synonym 'm mailer = "string \<Rightarrow> string \<Rightarrow> 'm \<Rightarrow> exn option \<times> 'm"

fun handle_message ::
  "driver \<Rightarrow> call_env \<Rightarrow> 'm mailer \<Rightarrow> user_message \<Rightarrow> db \<Rightarrow> 'm \<Rightarrow> (exn + user_reply) \<times> db \<times> 'm" where
  "handle_message drv ce mail Ping s m = (Inr PongReply, s, m)"
| "handle_message drv ce mail (CreateAutoregUser fingerprint platform ipHash) s m =
     (if \<not> truthy fingerprint then (Inl (exn_bad_request ''fingerprint is required''), s, m)
      else lift_reply AutoregReply
             (create_autoreg_user drv ce
                \<lparr>ap_fingerprint = the fingerprint, ap_platform = platform, ap_ipHash = ipHash\<rparr> s) m)"
| "handle_message drv ce mail (LoginUser email password) s m =
     (map_result GrantReply (login drv ce email password s), s, m)"
| "handle_message drv ce mail (UpgradeUserAccount userId method email password name providerUserId) s m =
     lift_reply UserReply
       (upgrade_account drv ce userId
          \<lparr>up_method = nullish method ByEmail, up_email = email, up_password = password,
           up_name = name, up_providerUserId = providerUserId\<rparr> s) m"
| "handle_message drv ce mail (FindOrCreateOAuthUser provider providerUserId email emailVerified name) s m =
     lift_reply GrantReply
       (find_or_create_oauth_user drv ce
          \<lparr>op_provider = provider, op_providerUserId = providerUserId, op_email = email,
           op_emailVerified = nullish emailVerified False, op_name = name\<rparr> s) m"
| "handle_message drv ce mail (ForgotPassword email) s m =
     (case forgot_password drv ce mail email s m of (r, s', m') \<Rightarrow> (map_result (\<lambda>_. SuccessReply) r, s', m'))"
| "handle_message drv ce mail (ResetPassword token newPassword) s m =
     lift_reply (\<lambda>_. NoReply) (reset_password drv ce token newPassword s) m"
| "handle_message drv ce mail (GetUserById userId) s m =
     (map_result (\<lambda>u. DtoReply (to_dto u)) (find_by_id drv ce userId s), s, m)"
| "handle_message drv ce mail (GetUserTokenVersion userId) s m =
     (map_result (\<lambda>u. VersionReply (token_version u)) (find_by_id drv ce userId s), s, m)"
| "handle_message drv ce mail (UpdateUser userId rest) s m =
     lift_reply DtoReply (update_user drv ce userId rest s) m"
| "handle_message drv ce mail (DeleteUser userId) s m =
     lift_reply (\<lambda>_. SuccessReply) (delete_user drv ce userId s) m"

definition serve ::
  "driver \<Rightarrow> call_env \<Rightarrow> 'm mailer \<Rightarrow> string option \<Rightarrow> user_message \<Rightarrow> db \<Rightarrow> 'm
     \<Rightarrow> (exn + user_reply) \<times> db \<times> 'm" where
  "serve drv ce mail traceId msg s m =
     (case handle_message drv ce mail msg s m of
        (Inr reply, s', m') \<Rightarrow> (Inr reply, s', m')
      | (Inl e, s', m') \<Rightarrow> (Inl (fst (rpc_all_exceptions_filter traceId e)), s', m'))"

fun_cases handle_ping: "handle_message drv ce mail Ping s m = (r, s', m')"

lemma map_result_Inr [simp]: "map_result f r = Inr y \<longleftrightarrow> (\<exists>x. r = Inr x \<and> y = f x)"
  by (cases r) auto

lemma map_result_Inr' [simp]: "Inr y = map_result f r \<longleftrightarrow> (\<exists>x. r = Inr x \<and> y = f x)"
  by (cases r) auto

lemma map_result_Inl [simp]: "map_result f r = Inl e \<longleftrightarrow> r = Inl e"
  by (cases r) auto

lemma serve_state:
  "serve drv ce mail tr msg s m = (r, s', m') \<Longrightarrow> \<exists>r0. handle_message drv ce mail msg s m = (r0, s', m')
     \<and> (r = r0 \<or> (\<exists>e. r0 = Inl e \<and> r = Inl (fst (rpc_all_exceptions_filter tr e))))"
  by (auto simp: serve_def split: prod.splits sum.splits)

lemma lift_reply_state: "lift_reply f rs m = (r, s', m') \<Longrightarrow> \<exists>q. rs = (q, s') \<and> r = map_result f q \<and> m' = m"
  by (cases rs) (auto simp: lift_reply_def)

text \<open>Every message, handled or refused, keeps the invariants.\<close>

theorem handle_message_keeps:
  assumes ok: "driver_ok drv" and inv: "service_inv s" and fresh: "fresh_ids ce s"
    and op: "handle_message drv ce mail msg s m = (r, s', m')"
  shows "keeps ce s s'"
proof (cases msg)
  case (CreateAutoregUser f pl ip)
  with op inv show ?thesis
    by (auto dest!: lift_reply_state intro: create_autoreg_user_keeps [OF ok inv fresh] split: if_splits)
next
  case (UpgradeUserAccount i me em pw n pr)
  with op show ?thesis
    by (auto dest!: lift_reply_state intro: upgrade_account_keeps [OF ok inv fresh])
next
  case (FindOrCreateOAuthUser pr pi em ev n)
  with op show ?thesis
    by (auto dest!: lift_reply_state intro: find_or_create_oauth_user_keeps [OF ok inv fresh])
next
  case (ForgotPassword e)
  with op show ?thesis
    by (auto intro: forgot_password_keeps [OF ok inv] split: prod.splits)
next
  case (ResetPassword t pw)
  with op show ?thesis
    by (auto dest!: lift_reply_state intro: reset_password_keeps [OF ok inv])
next
  case (UpdateUser i d)
  with op show ?thesis
    by (auto dest!: lift_reply_state intro: update_user_keeps [OF ok inv])
next
  case (DeleteUser i)
  with op show ?thesis
    by (auto dest!: lift_reply_state intro: delete_user_keeps [OF ok inv])
qed (use op inv in auto)

lemma serve_keeps:
  assumes "driver_ok drv" and "service_inv s" and "fresh_ids ce s"
    and "serve drv ce mail tr msg s m = (r, s', m')"
  shows "keeps ce s s'"
proof -
  from serve_state [OF assms(4)] obtain r0
    where "handle_message drv ce mail msg s m = (r0, s', m')" by blast
  with assms(1-3) show ?thesis by (rule handle_message_keeps)
qed

end
