(* ===== verification/Token_Store.thy ===== *)
theory Token_Store
  imports Rpc_Errors
begin

section \<open>The refresh-token blacklist\<close>

text \<open>
  \<open>apps/gateway/src/modules/auth/services/token-store.service.ts\<close>. Redis is a parameter: its
  \<open>GET\<close> and \<open>SET key value EX ttl\<close> at a given time, and a view of which keys hold what
  until when; \<open>redis_ok\<close> is its documented behaviour (a command may fail, a failed write may have
  been applied). Times are milliseconds, a token's \<open>exp\<close> is in seconds.
\<close>

record 'r redis =
  rd_view :: "'r \<Rightarrow> string \<Rightarrow> (string \<times> millis) option"
  rd_get :: "millis \<Rightarrow> string \<Rightarrow> 'r \<Rightarrow> exn + string option"
  rd_set :: "millis \<Rightarrow> string \<Rightarrow> string \<Rightarrow> int \<Rightarrow> 'r \<Rightarrow> (exn + unit) \<times> 'r"

definition redis_ok :: "'r redis \<Rightarrow> bool" where
  "redis_ok rd \<longleftrightarrow>
     (\<forall>now k r x. rd_get rd now k r = Inr x \<longrightarrow>
        x = (case rd_view rd r k of
               None \<Rightarrow> None | Some (v, until) \<Rightarrow> if now < until then Some v else None))
     \<and> (\<forall>now k v ttl r q r'. rd_set rd now k v ttl r = (q, r') \<longrightarrow>
          rd_view rd r' = (rd_view rd r)(k \<mapsto> (v, now + ttl * 1000))
          \<or> q \<noteq> Inr () \<and> rd_view rd r' = rd_view rd r)"

definition KEY_PREFIX :: string where
  "KEY_PREFIX = ''blacklist:rt:''"

definition blacklist_refresh_token ::
  "'r redis \<Rightarrow> millis \<Rightarrow> string \<Rightarrow> int \<Rightarrow> 'r \<Rightarrow> (exn + unit) \<times> 'r" where
  "blacklist_refresh_token rd now jti expiresAt r =
     (let ttl = expiresAt - now div 1000
      in if 0 < ttl then rd_set rd now (KEY_PREFIX @ jti) ''1'' ttl r else (Inr (), r))"

definition auth_store_unavailable :: exn where
  "auth_store_unavailable =
     service_unavailable ''auth_store_unavailable'' ''Authentication service temporarily unavailable''"

definition is_blacklisted :: "'r redis \<Rightarrow> millis \<Rightarrow> string \<Rightarrow> 'r \<Rightarrow> exn + bool" where
  "is_blacklisted rd now jti r =
     (case rd_get rd now (KEY_PREFIX @ jti) r of
        Inr val \<Rightarrow> Inr (val = Some ''1'')
      | Inl err \<Rightarrow> Inl auth_store_unavailable)"

subsection \<open>The contract of a revocation list\<close>

text \<open>
  What the refresh strategy and the auth service need of the store. \<open>refuses t j until r\<close>: from
  time \<open>t\<close> until the token's own expiry, the check of \<open>j\<close> never answers \<open>not revoked\<close>. A successful
  revocation establishes it, and no later revocation, successful or not, undoes it, provided a token
  is always presented with the same expiry. The provider's laws hold when it is \<open>lawful\<close>.
\<close>

definition refuses :: "(millis \<Rightarrow> string \<Rightarrow> 'r \<Rightarrow> exn + bool) \<Rightarrow> millis \<Rightarrow> string \<Rightarrow> int \<Rightarrow> 'r \<Rightarrow> bool" where
  "refuses revoked t j until r \<longleftrightarrow> (\<forall>t' \<ge> t. t' < until * 1000 \<longrightarrow> revoked t' j r \<noteq> Inr False)"

locale revocation_list =
  fixes lawful :: bool
    and revoke :: "millis \<Rightarrow> string \<Rightarrow> int \<Rightarrow> 'r \<Rightarrow> (exn + unit) \<times> 'r"
    and revoked :: "millis \<Rightarrow> string \<Rightarrow> 'r \<Rightarrow> exn + bool"
    and until :: "'r \<Rightarrow> string \<Rightarrow> millis option"
  assumes view_refuses: "lawful \<Longrightarrow> until r j = Some e \<Longrightarrow> t < e \<Longrightarrow> revoked t j r \<noteq> Inr False"
    and revoke_covers: "lawful \<Longrightarrow> revoke t j e r = (Inr (), r') \<Longrightarrow> t < e * 1000 \<Longrightarrow>
           \<exists>m \<ge> e * 1000. until r' j = Some m"
    and revoke_keeps: "lawful \<Longrightarrow> revoke t j e r = (q, r') \<Longrightarrow> until r k = Some m \<Longrightarrow>
           \<exists>m'. until r' k = Some m' \<and> (if k = j then min m (e * 1000) \<le> m' else m \<le> m')"
begin

definition covered :: "string \<Rightarrow> int \<Rightarrow> 'r \<Rightarrow> bool" where
  "covered j e r \<longleftrightarrow> (\<exists>m \<ge> e * 1000. until r j = Some m)"

lemma covered_refuses: "lawful \<Longrightarrow> covered j e r \<Longrightarrow> refuses revoked t j e r"
  unfolding covered_def refuses_def by (meson order_less_le_trans view_refuses)

lemma revoke_covered:
  "lawful \<Longrightarrow> revoke t j e r = (Inr (), r') \<Longrightarrow> t < e * 1000 \<Longrightarrow> covered j e r'"
  unfolding covered_def by (rule revoke_covers)

lemma covered_kept:
  assumes "lawful" and "revoke t k e2 r = (q, r')" and "covered j e r" and "k = j \<Longrightarrow> e2 = e"
  shows "covered j e r'"
proof -
  from assms(3) obtain m where "e * 1000 \<le> m" and "until r j = Some m"
    by (auto simp: covered_def)
  from revoke_keeps [OF assms(1,2) this(2)] obtain m'
    where "until r' j = Some m'" and "if j = k then min m (e2 * 1000) \<le> m' else m \<le> m'" by blast
  with \<open>e * 1000 \<le> m\<close> assms(4) show ?thesis
    by (auto simp: covered_def split: if_splits)
qed

text \<open>A run of revocations, whatever becomes of each, keeps refusing what was refused.\<close>

fun revocations :: "(millis \<times> string \<times> int) list \<Rightarrow> 'r \<Rightarrow> 'r" where
  "revocations [] r = r"
| "revocations ((t, j, e) # rs) r = revocations rs (snd (revoke t j e r))"

lemma covered_along:
  assumes "lawful" and "covered j e r" and "\<forall>(t, k, e2) \<in> set rs. k = j \<longrightarrow> e2 = e"
  shows "covered j e (revocations rs r)"
  using assms(2,3)
proof (induction rs arbitrary: r)
  case (Cons a rs)
  obtain t k e2 where a: "a = (t, k, e2)" by (cases a)
  obtain q r' where r': "revoke t k e2 r = (q, r')" by fastforce
  have "covered j e r'"
    using covered_kept [OF assms(1) r' Cons.prems(1)] Cons.prems(2) a by auto
  with Cons.IH [of r'] Cons.prems(2) a r' show ?case by auto
qed simp

end

subsection \<open>The Redis blacklist meets it\<close>

definition blacklisted_until :: "'r redis \<Rightarrow> 'r \<Rightarrow> string \<Rightarrow> millis option" where
  "blacklisted_until rd r jti =
     (case rd_view rd r (KEY_PREFIX @ jti) of
        Some (v, until) \<Rightarrow> if v = ''1'' then Some until else None
      | None \<Rightarrow> None)"

lemma redis_set_cases:
  assumes "redis_ok rd" and "rd_set rd now k v ttl r = (q, r')"
  obtains "rd_view rd r' = (rd_view rd r)(k \<mapsto> (v, now + ttl * 1000))"
  | "q \<noteq> Inr ()" "rd_view rd r' = rd_view rd r"
  using assms unfolding redis_ok_def by blast

text \<open>The key outlives the token: the ttl is rounded up to whole seconds.\<close>

lemma ttl_covers: "e * 1000 \<le> now + (e - now div 1000) * 1000" for e now :: int
proof -
  have "now div 1000 * 1000 \<le> now" by (simp add: minus_mod_eq_div_mult [symmetric])
  then show ?thesis by (simp add: algebra_simps)
qed

interpretation blacklist: revocation_list "redis_ok rd" "blacklist_refresh_token rd"
    "is_blacklisted rd" "blacklisted_until rd" for rd :: "'r redis"
proof unfold_locales
  fix r :: 'r and j e t
  assume ok: "redis_ok rd" and u: "blacklisted_until rd r j = Some e" and t: "t < e"
  from u have "rd_view rd r (KEY_PREFIX @ j) = Some (''1'', e)"
    by (auto simp: blacklisted_until_def split: option.splits prod.splits if_splits)
  with ok t have "rd_get rd t (KEY_PREFIX @ j) r = Inr x \<Longrightarrow> x = Some ''1''" for x
    unfolding redis_ok_def by fastforce
  then show "is_blacklisted rd t j r \<noteq> Inr False"
    by (auto simp: is_blacklisted_def split: sum.splits)
next
  fix t :: millis and j :: string and e :: int and r r' :: 'r
  assume ok: "redis_ok rd" and rev: "blacklist_refresh_token rd t j e r = (Inr (), r')"
    and t: "t < e * 1000"
  from t have "0 < e - t div 1000" by simp
  with rev have "rd_set rd t (KEY_PREFIX @ j) ''1'' (e - t div 1000) r = (Inr (), r')"
    by (simp add: blacklist_refresh_token_def)
  with ok have "rd_view rd r' = (rd_view rd r)(KEY_PREFIX @ j \<mapsto> (''1'', t + (e - t div 1000) * 1000))"
    by (rule redis_set_cases) auto
  then show "\<exists>m \<ge> e * 1000. blacklisted_until rd r' j = Some m"
    using ttl_covers [of e t] by (simp add: blacklisted_until_def)
next
  fix t :: millis and j k :: string and e m :: int and r r' :: 'r and q
  assume ok: "redis_ok rd" and rev: "blacklist_refresh_token rd t j e r = (q, r')"
    and u: "blacklisted_until rd r k = Some m"
  show "\<exists>m'. blacklisted_until rd r' k = Some m' \<and> (if k = j then min m (e * 1000) \<le> m' else m \<le> m')"
  proof (cases "0 < e - t div 1000")
    case False
    with rev u show ?thesis by (auto simp: blacklist_refresh_token_def)
  next
    case True
    with rev have st: "rd_set rd t (KEY_PREFIX @ j) ''1'' (e - t div 1000) r = (q, r')"
      by (simp add: blacklist_refresh_token_def)
    from ok st show ?thesis
    proof (rule redis_set_cases)
      assume "rd_view rd r' = rd_view rd r"
      with u show ?thesis by (auto simp: blacklisted_until_def)
    next
      assume v: "rd_view rd r' = (rd_view rd r)(KEY_PREFIX @ j \<mapsto> (''1'', t + (e - t div 1000) * 1000))"
      show ?thesis
      proof (cases "k = j")
        case True
        with v ttl_covers [of e t] show ?thesis
          by (auto simp: blacklisted_until_def intro: min.coboundedI2)
      next
        case False
        with v u show ?thesis by (auto simp: blacklisted_until_def)
      qed
    qed
  qed
qed

end
