(* ===== verification/Auth_Tokens.thy ===== *)
theory Auth_Tokens
  imports Token_Store Entities
begin

section \<open>JSON web tokens: strategies and guards\<close>

text \<open>
  \<open>apps/gateway/src/modules/auth/strategies\<close> and \<open>guards\<close>. Signing and verifying are the
  JWT library's (\<open>jwt_ok\<close> says what is relied on: a signed token verifies only under the secret it was
  signed with and gives back its claims, verification fails once \<open>exp\<close> has passed, and a token
  has one payload). How passport strings a strategy and a guard
  together is a parameter too, with \<open>passport_ok\<close> its documented callback protocol: a token that
  does not verify reaches \<open>handleRequest\<close> as \<open>info\<close>, an exception of \<open>validate\<close> as \<open>err\<close>.
\<close>

record jwt_payload =
  jp_sub :: "string option"
  jp_type :: "string option"
  jp_jti :: "string option"
  jp_deviceId :: "string option"
  jp_tv :: "nat option"
  jp_iat :: "int option"
  jp_exp :: "int option"

text \<open>A verified payload with the \<open>userId\<close> the strategies add.\<close>

record auth_user =
  us_payload :: jwt_payload
  us_userId :: string

record jwt_lib =
  jwt_sign :: "millis \<Rightarrow> string \<Rightarrow> string \<Rightarrow> jwt_payload \<Rightarrow> string"
    \<comment> \<open>time, secret, \<open>expiresIn\<close>, claims\<close>
  jwt_verify :: "millis \<Rightarrow> string \<Rightarrow> string \<Rightarrow> string + jwt_payload"
    \<comment> \<open>time, secret, token; the name of the error or the payload\<close>

definition same_claims :: "jwt_payload \<Rightarrow> jwt_payload \<Rightarrow> bool" where
  "same_claims p q \<longleftrightarrow>
     jp_sub p = jp_sub q \<and> jp_type p = jp_type q \<and> jp_jti p = jp_jti q
     \<and> jp_deviceId p = jp_deviceId q \<and> jp_tv p = jp_tv q"

definition jwt_ok :: "jwt_lib \<Rightarrow> bool" where
  "jwt_ok lib \<longleftrightarrow>
     (\<forall>now secret t secret' ttl q p.
        jwt_verify lib now secret (jwt_sign lib t secret' ttl q) = Inr p \<longrightarrow>
        secret' = secret \<and> same_claims p q)
     \<and> (\<forall>now secret token p e. jwt_verify lib now secret token = Inr p \<longrightarrow>
          jp_exp p = Some e \<longrightarrow> now < e * 1000)
     \<and> (\<forall>now now2 secret token p p2. jwt_verify lib now secret token = Inr p \<longrightarrow>
          jwt_verify lib now2 secret token = Inr p2 \<longrightarrow> p2 = p)"

lemma jwt_okD:
  assumes "jwt_ok lib"
  shows "jwt_verify lib now secret (jwt_sign lib t secret' ttl q) = Inr p \<Longrightarrow> secret' = secret \<and> same_claims p q"
    and "jwt_verify lib now secret token = Inr p \<Longrightarrow> jp_exp p = Some e \<Longrightarrow> now < e * 1000"
    and "jwt_verify lib now secret token = Inr p \<Longrightarrow> jwt_verify lib now2 secret token = Inr p2 \<Longrightarrow> p2 = p"
  using assms unfolding jwt_ok_def by blast+

subsection \<open>Strategies\<close>

definition jwt_access_validate :: "jwt_payload \<Rightarrow> exn + auth_user" where
  "jwt_access_validate payload =
     (if \<not> truthy (jp_sub payload) then Inl (unauthorized TOKEN_INVALID ''Missing subject'')
      else if jp_type payload \<noteq> Some (account_type_str Autoreg)
              \<and> jp_type payload \<noteq> Some (account_type_str Registered)
      then Inl (unauthorized TOKEN_INVALID ''Wrong token type for this endpoint'')
      else Inr \<lparr>us_payload = payload, us_userId = the (jp_sub payload)\<rparr>)"

definition jwt_refresh_validate ::
  "(string \<Rightarrow> 'r \<Rightarrow> exn + bool) \<Rightarrow> jwt_payload \<Rightarrow> 'r \<Rightarrow> exn + auth_user" where
  "jwt_refresh_validate isBlacklisted payload r =
     (if \<not> truthy (jp_sub payload) \<or> \<not> truthy (jp_jti payload)
      then Inl (unauthorized TOKEN_INVALID ''Invalid refresh token'')
      else if \<not> truthy (jp_deviceId payload)
      then Inl (unauthorized TOKEN_INVALID ''Refresh token missing deviceId - re-login required'')
      else case isBlacklisted (the (jp_jti payload)) r of
        Inl e \<Rightarrow> Inl e
      | Inr True \<Rightarrow> Inl (unauthorized TOKEN_INVALID ''Token has been revoked'')
      | Inr False \<Rightarrow> Inr \<lparr>us_payload = payload, us_userId = the (jp_sub payload)\<rparr>)"

subsection \<open>Guards\<close>

text \<open>
  \<open>handleRequest(err, user, info)\<close>: \<open>info\<close> is the name of the verification error. The access
  guard lets a route marked public through without looking at the token.
\<close>

definition access_handle_request :: "exn option \<Rightarrow> 'u option \<Rightarrow> string option \<Rightarrow> exn + 'u" where
  "access_handle_request err user info =
     (if err \<noteq> None \<or> user = None
      then if info = Some ''TokenExpiredError''
           then Inl (unauthorized TOKEN_EXPIRED ''Access token expired - refresh it'')
           else Inl (unauthorized TOKEN_INVALID ''Authentication required'')
      else Inr (the user))"

definition refresh_handle_request :: "exn option \<Rightarrow> 'u option \<Rightarrow> string option \<Rightarrow> exn + 'u" where
  "refresh_handle_request err user info =
     (if err \<noteq> None \<or> user = None
      then Inl (unauthorized TOKEN_INVALID ''Invalid or expired refresh token'')
      else Inr (the user))"

type_synonym passport =
  "string + jwt_payload \<Rightarrow> (jwt_payload \<Rightarrow> exn + auth_user)
     \<Rightarrow> (exn option \<Rightarrow> auth_user option \<Rightarrow> string option \<Rightarrow> exn + auth_user) \<Rightarrow> exn + auth_user"

definition passport_ok :: "passport \<Rightarrow> bool" where
  "passport_ok pp \<longleftrightarrow>
     (\<forall>info v h. pp (Inl info) v h = h None None (Some info))
     \<and> (\<forall>p v h. pp (Inr p) v h =
          (case v p of Inl e \<Rightarrow> h (Some e) None None | Inr u \<Rightarrow> h None (Some u) None))"

definition can_activate_access ::
  "passport \<Rightarrow> jwt_lib \<Rightarrow> string \<Rightarrow> millis \<Rightarrow> bool \<Rightarrow> string \<Rightarrow> exn + auth_user option" where
  "can_activate_access pp lib secret now isPublic token =
     (if isPublic then Inr None
      else case pp (jwt_verify lib now secret token) jwt_access_validate access_handle_request of
             Inl e \<Rightarrow> Inl e | Inr u \<Rightarrow> Inr (Some u))"

definition can_activate_refresh ::
  "passport \<Rightarrow> jwt_lib \<Rightarrow> string \<Rightarrow> (string \<Rightarrow> 'r \<Rightarrow> exn + bool) \<Rightarrow> millis \<Rightarrow> string \<Rightarrow> 'r \<Rightarrow> exn + auth_user" where
  "can_activate_refresh pp lib secret isBlacklisted now token r =
     pp (jwt_verify lib now secret token) (\<lambda>p. jwt_refresh_validate isBlacklisted p r)
       refresh_handle_request"

subsection \<open>What a guard that opens has checked\<close>

lemma refresh_guard_Inr:
  assumes "passport_ok pp" and "can_activate_refresh pp lib secret bl now token r = Inr u"
  obtains p j where "jwt_verify lib now secret token = Inr p" "us_payload u = p"
    "jp_sub p = Some (us_userId u)" "us_userId u \<noteq> []" "jp_jti p = Some j" "j \<noteq> []"
    "truthy (jp_deviceId p)" "bl j r = Inr False"
proof (cases "jwt_verify lib now secret token")
  case (Inl i)
  with assms show ?thesis
    by (simp add: can_activate_refresh_def passport_ok_def refresh_handle_request_def)
next
  case (Inr p)
  with assms have "jwt_refresh_validate bl p r = Inr u"
    by (auto simp: can_activate_refresh_def passport_ok_def refresh_handle_request_def
        split: sum.splits)
  with Inr that show ?thesis
    by (auto simp: jwt_refresh_validate_def truthy_iff split: if_splits sum.splits bool.splits)
qed

lemma access_guard_Inr:
  assumes "passport_ok pp" and "can_activate_access pp lib secret now False token = Inr (Some u)"
  obtains p a where "jwt_verify lib now secret token = Inr p" "us_payload u = p"
    "jp_sub p = Some (us_userId u)" "us_userId u \<noteq> []" "jp_type p = Some (account_type_str a)"
proof (cases "jwt_verify lib now secret token")
  case (Inl i)
  with assms show ?thesis
    by (auto simp: can_activate_access_def passport_ok_def access_handle_request_def
        split: if_splits)
next
  case (Inr p)
  with assms have "jwt_access_validate p = Inr u"
    by (auto simp: can_activate_access_def passport_ok_def access_handle_request_def
        split: sum.splits if_splits)
  with Inr that [of p Autoreg] that [of p Registered] show ?thesis
    by (auto simp: jwt_access_validate_def truthy_iff split: if_splits)
qed

lemma refresh_guard_errors:
  assumes "passport_ok pp" and "can_activate_refresh pp lib secret bl now token r = Inl e"
  shows "e = unauthorized TOKEN_INVALID ''Invalid or expired refresh token''"
  using assms
  by (cases "jwt_verify lib now secret token")
    (auto simp: can_activate_refresh_def passport_ok_def refresh_handle_request_def
      split: sum.splits)

end
