(* ===== verification/Parse_Platform.thy ===== *)
theory Parse_Platform
  imports Store
begin

section \<open>Edge helpers: platform detection, trackers, identifiers\<close>

text \<open>
  The small pure functions of the gateway: \<open>parsePlatformFromUserAgent\<close>
  (\<open>common/utils/parse-platform.ts\<close>), the tracker of \<open>FingerprintThrottlerGuard\<close>
  (\<open>common/guards\<close>), \<open>ParseObjectIdPipe\<close> (\<open>libs/common/src/pipes\<close>), the skip list of
  \<open>HttpLogInterceptor\<close>, the request id of \<open>RequestIdInterceptor\<close> and \<open>requireDeviceId\<close>
  (\<open>modules/auth/auth.controller.ts\<close>).
\<close>

subsection \<open>Regular expressions, as suffix matchers\<close>

text \<open>A matcher gives the rest of the text after a match at its start, if there is one.\<close>

type_synonym matcher = "string \<Rightarrow> string option"

definition lit :: "string \<Rightarrow> matcher" where
  "lit w s = (if prefix w s then Some (drop (length w) s) else None)"

definition then_spaces :: "matcher \<Rightarrow> string \<Rightarrow> matcher" where
  "then_spaces m w s = (case m s of None \<Rightarrow> None | Some rest \<Rightarrow> lit w (dropWhile js_space rest))"

text \<open>\<open>\b\<close> before and after: the neighbours of the match are no word characters.\<close>

fun bounded :: "matcher \<Rightarrow> bool \<Rightarrow> string \<Rightarrow> bool" where
  "bounded m prev [] = False"
| "bounded m prev (c # s) =
     (\<not> prev \<and> (case m (c # s) of
                  None \<Rightarrow> False
                | Some rest \<Rightarrow> rest = [] \<or> \<not> word_char (hd rest))
      \<or> bounded m (word_char c) s)"

fun semicolon_ios :: "string \<Rightarrow> bool" where
  "semicolon_ios [] = False"
| "semicolon_ios (c # s) =
     (c = CHR '';'' \<and>
        (case lit ''ios'' (dropWhile js_space s) of
           None \<Rightarrow> False
         | Some [] \<Rightarrow> False
         | Some (d # _) \<Rightarrow> d = CHR '';'' \<or> d = CHR '')'' \<or> js_space d)
      \<or> semicolon_ios s)"

definition ios_matchers :: "matcher list" where
  "ios_matchers =
     [lit ''darwin'', lit ''cfnetwork'', lit ''cupertino'', then_spaces (lit ''iphone'') ''os'', lit ''ios'']"

definition parse_platform :: "string option \<Rightarrow> platform option" where
  "parse_platform ua =
     (if \<not> truthy ua then None
      else let lower = js_lower (the ua) in
        if list_ex (\<lambda>m. bounded m False lower) ios_matchers \<or> semicolon_ios lower then Some Ios
        else if bounded (lit ''android'') False lower then Some Android
        else None)"

subsection \<open>The throttler's tracker key\<close>

fun ends_with :: "string \<Rightarrow> string \<Rightarrow> bool" where
  "ends_with s suf = suffix suf s"

text \<open>
  The body's \<open>deviceFingerprint\<close> and the user's \<open>userId\<close> are untyped; \<open>ip\<close> is the tracker
  of the base class.
\<close>

definition get_tracker :: "string \<Rightarrow> jsval \<Rightarrow> jsval \<Rightarrow> string \<Rightarrow> string" where
  "get_tracker path body user ip =
     (if ends_with path ''/auth/autoreg'' \<and> is_non_empty_string (js_get body ''deviceFingerprint'')
      then (case js_get body ''deviceFingerprint'' of JStr f \<Rightarrow> ''fp:'' @ f | _ \<Rightarrow> [])
      else if js_truthy user \<and> is_non_empty_string (js_get user ''userId'')
      then (case js_get user ''userId'' of JStr u \<Rightarrow> ip @ '':u:'' @ u | _ \<Rightarrow> [])
      else ip)"

subsection \<open>Identifiers\<close>

definition hex_char :: "char \<Rightarrow> bool" where
  "hex_char c \<longleftrightarrow>
     (let n = (of_char c :: nat)
      in 48 \<le> n \<and> n \<le> 57 \<or> 65 \<le> n \<and> n \<le> 70 \<or> 97 \<le> n \<and> n \<le> 102)"

definition parse_object_id :: "string option \<Rightarrow> jsval \<Rightarrow> exn + jsval" where
  "parse_object_id field value =
     (case value of
        JStr s \<Rightarrow>
          if length s = 24 \<and> list_all hex_char s then Inr value
          else Inl (HttpExn (JNum 400)
            (JObj [(''statusCode'', JNum 400), (''code'', JStr ''invalid_object_id''),
                   (''message'', JStr (nullish field ''id'' @ '' must be a 24-character hexadecimal string''))])
            (nullish field ''id'' @ '' must be a 24-character hexadecimal string''))
      | _ \<Rightarrow>
          Inl (HttpExn (JNum 400)
            (JObj [(''statusCode'', JNum 400), (''code'', JStr ''invalid_object_id''),
                   (''message'', JStr (nullish field ''id'' @ '' must be a 24-character hexadecimal string''))])
            (nullish field ''id'' @ '' must be a 24-character hexadecimal string'')))"

definition require_device_id :: "string option \<Rightarrow> exn + string" where
  "require_device_id headerValue =
     (let v = js_trim (nullish headerValue []) in
      if v = [] then Inl (http_exn 400 ''device_id_required'' ''x-device-id header is required'')
      else Inr v)"

subsection \<open>Request ids and the access log\<close>

definition request_trace_id :: "string option \<Rightarrow> string \<Rightarrow> string" where
  "request_trace_id header generated = nullish header generated"

definition skip_prefixes :: "string list" where
  "skip_prefixes = [''/health'', ''/docs'', ''/favicon'']"

definition logs_request :: "bool \<Rightarrow> string option \<Rightarrow> string option \<Rightarrow> bool" where
  "logs_request isHttp originalUrl url =
     (isHttp \<and> \<not> list_ex (\<lambda>p. prefix p (nullish (or_else originalUrl url) [])) skip_prefixes)"

subsection \<open>Lemmas\<close>

lemma lit_Some: "lit w s = Some b \<longleftrightarrow> s = w @ b"
  by (auto simp: lit_def prefix_def)

lemma case_lit: "(case lit w s of None \<Rightarrow> False | Some rest \<Rightarrow> P rest) \<longleftrightarrow> (\<exists>b. s = w @ b \<and> P b)"
  by (cases "lit w s") (auto simp: lit_Some [symmetric])

lemma bounded_lit_iff:
  "bounded (lit w) prev s \<longleftrightarrow>
     (\<exists>a b. s = a @ w @ b \<and> s \<noteq> a \<and> (if a = [] then \<not> prev else \<not> word_char (last a))
        \<and> (b = [] \<or> \<not> word_char (hd b)))"
proof (induction s arbitrary: prev)
  case Nil
  then show ?case by auto
next
  case (Cons c s)
  let ?hit = "\<lambda>a b. (b = [] \<or> \<not> word_char (hd b))"
  have here: "(case lit w (c # s) of None \<Rightarrow> False | Some rest \<Rightarrow> rest = [] \<or> \<not> word_char (hd rest))
      \<longleftrightarrow> (\<exists>b. c # s = w @ b \<and> (b = [] \<or> \<not> word_char (hd b)))"
    by (rule case_lit)
  show ?case (is "?l \<longleftrightarrow> ?r")
  proof
    assume ?l
    then consider "\<not> prev" "\<exists>b. c # s = w @ b \<and> (b = [] \<or> \<not> word_char (hd b))"
      | "bounded (lit w) (word_char c) s" using here by auto
    then show ?r
    proof cases
      case 1
      then obtain b where "c # s = w @ b" "b = [] \<or> \<not> word_char (hd b)" by blast
      with \<open>\<not> prev\<close> show ?thesis by - (rule exI [of _ "[]"], rule exI [of _ b], auto)
    next
      case 2
      with Cons.IH obtain a b where "s = a @ w @ b" "s \<noteq> a"
        "if a = [] then \<not> word_char c else \<not> word_char (last a)" "b = [] \<or> \<not> word_char (hd b)"
        by metis
      then show ?thesis by (intro exI [of _ "c # a"] exI [of _ b]) (auto split: if_splits)
    qed
  next
    assume ?r
    then obtain a b where ab: "c # s = a @ w @ b" "c # s \<noteq> a"
      "if a = [] then \<not> prev else \<not> word_char (last a)" "b = [] \<or> \<not> word_char (hd b)" by metis
    show ?l
    proof (cases a)
      case Nil
      with ab have "\<exists>b. c # s = w @ b \<and> (b = [] \<or> \<not> word_char (hd b))" and "\<not> prev" by auto
      with here show ?thesis unfolding bounded.simps by blast
    next
      case (Cons d a')
      with ab have "s = a' @ w @ b" "s \<noteq> a'" "if a' = [] then \<not> word_char c else \<not> word_char (last a')"
        by (auto split: if_splits)
      with ab(4) Cons.IH [of "word_char c"] have "bounded (lit w) (word_char c) s" by blast
      then show ?thesis by simp
    qed
  qed
qed

lemma require_device_id_Inr:
  "require_device_id h = Inr v \<longleftrightarrow> (\<exists>raw. h = Some raw \<and> v = js_trim raw \<and> v \<noteq> [])"
  by (cases h) (auto simp: require_device_id_def Let_def)

lemma parse_object_id_Inr:
  "parse_object_id f v = Inr w \<longleftrightarrow> w = v \<and> (\<exists>s. v = JStr s \<and> length s = 24 \<and> list_all hex_char s)"
  by (auto simp: parse_object_id_def split: jsval.splits)

end
