(* ===== verification/OAuth.thy ===== *)
theory OAuth
  imports Parse_Platform Email_Service
begin

section \<open>OAuth verifiers\<close>

text \<open>
  \<open>apps/gateway/src/modules/auth/oauth\<close>: the VK and Yandex verifiers and the factory that picks
  one. The network is a parameter: \<open>fetch\<close> takes a request and the state of the world and gives
  the message of a network error (a timeout included) or the response. A response is its status and
  its body read as JSON (\<open>None\<close> when it is not JSON). Reading the header of a JWT (base64url and
  JSON) is a parameter as well, and so is which texts hold a lone surrogate (\<open>lone\<close>, the negation of
  \<open>String.prototype.isWellFormed\<close>): Latin-1 strings have none, those of the program may. Profile fields
  the source declares as strings are read as strings.
\<close>

datatype http_request =
    UserInfo string string             \<comment> \<open>url, \<open>Authorization\<close> header\<close>
  | PublicInfo string string string    \<comment> \<open>url, \<open>client_id\<close>, \<open>id_token\<close>\<close>
  | UsersGet string                    \<comment> \<open>url\<close>

record http_response =
  rs_status :: nat
  rs_json :: "jsval option"

type_synonym 'n fetch = "http_request \<Rightarrow> 'n \<Rightarrow> (string + http_response) \<times> 'n"

definition rs_ok :: "http_response \<Rightarrow> bool" where
  "rs_ok res \<longleftrightarrow> 200 \<le> rs_status res \<and> rs_status res \<le> 299"

record identity =
  id_providerUserId :: string
  id_email :: "string option"
  id_emailVerified :: "bool option"
  id_name :: "string option"

record hints =
  hint_platform :: "platform option"

subsection \<open>Reading profiles\<close>

fun str_field :: "jsval \<Rightarrow> string option" where
  "str_field (JStr s) = Some s"
| "str_field _ = None"

definition show_num :: "int \<Rightarrow> string" where
  "show_num n = (if n < 0 then CHR ''-'' # show_digits (nat (- n)) else show_digits (nat n))"

text \<open>\<open>String(v)\<close>.\<close>

fun js_string :: "jsval \<Rightarrow> string" where
  "js_string JUndef = ''undefined''"
| "js_string JNull = ''null''"
| "js_string (JBool b) = (if b then ''true'' else ''false'')"
| "js_string (JNum n) = show_num n"
| "js_string (JStr s) = s"
| "js_string (JArr vs) = join_with '','' (map (\<lambda>v. if js_nullish v then [] else js_string v) vs)"
| "js_string (JObj _) = ''[object Object]''"
| "js_string (JNative _ s) = s"

text \<open>
  The conversion can throw: an object read from JSON that has a \<open>toString\<close> of its own has no callable one,
  and the inherited \<open>valueOf\<close> gives an object again. An array converts its elements.
\<close>

fun string_fails :: "jsval \<Rightarrow> bool" where
  "string_fails (JObj kvs) = (''toString'' \<in> set (map fst kvs))"
| "string_fails (JArr vs) = list_ex string_fails vs"
| "string_fails _ = False"

definition not_primitive :: exn where
  "not_primitive = plain_error ''Cannot convert object to primitive value''"

definition to_js_string :: "jsval \<Rightarrow> exn + string" where
  "to_js_string v = (if string_fails v then Inl not_primitive else Inr (js_string v))"

text \<open>\<open>encodeURIComponent\<close> of any text.\<close>

definition uri_malformed :: exn where
  "uri_malformed = plain_error ''URI malformed''"

definition encode_uri :: "(string \<Rightarrow> bool) \<Rightarrow> string \<Rightarrow> exn + string" where
  "encode_uri lone s = (if lone s then Inl uri_malformed else Inr (encode_uri_component s))"

text \<open>The non-empty strings among the parts, joined by a space; \<open>composeName\<close> also trims.\<close>

definition join_parts :: "jsval list \<Rightarrow> string" where
  "join_parts parts = join_with '' '' (map (the \<circ> str_field) (filter is_non_empty_string parts))"

definition compose_name :: "jsval list \<Rightarrow> string option" where
  "compose_name parts = (let text = js_trim (join_parts parts) in if text = [] then None else Some text)"

definition upstream_unavailable :: "string \<Rightarrow> exn" where
  "upstream_unavailable message = service_unavailable ''oauth_upstream_unavailable'' message"

text \<open>\<open>res.json().catch(() => null)\<close>.\<close>

definition json_or_null :: "http_response \<Rightarrow> jsval" where
  "json_or_null res = nullish (rs_json res) JNull"

subsection \<open>Yandex\<close>

definition DEFAULT_YANDEX_USERINFO_URL :: string where
  "DEFAULT_YANDEX_USERINFO_URL = ''https://login.yandex.ru/info''"

text \<open>
  Both providers' user-info calls are made at most twice: a second time when the first response is
  a 5xx. A network error is never retried.
\<close>

definition yandex_fetch_with_retry ::
  "'n fetch \<Rightarrow> string \<Rightarrow> string \<Rightarrow> 'n \<Rightarrow> (exn + http_response) \<times> 'n" where
  "yandex_fetch_with_retry fetch userInfoUrl token n =
     (let req = UserInfo (userInfoUrl @ ''?format=json'') (''OAuth '' @ token) in
      case fetch req n of
        (Inl err, n1) \<Rightarrow> (Inl (upstream_unavailable ''Yandex ID is temporarily unavailable''), n1)
      | (Inr res, n1) \<Rightarrow>
          if 500 \<le> rs_status res
          then (case fetch req n1 of
                  (Inl err, n2) \<Rightarrow> (Inl (upstream_unavailable ''Yandex ID is temporarily unavailable''), n2)
                | (Inr res2, n2) \<Rightarrow> (Inr res2, n2))
          else (Inr res, n1))"

definition yandex_name :: "jsval \<Rightarrow> string option" where
  "yandex_name body =
     (let composed = join_parts [js_get body ''first_name'', js_get body ''last_name''];
          real = str_field (js_get body ''real_name'');
          login = str_field (js_get body ''login'');
          name = (if truthy real then real else if composed \<noteq> [] then Some composed else login)
      in if truthy name then name else None)"

definition yandex_identity :: "jsval \<Rightarrow> exn + identity" where
  "yandex_identity body =
     (if \<not> js_truthy body \<or> \<not> js_truthy (js_get body ''id'')
      then Inl (unauthorized TOKEN_INVALID ''Yandex returned an unexpected payload'')
      else Inr \<lparr>id_providerUserId = js_string (js_get body ''id''),
                id_email = str_field (js_get body ''default_email''),
                id_emailVerified = Some (is_non_empty_string (js_get body ''default_email'')),
                id_name = yandex_name body\<rparr>)"

definition yandex_verify ::
  "'n fetch \<Rightarrow> string option \<Rightarrow> string \<Rightarrow> hints \<Rightarrow> 'n \<Rightarrow> (exn + identity) \<times> 'n" where
  "yandex_verify fetch configuredUrl token hints n =
     (if token = [] then (Inl (unauthorized TOKEN_INVALID ''Yandex token required''), n)
      else
        case yandex_fetch_with_retry fetch (nullish configuredUrl DEFAULT_YANDEX_USERINFO_URL) token n of
          (Inl e, n') \<Rightarrow> (Inl e, n')
        | (Inr res, n') \<Rightarrow>
            if rs_status res = 401 \<or> rs_status res = 403
            then (Inl (unauthorized TOKEN_INVALID ''Yandex rejected the token''), n')
            else if 500 \<le> rs_status res
            then (Inl (upstream_unavailable (''Yandex returned '' @ show_digits (rs_status res))), n')
            else if \<not> rs_ok res
            then (Inl (unauthorized TOKEN_INVALID (''Yandex returned '' @ show_digits (rs_status res))), n')
            else (yandex_identity (json_or_null res), n'))"

subsection \<open>VK\<close>

record vk_config =
  vk_androidId :: "string option"
  vk_iosId :: "string option"
  vk_publicInfoUrl :: "string option"
  vk_userInfoUrl :: "string option"

definition DEFAULT_VK_PUBLIC_INFO_URL :: string where
  "DEFAULT_VK_PUBLIC_INFO_URL = ''https://id.vk.com/oauth2/public_info''"

definition DEFAULT_VK_USERINFO_URL :: string where
  "DEFAULT_VK_USERINFO_URL = ''https://api.vk.com/method/users.get''"

definition ordered_client_ids :: "vk_config \<Rightarrow> hints \<Rightarrow> string list" where
  "ordered_client_ids cfg h =
     (let ordered = (if hint_platform h = Some Ios then [vk_iosId cfg, vk_androidId cfg]
                     else [vk_androidId cfg, vk_iosId cfg])
      in map the (filter truthy ordered))"

definition looks_like_jwt :: "(string \<Rightarrow> jsval option) \<Rightarrow> string \<Rightarrow> bool" where
  "looks_like_jwt parse_header token =
     (let parts = split_on CHR ''.'' token in
      if length parts \<noteq> 3 then False
      else case parse_header (hd parts) of
        None \<Rightarrow> False
      | Some header \<Rightarrow> is_non_empty_string (js_get header ''alg''))"

text \<open>The three results of \<open>tryPublicInfo\<close>, and the exception that may leave it.\<close>

datatype public_info = InfoOk identity | InfoRejected string | InfoUpstream string | InfoThrown exn

definition vk_identity :: "jsval \<Rightarrow> identity" where
  "vk_identity user =
     \<lparr>id_providerUserId = js_string (js_get user ''user_id''),
      id_email = (if is_non_empty_string (js_get user ''email'') then str_field (js_get user ''email'') else None),
      id_emailVerified = Some (js_truthy (js_get user ''email'') \<and> js_get user ''verified'' = JBool True),
      id_name = compose_name [js_get user ''first_name'', js_get user ''last_name'']\<rparr>"

definition try_public_info ::
  "'n fetch \<Rightarrow> vk_config \<Rightarrow> string \<Rightarrow> string \<Rightarrow> 'n \<Rightarrow> public_info \<times> 'n" where
  "try_public_info fetch cfg clientId idToken n =
     (case fetch (PublicInfo (nullish (vk_publicInfoUrl cfg) DEFAULT_VK_PUBLIC_INFO_URL) clientId idToken) n of
        (Inl err, n') \<Rightarrow> (InfoUpstream (''VK public_info network error: '' @ err), n')
      | (Inr res, n') \<Rightarrow>
          if 500 \<le> rs_status res
          then (InfoUpstream (''VK public_info returned '' @ show_digits (rs_status res)), n')
          else
            let payload = json_or_null res;
                user = js_get payload ''user'' in
            if \<not> js_truthy payload \<or> js_truthy (js_get payload ''error'')
               \<or> \<not> js_truthy (js_get user ''user_id'')
            then (case to_js_string (js_or (js_get payload ''error_description'')
                                 (js_or (js_get payload ''error'') (JStr ''unknown''))) of
                    Inl e \<Rightarrow> (InfoThrown e, n')
                  | Inr m \<Rightarrow> (InfoRejected (''client_id='' @ clientId @ '': '' @ m), n'))
            else (case to_js_string (js_get user ''user_id'') of
                    Inl e \<Rightarrow> (InfoThrown e, n')
                  | Inr i \<Rightarrow> (InfoOk (vk_identity user), n')))"

text \<open>The loop over the whitelisted client ids.\<close>

fun try_client_ids ::
  "'n fetch \<Rightarrow> vk_config \<Rightarrow> string \<Rightarrow> string list \<Rightarrow> 'n \<Rightarrow> (exn + identity) \<times> 'n" where
  "try_client_ids fetch cfg idToken [] n = (Inl (unauthorized TOKEN_INVALID ''VK rejected the token''), n)"
| "try_client_ids fetch cfg idToken (clientId # rest) n =
     (case try_public_info fetch cfg clientId idToken n of
        (InfoOk i, n') \<Rightarrow> (Inr i, n')
      | (InfoUpstream m, n') \<Rightarrow> (Inl (upstream_unavailable m), n')
      | (InfoThrown e, n') \<Rightarrow> (Inl e, n')
      | (InfoRejected m, n') \<Rightarrow> try_client_ids fetch cfg idToken rest n')"

definition verify_id_token ::
  "'n fetch \<Rightarrow> vk_config \<Rightarrow> string \<Rightarrow> hints \<Rightarrow> 'n \<Rightarrow> (exn + identity) \<times> 'n" where
  "verify_id_token fetch cfg idToken h n =
     (let clientIds = ordered_client_ids cfg h in
      if clientIds = []
      then (Inl (unauthorized TOKEN_INVALID
              ''VK OAuth is not configured on this server - set VK_ANDROID_APP_ID / VK_IOS_APP_ID''), n)
      else try_client_ids fetch cfg idToken clientIds n)"

text \<open>The body of \<open>verifyAccessToken\<close> after the calls: what VK said about the token.\<close>

definition vk_profile :: "jsval \<Rightarrow> exn + identity" where
  "vk_profile body =
     (let response = js_get body ''response'';
          profile = (case response of JArr vs \<Rightarrow> (if vs = [] then JUndef else hd vs) | _ \<Rightarrow> response)
      in if \<not> js_truthy body \<or> js_truthy (js_get body ''error'') \<or> \<not> js_truthy (js_get profile ''id'')
         then Inl (unauthorized TOKEN_INVALID ''VK rejected the token'')
         else case to_js_string (js_get profile ''id'') of
                Inl e \<Rightarrow> Inl e
              | Inr i \<Rightarrow> Inr \<lparr>id_providerUserId = i, id_email = None, id_emailVerified = None,
                   id_name = compose_name [js_get profile ''first_name'', js_get profile ''last_name'']\<rparr>)"

definition verify_access_token ::
  "'n fetch \<Rightarrow> (string \<Rightarrow> bool) \<Rightarrow> vk_config \<Rightarrow> string \<Rightarrow> 'n \<Rightarrow> (exn + identity) \<times> 'n" where
  "verify_access_token fetch lone cfg accessToken n =
     (case encode_uri lone accessToken of
        Inl e \<Rightarrow> (Inl e, n)
      | Inr encoded \<Rightarrow>
          let req = UsersGet (nullish (vk_userInfoUrl cfg) DEFAULT_VK_USERINFO_URL @ ''?access_token=''
                      @ encoded @ ''&v=5.131'');
              unavailable = upstream_unavailable ''VK is temporarily unavailable'' in
          case fetch req n of
            (Inl err, n1) \<Rightarrow> (Inl unavailable, n1)
          | (Inr res, n1) \<Rightarrow>
              (case (if 500 \<le> rs_status res
                     then (case fetch req n1 of
                             (Inl err, n2) \<Rightarrow> (Inl unavailable, n2)
                           | (Inr res2, n2) \<Rightarrow> (Inr res2, n2))
                     else (Inr res, n1)) of
                 (Inl e, n3) \<Rightarrow> (Inl e, n3)
               | (Inr res3, n3) \<Rightarrow>
                   if 500 \<le> rs_status res3
                   then (Inl (upstream_unavailable (''VK returned '' @ show_digits (rs_status res3))), n3)
                   else (vk_profile (json_or_null res3), n3)))"

definition vk_verify ::
  "'n fetch \<Rightarrow> (string \<Rightarrow> bool) \<Rightarrow> (string \<Rightarrow> jsval option) \<Rightarrow> vk_config \<Rightarrow> string \<Rightarrow> hints \<Rightarrow> 'n
     \<Rightarrow> (exn + identity) \<times> 'n"
where
  "vk_verify fetch lone parse_header cfg token h n =
     (if token = [] then (Inl (unauthorized TOKEN_INVALID ''VK token required''), n)
      else if looks_like_jwt parse_header token then verify_id_token fetch cfg token h n
      else verify_access_token fetch lone cfg token n)"

subsection \<open>The factory\<close>

text \<open>
  \<open>this.verifiers[provider]\<close> on an object literal: one of its two keys, or a property it inherits
  from \<open>Object.prototype\<close>, which is truthy and no verifier.
\<close>

datatype verifier = Vk | Yandex | InheritedProperty

definition factory_for :: "string \<Rightarrow> exn + verifier" where
  "factory_for provider =
     (if provider = ''vk'' then Inr Vk
      else if provider = ''yandex'' then Inr Yandex
      else if provider \<in> set object_prototype_keys then Inr InheritedProperty
      else Inl (unauthorized TOKEN_INVALID
             (''OAuth provider '' @ [CHR 0x27] @ provider @ [CHR 0x27] @ '' not supported on the server'')))"

subsection \<open>The contract of a verifier\<close>

text \<open>
  \<open>OAuthVerifier.verify\<close> as its interface documents it: the failures are a 401 \<open>token_invalid\<close> and a 503
  for an upstream outage; without a token the network is not touched. \<open>odd token e\<close> is what a verifier may
  throw beyond that.
\<close>

definition oauth_error :: "exn \<Rightarrow> bool" where
  "oauth_error e \<longleftrightarrow> (\<exists>m. e = unauthorized TOKEN_INVALID m) \<or> (\<exists>m. e = upstream_unavailable m)"

lemma oauth_error_intros [simp]:
  "oauth_error (unauthorized TOKEN_INVALID m)" "oauth_error (upstream_unavailable m)"
  by (auto simp: oauth_error_def)

locale oauth_verifier =
  fixes verify :: "string \<Rightarrow> hints \<Rightarrow> 'n \<Rightarrow> (exn + identity) \<times> 'n"
    and odd :: "string \<Rightarrow> exn \<Rightarrow> bool"
  assumes fails_cleanly: "verify token h n = (Inl e, n') \<Longrightarrow> oauth_error e \<or> odd token e"
    and needs_token: "\<exists>m. verify [] h n = (Inl (unauthorized TOKEN_INVALID m), n)"
begin

lemma fails_as_http:
  assumes "verify token h n = (Inl e, n')" and "\<not> odd token e"
  shows "\<exists>st res m. e = HttpExn st res m \<and> st \<in> {JNum 401, JNum 503}"
  using fails_cleanly [OF assms(1)] assms(2)
  by (auto simp: oauth_error_def upstream_unavailable_def http_exns)

lemma identity_needs_token: "verify token h n = (Inr i, n') \<Longrightarrow> token \<noteq> []"
  using needs_token [of h n] by auto

end

subsection \<open>Both verifiers meet it\<close>

lemma fetch_with_retry_errors:
  "yandex_fetch_with_retry fetch url tok n = (Inl e, n') \<Longrightarrow> oauth_error e"
  by (auto simp: yandex_fetch_with_retry_def Let_def split: prod.splits sum.splits if_splits)

lemma yandex_identity_errors: "yandex_identity body = Inl e \<Longrightarrow> oauth_error e"
  by (auto simp: yandex_identity_def split: if_splits)

interpretation yandex: oauth_verifier "yandex_verify fetch url" "\<lambda>_ _. False"
  for fetch :: "'n fetch" and url :: "string option"
  by unfold_locales
    (auto simp: yandex_verify_def split: if_splits prod.splits sum.splits
      dest: fetch_with_retry_errors yandex_identity_errors)

text \<open>
  VK's verifier throws two things more: what \<open>encodeURIComponent\<close> makes of an access token with a lone
  surrogate, and the conversion of an answer whose fields have no text.
\<close>

definition unprintable :: "http_response \<Rightarrow> bool" where
  "unprintable res \<longleftrightarrow>
     (let body = json_or_null res; response = js_get body ''response'';
          profile = (case response of JArr vs \<Rightarrow> (if vs = [] then JUndef else hd vs) | _ \<Rightarrow> response)
      in list_ex string_fails
           [js_get body ''error_description'', js_get body ''error'', js_get (js_get body ''user'') ''user_id'',
            js_get profile ''id''])"

definition vk_odd :: "'n fetch \<Rightarrow> (string \<Rightarrow> bool) \<Rightarrow> (string \<Rightarrow> jsval option) \<Rightarrow> string \<Rightarrow> exn \<Rightarrow> bool" where
  "vk_odd fetch lone ph token e \<longleftrightarrow>
     e = uri_malformed \<and> lone token \<and> \<not> looks_like_jwt ph token
     \<or> e = not_primitive \<and> (\<exists>req n res n'. fetch req n = (Inr res, n') \<and> unprintable res)"

lemma to_js_string_Inl: "to_js_string v = Inl e \<longleftrightarrow> string_fails v \<and> e = not_primitive"
  by (auto simp: to_js_string_def)

lemma js_or_fails: "string_fails (js_or v w) \<Longrightarrow> string_fails v \<or> string_fails w"
  by (auto simp: js_or_def split: if_splits)

lemma try_public_info_thrown:
  "try_public_info fetch cfg cid tok n = (InfoThrown e, n') \<Longrightarrow>
     e = not_primitive \<and> (\<exists>req k res k'. fetch req k = (Inr res, k') \<and> unprintable res)"
  by (auto simp: try_public_info_def Let_def to_js_string_Inl unprintable_def dest!: js_or_fails
      split: prod.splits sum.splits if_splits)

lemma try_client_ids_contract:
  "try_client_ids fetch cfg tok cids n = (Inl e, n') \<Longrightarrow>
     oauth_error e \<or> e = not_primitive \<and> (\<exists>req k res k'. fetch req k = (Inr res, k') \<and> unprintable res)"
proof (induction cids arbitrary: n)
  case (Cons c cs)
  obtain pi n1 where "try_public_info fetch cfg c tok n = (pi, n1)" by fastforce
  with Cons try_public_info_thrown [of fetch cfg c tok n] show ?case by (cases pi) auto
qed auto

lemma vk_profile_contract:
  "vk_profile (json_or_null res) = Inl e \<Longrightarrow> oauth_error e \<or> e = not_primitive \<and> unprintable res"
  by (auto simp: vk_profile_def Let_def to_js_string_Inl unprintable_def split: if_splits sum.splits)

lemma verify_access_token_contract:
  assumes "verify_access_token fetch lone cfg tok n = (Inl e, n')"
  shows "oauth_error e \<or> e = uri_malformed \<and> lone tok
    \<or> e = not_primitive \<and> (\<exists>req k res k'. fetch req k = (Inr res, k') \<and> unprintable res)"
  using assms
  by (auto simp: verify_access_token_def encode_uri_def Let_def split: prod.splits sum.splits if_splits
      dest!: vk_profile_contract)

lemma vk_verify_contract:
  "vk_verify fetch lone ph cfg tok h n = (Inl e, n') \<Longrightarrow> oauth_error e \<or> vk_odd fetch lone ph tok e"
  by (auto simp: vk_verify_def verify_id_token_def vk_odd_def Let_def split: if_splits
      dest!: try_client_ids_contract verify_access_token_contract)

interpretation vk: oauth_verifier "vk_verify fetch lone ph cfg" "vk_odd fetch lone ph"
  for fetch :: "'n fetch" and lone :: "string \<Rightarrow> bool" and ph :: "string \<Rightarrow> jsval option" and cfg :: vk_config
  by unfold_locales (erule vk_verify_contract, auto simp: vk_verify_def)

subsection \<open>What goes over the network\<close>

text \<open>A world that also keeps the log of requests.\<close>

definition logged :: "'n fetch \<Rightarrow> (http_request list \<times> 'n) fetch" where
  "logged fetch req ln =
     (let (r, n') = fetch req (snd ln) in (r, (fst ln @ [req], n')))"

lemma logged_log: "logged fetch req (l, n) = (r, w) \<Longrightarrow> \<exists>n'. w = (l @ [req], n')"
  by (auto simp: logged_def split: prod.splits)

definition vk_request :: "vk_config \<Rightarrow> string \<Rightarrow> http_request \<Rightarrow> bool" where
  "vk_request cfg tok req \<longleftrightarrow>
     (case req of
        PublicInfo url cid t \<Rightarrow>
          url = nullish (vk_publicInfoUrl cfg) DEFAULT_VK_PUBLIC_INFO_URL \<and> t = tok
          \<and> Some cid \<in> {vk_androidId cfg, vk_iosId cfg} \<and> cid \<noteq> []
      | UsersGet url \<Rightarrow>
          url = nullish (vk_userInfoUrl cfg) DEFAULT_VK_USERINFO_URL @ ''?access_token=''
                  @ encode_uri_component tok @ ''&v=5.131''
      | UserInfo _ _ \<Rightarrow> False)"

lemma try_client_ids_log:
  "try_client_ids (logged fetch) cfg tok cids (l, n) = (r, w) \<Longrightarrow>
     \<forall>c \<in> set cids. Some c \<in> {vk_androidId cfg, vk_iosId cfg} \<and> c \<noteq> [] \<Longrightarrow>
     \<exists>l' n'. w = (l @ l', n') \<and> length l' \<le> length cids \<and> (\<forall>q \<in> set l'. vk_request cfg tok q)"
proof (induction cids arbitrary: l n)
  case (Cons c cs)
  let ?q = "PublicInfo (nullish (vk_publicInfoUrl cfg) DEFAULT_VK_PUBLIC_INFO_URL) c tok"
  obtain pi w1 where pi: "try_public_info (logged fetch) cfg c tok (l, n) = (pi, w1)" by (rule prod.exhaust)
  then obtain n1 where w1: "w1 = (l @ [?q], n1)"
    by (auto simp: try_public_info_def Let_def dest!: logged_log split: prod.splits sum.splits if_splits)
  have q: "vk_request cfg tok ?q" using Cons.prems(2) by (auto simp: vk_request_def)
  have "w = w1 \<or> try_client_ids (logged fetch) cfg tok cs w1 = (r, w)"
    using Cons.prems(1) pi by (auto split: public_info.splits)
  then show ?case
  proof
    assume "w = w1"
    with w1 q show ?thesis by (intro exI [of _ "[?q]"] exI [of _ n1]) simp
  next
    assume "try_client_ids (logged fetch) cfg tok cs w1 = (r, w)"
    with Cons.IH [of "l @ [?q]" n1] Cons.prems(2) w1 obtain l' n' where
      "w = ((l @ [?q]) @ l', n')" "length l' \<le> length cs" "\<forall>q \<in> set l'. vk_request cfg tok q" by auto
    with q show ?thesis by (intro exI [of _ "?q # l'"] exI [of _ n']) simp
  qed
qed auto

lemma ordered_client_ids_whitelist:
  "c \<in> set (ordered_client_ids cfg h) \<Longrightarrow> Some c \<in> {vk_androidId cfg, vk_iosId cfg} \<and> c \<noteq> []"
  "length (ordered_client_ids cfg h) \<le> 2"
  by (cases "vk_androidId cfg"; cases "vk_iosId cfg";
      auto simp: ordered_client_ids_def Let_def split: if_splits)+

lemma verify_access_token_log:
  assumes "verify_access_token (logged fetch) lone cfg tok (l, n) = (r, w)"
  shows "\<exists>l' n'. w = (l @ l', n') \<and> length l' \<le> 2 \<and> (\<forall>q \<in> set l'. vk_request cfg tok q)"
proof (cases "lone tok")
  case True
  with assms show ?thesis by (auto simp: verify_access_token_def encode_uri_def)
next
  case False
  let ?q = "UsersGet (nullish (vk_userInfoUrl cfg) DEFAULT_VK_USERINFO_URL @ ''?access_token=''
                  @ encode_uri_component tok @ ''&v=5.131'')"
  obtain r1 w1 where f1: "logged fetch ?q (l, n) = (r1, w1)" by (rule prod.exhaust)
  obtain r2 w2 where f2: "logged fetch ?q w1 = (r2, w2)" by (rule prod.exhaust)
  from logged_log [OF f1] obtain n1 where w1: "w1 = (l @ [?q], n1)" by blast
  from logged_log [OF f2 [unfolded w1]] obtain n2 where w2: "w2 = ((l @ [?q]) @ [?q], n2)" by blast
  have q: "vk_request cfg tok ?q" by (simp add: vk_request_def)
  from False assms f1 f2 have "w = w1 \<or> w = w2"
    by (auto simp: verify_access_token_def encode_uri_def Let_def split: sum.splits if_splits)
  then show ?thesis
  proof
    assume "w = w1"
    with w1 q show ?thesis by (intro exI [of _ "[?q]"] exI [of _ n1]) simp
  next
    assume "w = w2"
    with w2 q show ?thesis by (intro exI [of _ "[?q, ?q]"] exI [of _ n2]) simp
  qed
qed

end
