(* ===== verification/Auth_Service.thy ===== *)
theory Auth_Service
  imports Users_Controller Auth_Tokens OAuth
begin

section \<open>The gateway's auth service and controller\<close>

text \<open>
  \<open>apps/gateway/src/modules/auth/auth.service.ts\<close> and \<open>auth.controller.ts\<close>. The services it
  calls are parameters: \<open>rpc\<close> sends a message to the user service (\<open>RpcClientService.user\<close>) and
  changes its world, \<open>verify\<close> runs the OAuth verifier the factory picked, and the token store's
  two operations work on the state of Redis. What a call draws from its surroundings is the record
  \<open>gw_env\<close>: the clock, the random \<open>jti\<close>, the configuration and the libraries.
\<close>

record gw_env =
  gw_now :: millis
  gw_jti :: string
  gw_accessSecret :: string
  gw_refreshSecret :: string
  gw_accessExpiresIn :: "string option"
  gw_refreshExpiresIn :: "string option"
  gw_jwt :: jwt_lib
  gw_sha256 :: "string \<Rightarrow> string"

type_synonym 'w rpc = "user_message \<Rightarrow> 'w \<Rightarrow> (exn + user_reply) \<times> 'w"
type_synonym 'n verify = "verifier \<Rightarrow> string \<Rightarrow> hints \<Rightarrow> 'n \<Rightarrow> (exn + identity) \<times> 'n"

record token_pair =
  tp_accessToken :: string
  tp_refreshToken :: string

record auth_response =
  au_tokens :: token_pair
  au_userId :: string
  au_accountType :: string

text \<open>
  Reading a field of a reply: of no reply (\<open>undefined\<close>) it throws. No handler sends another shape
  than the one its caller reads.
\<close>

definition reply_type_error :: exn where
  "reply_type_error = plain_error ''Cannot read properties of undefined''"

fun as_autoreg :: "user_reply \<Rightarrow> exn + autoreg_result" where
  "as_autoreg (AutoregReply a) = Inr a"
| "as_autoreg _ = Inl reply_type_error"

fun as_grant :: "user_reply \<Rightarrow> exn + grant" where
  "as_grant (GrantReply g) = Inr g"
| "as_grant _ = Inl reply_type_error"

fun as_user :: "user_reply \<Rightarrow> exn + user" where
  "as_user (UserReply u) = Inr u"
| "as_user _ = Inl reply_type_error"

fun as_version :: "user_reply \<Rightarrow> exn + nat" where
  "as_version (VersionReply n) = Inr n"
| "as_version _ = Inl reply_type_error"

definition ask :: "'w rpc \<Rightarrow> (user_reply \<Rightarrow> exn + 'a) \<Rightarrow> user_message \<Rightarrow> 'w \<Rightarrow> (exn + 'a) \<times> 'w" where
  "ask rpc read msg w =
     (case rpc msg w of (Inl e, w') \<Rightarrow> (Inl e, w') | (Inr reply, w') \<Rightarrow> (read reply, w'))"

subsection \<open>Token pairs\<close>

definition access_claims :: "string \<Rightarrow> string option \<Rightarrow> jwt_payload" where
  "access_claims userId accountType =
     \<lparr>jp_sub = Some userId, jp_type = accountType, jp_jti = None, jp_deviceId = None, jp_tv = None,
      jp_iat = None, jp_exp = None\<rparr>"

definition refresh_claims ::
  "string \<Rightarrow> string option \<Rightarrow> string \<Rightarrow> string \<Rightarrow> nat option \<Rightarrow> jwt_payload" where
  "refresh_claims userId accountType jti deviceId tokenVersion =
     \<lparr>jp_sub = Some userId, jp_type = accountType, jp_jti = Some jti, jp_deviceId = Some deviceId,
      jp_tv = tokenVersion, jp_iat = None, jp_exp = None\<rparr>"

definition issue_token_pair ::
  "gw_env \<Rightarrow> string \<Rightarrow> string option \<Rightarrow> string \<Rightarrow> nat option \<Rightarrow> token_pair" where
  "issue_token_pair gw userId accountType deviceId tokenVersion =
     \<lparr>tp_accessToken =
        jwt_sign (gw_jwt gw) (gw_now gw) (gw_accessSecret gw) (nullish (gw_accessExpiresIn gw) ''15m'')
          (access_claims userId accountType),
      tp_refreshToken =
        jwt_sign (gw_jwt gw) (gw_now gw) (gw_refreshSecret gw) (nullish (gw_refreshExpiresIn gw) ''30d'')
          (refresh_claims userId accountType (gw_jti gw) deviceId tokenVersion)\<rparr>"

subsection \<open>Autoreg and login\<close>

definition gw_autoreg ::
  "gw_env \<Rightarrow> 'w rpc \<Rightarrow> string \<Rightarrow> platform option \<Rightarrow> string \<Rightarrow> string option \<Rightarrow> 'w
     \<Rightarrow> (exn + auth_response) \<times> 'w" where
  "gw_autoreg gw rpc deviceFingerprint platform deviceId clientIp w =
     (case ask rpc as_autoreg
             (CreateAutoregUser (Some deviceFingerprint) platform
                (if truthy clientIp then Some (gw_sha256 gw (the clientIp)) else None)) w of
        (Inl e, w') \<Rightarrow> (Inl e, w')
      | (Inr result, w') \<Rightarrow>
          (Inr \<lparr>au_tokens = issue_token_pair gw (ar_id result) (Some (account_type_str Autoreg))
                              deviceId (Some (ar_tokenVersion result)),
                au_userId = ar_id result, au_accountType = account_type_str Autoreg\<rparr>, w'))"

definition grant_response :: "gw_env \<Rightarrow> string \<Rightarrow> grant \<Rightarrow> auth_response" where
  "grant_response gw deviceId g =
     \<lparr>au_tokens = issue_token_pair gw (g_id g) (Some (account_type_str Registered)) deviceId
                    (Some (g_tokenVersion g)),
      au_userId = g_id g, au_accountType = account_type_str (g_accountType g)\<rparr>"

definition gw_login ::
  "gw_env \<Rightarrow> 'w rpc \<Rightarrow> string \<Rightarrow> string \<Rightarrow> string \<Rightarrow> 'w \<Rightarrow> (exn + auth_response) \<times> 'w" where
  "gw_login gw rpc email password deviceId w =
     (case ask rpc as_grant (LoginUser email password) w of
        (Inl e, w') \<Rightarrow> (Inl e, w')
      | (Inr user, w') \<Rightarrow> (Inr (grant_response gw deviceId user), w'))"

subsection \<open>Verifying a provider's token\<close>

definition hints_from_ctx :: "string option \<Rightarrow> hints" where
  "hints_from_ctx userAgent = \<lparr>hint_platform = parse_platform userAgent\<rparr>"

definition verify_oauth_token ::
  "'n verify \<Rightarrow> string \<Rightarrow> string \<Rightarrow> hints \<Rightarrow> 'n \<Rightarrow> (exn + identity) \<times> 'n" where
  "verify_oauth_token verify provider token h n =
     (if token = [] then (Inl (unauthorized TOKEN_INVALID ''OAuth token required''), n)
      else case factory_for provider of
        Inl e \<Rightarrow> (Inl e, n)
      | Inr v \<Rightarrow> verify v token h n)"

definition method_of :: "string \<Rightarrow> upgrade_method" where
  "method_of s = (if s = ''email'' then ByEmail else ByProvider s)"

record upgrade_dto =
  ud_method :: string
  ud_email :: "string option"
  ud_password :: "string option"
  ud_name :: "string option"
  ud_oauthToken :: "string option"

definition gw_upgrade ::
  "gw_env \<Rightarrow> 'w rpc \<Rightarrow> 'n verify \<Rightarrow> string \<Rightarrow> upgrade_dto \<Rightarrow> string \<Rightarrow> string option \<Rightarrow> 'w \<Rightarrow> 'n
     \<Rightarrow> (exn + auth_response) \<times> 'w \<times> 'n" where
  "gw_upgrade gw rpc verify userId dto deviceId userAgent w n =
     (case (if truthy (ud_oauthToken dto)
            then (case verify_oauth_token verify (ud_method dto) (the (ud_oauthToken dto))
                         (hints_from_ctx userAgent) n of
                    (Inl e, n') \<Rightarrow> (Inl e, n')
                  | (Inr i, n') \<Rightarrow> (Inr (Some (id_providerUserId i)), n'))
            else (Inr None, n)) of
        (Inl e, n') \<Rightarrow> (Inl e, w, n')
      | (Inr providerUserId, n') \<Rightarrow>
          (case ask rpc as_user
                  (UpgradeUserAccount userId (Some (method_of (ud_method dto))) (ud_email dto)
                     (ud_password dto) (ud_name dto) providerUserId) w of
             (Inl e, w') \<Rightarrow> (Inl e, w', n')
           | (Inr result, w') \<Rightarrow>
               (Inr \<lparr>au_tokens = issue_token_pair gw userId (Some (account_type_str Registered)) deviceId
                                   (u_tokenVersion result),
                     au_userId = userId, au_accountType = account_type_str Registered\<rparr>, w', n')))"

record oauth_dto =
  od_idToken :: "string option"
  od_accessToken :: "string option"
  od_email :: "string option"
  od_name :: "string option"

definition oauth_message :: "string \<Rightarrow> identity \<Rightarrow> oauth_dto \<Rightarrow> user_message" where
  "oauth_message provider i dto =
     FindOrCreateOAuthUser provider (id_providerUserId i) (or_else (id_email i) (od_email dto))
       (Some (truthy (id_email i) \<and> id_emailVerified i = Some True))
       (or_else (id_name i) (od_name dto))"

definition gw_oauth_login ::
  "gw_env \<Rightarrow> 'w rpc \<Rightarrow> 'n verify \<Rightarrow> string \<Rightarrow> oauth_dto \<Rightarrow> string \<Rightarrow> string option \<Rightarrow> 'w \<Rightarrow> 'n
     \<Rightarrow> (exn + auth_response) \<times> 'w \<times> 'n" where
  "gw_oauth_login gw rpc verify provider dto deviceId userAgent w n =
     (let token = nullish (or_else (od_idToken dto) (od_accessToken dto)) [] in
      case verify_oauth_token verify provider token (hints_from_ctx userAgent) n of
        (Inl e, n') \<Rightarrow> (Inl e, w, n')
      | (Inr i, n') \<Rightarrow>
          (case ask rpc as_grant (oauth_message provider i dto) w of
             (Inl e, w') \<Rightarrow> (Inl e, w', n')
           | (Inr user, w') \<Rightarrow> (Inr (grant_response gw deviceId user), w', n')))"

subsection \<open>Passwords\<close>

definition gw_forgot_password :: "'w rpc \<Rightarrow> string \<Rightarrow> 'w \<Rightarrow> (exn + unit) \<times> 'w" where
  "gw_forgot_password rpc email w = ask rpc (\<lambda>_. Inr ()) (ForgotPassword email) w"

definition gw_reset_password :: "'w rpc \<Rightarrow> string \<Rightarrow> string \<Rightarrow> 'w \<Rightarrow> (exn + unit) \<times> 'w" where
  "gw_reset_password rpc token password w = ask rpc (\<lambda>_. Inr ()) (ResetPassword token password) w"

subsection \<open>Refresh and logout\<close>

definition refresh_revoked :: exn where
  "refresh_revoked = unauthorized TOKEN_INVALID ''Refresh token has been revoked''"

fun http_status :: "exn \<Rightarrow> jsval option" where
  "http_status (HttpExn st _ _) = Some st"
| "http_status _ = None"

definition gw_refresh ::
  "gw_env \<Rightarrow> 'w rpc \<Rightarrow> (millis \<Rightarrow> string \<Rightarrow> int \<Rightarrow> 'r \<Rightarrow> (exn + unit) \<times> 'r)
     \<Rightarrow> string \<Rightarrow> string \<Rightarrow> int \<Rightarrow> string \<Rightarrow> string option \<Rightarrow> nat option \<Rightarrow> 'w \<Rightarrow> 'r
     \<Rightarrow> (exn + token_pair) \<times> 'w \<times> 'r" where
  "gw_refresh gw rpc blacklist userId oldJti oldExp deviceId accountType presentedTv w r =
     (case ask rpc as_version (GetUserTokenVersion userId) w of
        (Inl err, w') \<Rightarrow>
          (Inl (if http_status err = Some (JNum 404) then refresh_revoked else err), w', r)
      | (Inr tokenVersion, w') \<Rightarrow>
          if nullish presentedTv 0 \<noteq> tokenVersion then (Inl refresh_revoked, w', r)
          else
            (case blacklist (gw_now gw) oldJti oldExp r of
               (Inl e, r') \<Rightarrow> (Inl e, w', r')
             | (Inr (), r') \<Rightarrow>
                 (Inr (issue_token_pair gw userId accountType deviceId (Some tokenVersion)), w', r')))"

definition gw_logout ::
  "gw_env \<Rightarrow> (millis \<Rightarrow> string \<Rightarrow> int \<Rightarrow> 'r \<Rightarrow> (exn + unit) \<times> 'r) \<Rightarrow> string \<Rightarrow> 'r
     \<Rightarrow> (exn + unit) \<times> 'r" where
  "gw_logout gw blacklist refreshToken r =
     (case jwt_verify (gw_jwt gw) (gw_now gw) (gw_refreshSecret gw) refreshToken of
        Inl info \<Rightarrow> (Inr (), r)
      | Inr payload \<Rightarrow>
          if truthy (jp_jti payload) \<and> jp_exp payload \<noteq> None \<and> jp_exp payload \<noteq> Some 0
          then (case blacklist (gw_now gw) (the (jp_jti payload)) (the (jp_exp payload)) r of
                  (Inr (), r') \<Rightarrow> (Inr (), r')
                | (Inl err, r') \<Rightarrow> (Inr (), r'))
          else (Inr (), r))"

subsection \<open>The controller\<close>

text \<open>\<open>AuthController.refresh\<close>, on the user its guard attached and the device header.\<close>

definition refresh_handler ::
  "gw_env \<Rightarrow> 'w rpc \<Rightarrow> (millis \<Rightarrow> string \<Rightarrow> int \<Rightarrow> 'r \<Rightarrow> (exn + unit) \<times> 'r)
     \<Rightarrow> auth_user \<Rightarrow> string option \<Rightarrow> 'w \<Rightarrow> 'r \<Rightarrow> (exn + token_pair) \<times> 'w \<times> 'r" where
  "refresh_handler gw rpc blacklist user headerDeviceId w r =
     (let p = us_payload user in
      if \<not> truthy (jp_jti p) \<or> jp_exp p = None \<or> jp_exp p = Some 0
      then (Inl (unauthorized TOKEN_INVALID ''Refresh token missing jti/exp''), w, r)
      else case require_device_id headerDeviceId of
        Inl e \<Rightarrow> (Inl e, w, r)
      | Inr headerId \<Rightarrow>
          if jp_deviceId p \<noteq> Some headerId
          then (Inl (unauthorized ''device_mismatch'' ''Refresh token does not belong to this device''), w, r)
          else gw_refresh gw rpc blacklist (us_userId user) (the (jp_jti p)) (the (jp_exp p))
                 (the (jp_deviceId p)) (jp_type p) (jp_tv p) w r)"

text \<open>\<open>POST /v1/auth/refresh\<close>: the guard, then the handler.\<close>

definition refresh_endpoint ::
  "gw_env \<Rightarrow> passport \<Rightarrow> 'w rpc \<Rightarrow> (millis \<Rightarrow> string \<Rightarrow> 'r \<Rightarrow> exn + bool)
     \<Rightarrow> (millis \<Rightarrow> string \<Rightarrow> int \<Rightarrow> 'r \<Rightarrow> (exn + unit) \<times> 'r)
     \<Rightarrow> string \<Rightarrow> string option \<Rightarrow> 'w \<Rightarrow> 'r \<Rightarrow> (exn + token_pair) \<times> 'w \<times> 'r" where
  "refresh_endpoint gw pp rpc isBlacklisted blacklist token headerDeviceId w r =
     (case can_activate_refresh pp (gw_jwt gw) (gw_refreshSecret gw) (isBlacklisted (gw_now gw))
             (gw_now gw) token r of
        Inl e \<Rightarrow> (Inl e, w, r)
      | Inr user \<Rightarrow> refresh_handler gw rpc blacklist user headerDeviceId w r)"

definition autoreg_endpoint ::
  "gw_env \<Rightarrow> 'w rpc \<Rightarrow> string \<Rightarrow> platform option \<Rightarrow> string option \<Rightarrow> string option \<Rightarrow> 'w
     \<Rightarrow> (exn + auth_response) \<times> 'w" where
  "autoreg_endpoint gw rpc fingerprint platform headerDeviceId clientIp w =
     (case require_device_id headerDeviceId of
        Inl e \<Rightarrow> (Inl e, w)
      | Inr deviceId \<Rightarrow> gw_autoreg gw rpc fingerprint platform deviceId clientIp w)"

definition login_endpoint ::
  "gw_env \<Rightarrow> 'w rpc \<Rightarrow> string \<Rightarrow> string \<Rightarrow> string option \<Rightarrow> 'w \<Rightarrow> (exn + auth_response) \<times> 'w" where
  "login_endpoint gw rpc email password headerDeviceId w =
     (case require_device_id headerDeviceId of
        Inl e \<Rightarrow> (Inl e, w)
      | Inr deviceId \<Rightarrow> gw_login gw rpc email password deviceId w)"

definition upgrade_endpoint ::
  "gw_env \<Rightarrow> 'w rpc \<Rightarrow> 'n verify \<Rightarrow> string \<Rightarrow> upgrade_dto \<Rightarrow> string option \<Rightarrow> string option \<Rightarrow> 'w \<Rightarrow> 'n
     \<Rightarrow> (exn + auth_response) \<times> 'w \<times> 'n" where
  "upgrade_endpoint gw rpc verify userId dto headerDeviceId userAgent w n =
     (case require_device_id headerDeviceId of
        Inl e \<Rightarrow> (Inl e, w, n)
      | Inr deviceId \<Rightarrow> gw_upgrade gw rpc verify userId dto deviceId userAgent w n)"

definition oauth_endpoint ::
  "gw_env \<Rightarrow> 'w rpc \<Rightarrow> 'n verify \<Rightarrow> string \<Rightarrow> oauth_dto \<Rightarrow> string option \<Rightarrow> string option \<Rightarrow> 'w \<Rightarrow> 'n
     \<Rightarrow> (exn + auth_response) \<times> 'w \<times> 'n" where
  "oauth_endpoint gw rpc verify provider dto headerDeviceId userAgent w n =
     (case require_device_id headerDeviceId of
        Inl e \<Rightarrow> (Inl e, w, n)
      | Inr deviceId \<Rightarrow> gw_oauth_login gw rpc verify provider dto deviceId userAgent w n)"

text \<open>
  Which verifier object \<open>verify\<close> runs: an inherited property has no method \<open>verify\<close>, and calling
  it throws a plain \<open>TypeError\<close>.
\<close>

definition run_verifier ::
  "'n fetch \<Rightarrow> (string \<Rightarrow> bool) \<Rightarrow> (string \<Rightarrow> jsval option) \<Rightarrow> vk_config \<Rightarrow> string option \<Rightarrow> 'n verify" where
  "run_verifier fetch lone parse_header vk yandexUrl v token h n =
     (case v of
        Vk \<Rightarrow> vk_verify fetch lone parse_header vk token h n
      | Yandex \<Rightarrow> yandex_verify fetch yandexUrl token h n
      | InheritedProperty \<Rightarrow> (Inl (plain_error ''this.oauthFactory.for(...).verify is not a function''), n))"

end
