(* ===== verification/Gateway_Rpc.thy ===== *)
theory Gateway_Rpc
  imports Auth_Service
begin

section \<open>From the gateway to the user service and back\<close>

text \<open>
  The composition that answers \<open>RpcClientService.user(pattern, payload)\<close>: the message reaches a
  handler of the user service behind its exception filter (\<open>serve\<close>), the outcome crosses the wire,
  and \<open>rpc_send\<close> turns it into a reply or an HTTP exception. The wire (Nest's RMQ transport) is a
  parameter: \<open>wire_sound\<close> says that a reply which arrives is the one the handler returned,
  \<open>wire_up\<close> that nothing is lost: an error arrives as the payload the server sent, as a plain
  object with the payload's fields or one level down under \<open>error\<close>, and a handler that returned
  nothing ends the reply stream without a value, which \<open>firstValueFrom\<close> reports as an error.

  The world is the user service's database and mail state and the number of calls so far, which
  indexes the environments of the calls.
\<close>

record 'm world =
  w_db :: db
  w_mail :: 'm
  w_calls :: nat

record 'm backend =
  bk_driver :: driver
  bk_env :: "nat \<Rightarrow> call_env"
  bk_mailer :: "'m mailer"
  bk_wire :: "nat \<Rightarrow> exn + user_reply \<Rightarrow> user_reply rpc_outcome"
  bk_trace :: "string option"

definition user_rpc :: "'m backend \<Rightarrow> 'm world rpc" where
  "user_rpc bk msg w =
     (case serve (bk_driver bk) (bk_env bk (w_calls w)) (bk_mailer bk) (bk_trace bk) msg (w_db w) (w_mail w) of
        (r, s', m') \<Rightarrow>
          (rpc_send ''user'' (bk_wire bk (w_calls w) r),
           w\<lparr>w_db := s', w_mail := m', w_calls := w_calls w + 1\<rparr>))"

definition wire_sound :: "'m backend \<Rightarrow> bool" where
  "wire_sound bk \<longleftrightarrow> (\<forall>k r v. bk_wire bk k r = Replied v \<longrightarrow> r = Inr v)"

definition carries :: "jsval \<Rightarrow> jsval \<Rightarrow> bool" where
  "carries v payload \<longleftrightarrow>
     is_object v \<and>
     (\<forall>k \<in> {''__rpcError'', ''status'', ''code'', ''message'', ''details''}. js_get v k = js_get payload k)"

definition wire_up :: "'m backend \<Rightarrow> bool" where
  "wire_up bk \<longleftrightarrow>
     (\<forall>k v. v \<noteq> NoReply \<longrightarrow> bk_wire bk k (Inr v) = Replied v)
     \<and> (\<forall>k. \<exists>e. bk_wire bk k (Inr NoReply) = CallError (ErrorExn e))
     \<and> (\<forall>k st c m d t. \<exists>v. bk_wire bk k (Inl (MicroserviceExn st c m d t)) = StreamError (ThrownExn v)
          \<and> (carries v (rpc_error_payload st c m d t)
             \<or> \<not> is_rpc_error_payload v \<and> js_truthy v
               \<and> carries (js_get v ''error'') (rpc_error_payload st c m d t)))"

definition envs_ok :: "'m backend \<Rightarrow> bool" where
  "envs_ok bk \<longleftrightarrow>
     inj (\<lambda>k. ce_userId (bk_env bk k))
     \<and> (\<forall>j k. to_object_id (bk_env bk j) (ce_userId (bk_env bk k)) = Inr (ce_userId (bk_env bk k)))"

definition backend_ok :: "'m backend \<Rightarrow> bool" where
  "backend_ok bk \<longleftrightarrow> driver_ok (bk_driver bk) \<and> envs_ok bk \<and> wire_sound bk"

definition world_ok :: "'m backend \<Rightarrow> 'm world \<Rightarrow> bool" where
  "world_ok bk w \<longleftrightarrow>
     service_inv (w_db w) \<and> (\<forall>k \<ge> w_calls w. fresh_ids (bk_env bk k) (w_db w))"

lemma user_rpc_serve:
  assumes "user_rpc bk msg w = (r, w')"
  obtains q where "serve (bk_driver bk) (bk_env bk (w_calls w)) (bk_mailer bk) (bk_trace bk) msg
      (w_db w) (w_mail w) = (q, w_db w', w_mail w')"
    and "r = rpc_send ''user'' (bk_wire bk (w_calls w) q)" and "w_calls w' = w_calls w + 1"
  using assms by (auto simp: user_rpc_def split: prod.splits)

lemma user_rpc_step:
  assumes ok: "backend_ok bk" and w: "world_ok bk w" and op: "user_rpc bk msg w = (r, w')"
  shows "world_ok bk w'" and "evolves (w_db w) (w_db w')"
proof -
  from op obtain q where
    sv: "serve (bk_driver bk) (bk_env bk (w_calls w)) (bk_mailer bk) (bk_trace bk) msg
      (w_db w) (w_mail w) = (q, w_db w', w_mail w')" and
    calls: "w_calls w' = w_calls w + 1"
    by (rule user_rpc_serve)
  let ?ce = "bk_env bk (w_calls w)"
  have k: "keeps ?ce (w_db w) (w_db w')"
    by (rule serve_keeps [OF _ _ _ sv]) (use ok w in \<open>auto simp: backend_ok_def world_ok_def\<close>)
  then show "evolves (w_db w) (w_db w')" by (simp add: keeps_def)
  have "fresh_ids (bk_env bk j) (w_db w')" if "w_calls w' \<le> j" for j
  proof -
    have envs: "envs_ok bk" using ok by (simp add: backend_ok_def)
    have old: "fresh_ids (bk_env bk j) (w_db w)"
      using w that calls by (simp add: world_ok_def)
    have "ce_userId (bk_env bk j) \<noteq> ce_userId ?ce"
      using envs that calls by (auto simp: envs_ok_def dest: injD)
    moreover have sub: "u_id ` set (users (w_db w')) \<subseteq> insert (ce_userId ?ce) (u_id ` set (users (w_db w)))"
      using k by (simp add: keeps_def)
    ultimately have "ce_userId (bk_env bk j) \<notin> u_id ` set (users (w_db w'))"
      using old by (auto simp: fresh_ids_def)
    moreover have "to_object_id (bk_env bk j) (u_id u) = Inr (u_id u)" if "u \<in> set (users (w_db w'))" for u
    proof -
      have "u_id u = ce_userId ?ce \<or> u_id u \<in> u_id ` set (users (w_db w))"
        using sub that by blast
      then show ?thesis using envs old by (auto simp: envs_ok_def fresh_ids_def)
    qed
    ultimately show ?thesis by (simp add: fresh_ids_def)
  qed
  with k show "world_ok bk w'" by (simp add: world_ok_def keeps_def)
qed

text \<open>A reply that reached the gateway is the handler's own result.\<close>

lemma user_rpc_reply:
  assumes ok: "backend_ok bk" and op: "user_rpc bk msg w = (Inr v, w')"
  shows "handle_message (bk_driver bk) (bk_env bk (w_calls w)) (bk_mailer bk) msg (w_db w) (w_mail w)
    = (Inr v, w_db w', w_mail w')"
proof -
  from op obtain q where
    sv: "serve (bk_driver bk) (bk_env bk (w_calls w)) (bk_mailer bk) (bk_trace bk) msg
      (w_db w) (w_mail w) = (q, w_db w', w_mail w')" and
    r: "Inr v = rpc_send ''user'' (bk_wire bk (w_calls w) q)"
    by (rule user_rpc_serve)
  from r have "bk_wire bk (w_calls w) q = Replied v"
    by (cases "bk_wire bk (w_calls w) q") auto
  with ok have "q = Inr v" by (auto simp: backend_ok_def wire_sound_def)
  with serve_state [OF sv] show ?thesis by auto
qed

subsection \<open>The error an operation ends with, at the gateway\<close>

lemma carries_payload:
  assumes "carries v (rpc_error_payload st c m d t)"
  shows "is_rpc_error_payload v" and "http_from_payload v = http_from_payload (rpc_error_payload st c m d t)"
  using assms
  by (auto simp: carries_def is_rpc_error_payload_def http_from_payload_def rpc_error_payload_def)

text \<open>
  An exception of a handler reaches the gateway's caller as the HTTP exception with the same
  status, code, message and details.
\<close>

lemma wire_error_roundtrip:
  assumes up: "wire_up bk"
  shows "rpc_send svc (bk_wire bk k (Inl (MicroserviceExn st c m d t)))
    = Inl (http_from_payload (rpc_error_payload st c m d t))"
proof -
  let ?p = "rpc_error_payload st c m d t"
  from up obtain v where v: "bk_wire bk k (Inl (MicroserviceExn st c m d t)) = StreamError (ThrownExn v)"
    and shape: "carries v ?p \<or> \<not> is_rpc_error_payload v \<and> js_truthy v \<and> carries (js_get v ''error'') ?p"
    unfolding wire_up_def by blast
  have "unwrap_error svc (ThrownExn v) = http_from_payload ?p"
    using shape
  proof
    assume "carries v ?p"
    from carries_payload [OF this] show ?thesis by (simp add: unwrap_error_def)
  next
    assume a: "\<not> is_rpc_error_payload v \<and> js_truthy v \<and> carries (js_get v ''error'') ?p"
    then have "is_rpc_error_payload (js_get v ''error'')"
      "http_from_payload (js_get v ''error'') = http_from_payload ?p"
      using carries_payload by blast+
    moreover from this(1) have "js_truthy (js_get v ''error'')"
      by (cases "js_get v ''error''") (auto simp: is_rpc_error_payload_def)
    ultimately show ?thesis using a by (simp add: unwrap_error_def Let_def)
  qed
  moreover have "is_http_exn (http_from_payload ?p)" by (simp add: http_from_payload_def)
  ultimately show ?thesis using v by (simp add: rethrow_or_unwrap_def)
qed

end
