(* ===== verification/Mem_Store.thy ===== *)
theory Mem_Store
  imports Store
begin

section \<open>A driver over in-memory collections\<close>

text \<open>
  The store assumptions \<open>driver_ok\<close> can be met: \<open>mem_driver\<close> searches and updates the
  collections directly and refuses a change that would break a unique index with the error the
  Mongo driver raises (code 11000 and the key pattern). The development's witnesses evaluate the
  services on it. It models no file of the repository.
\<close>

definition dup_error :: "string \<Rightarrow> exn" where
  "dup_error field =
     ErrorExn \<lparr>err_name = ''MongoServerError'', err_message = ''E11000 duplicate key error'',
       err_stack = [],
       err_code = Some 11000, err_keyPattern = Some [field]\<rparr>"

fun mem_conflict :: "change \<Rightarrow> db \<Rightarrow> string option" where
  "mem_conflict (PutUser u) s =
     (if list_ex (\<lambda>v. u_id v \<noteq> u_id u \<and> u_email u \<noteq> None \<and> u_email v = u_email u) (users s)
      then Some ''email'' else None)"
| "mem_conflict (PutDevice d) s =
     (if list_ex (\<lambda>v. d_id v \<noteq> d_id d \<and> d_fingerprint v = d_fingerprint d) (devices s)
      then Some ''fingerprint'' else None)"
| "mem_conflict (PutOutbox e) s =
     (if list_ex (\<lambda>v. o_id v \<noteq> o_id e \<and> o_idempotencyKey v = o_idempotencyKey e) (outbox s)
      then Some ''idempotencyKey'' else None)"

fun mem_flush :: "change list \<Rightarrow> db \<Rightarrow> (exn + unit) \<times> db" where
  "mem_flush [] s = (Inr (), s)"
| "mem_flush (c # cs) s =
     (case mem_conflict c s of
        Some field \<Rightarrow> (Inl (dup_error field), s)
      | None \<Rightarrow> mem_flush cs (apply_change c s))"

definition mem_driver :: driver where
  "mem_driver =
     \<lparr>find_user = (\<lambda>s cs. Inr (List.find (sat user_matches cs) (users s))),
      find_users = (\<lambda>s cs. Inr (remdups (filter (sat user_matches cs) (users s)))),
      find_device = (\<lambda>s cs. Inr (List.find (sat device_matches cs) (devices s))),
      find_outbox = (\<lambda>s cs. Inr (List.find (sat outbox_matches cs) (outbox s))),
      find_outbox_batch = (\<lambda>s cs n.
        Inr (take n (sort_key o_createdAt (remdups (filter (sat outbox_matches cs) (outbox s)))))),
      count_outbox = (\<lambda>s cs. Inr (length (filter (sat outbox_matches cs) (outbox s)))),
      delete_users = (\<lambda>cs s.
        (Inr (), s\<lparr>users := filter (\<lambda>u. \<not> sat user_matches cs u) (users s)\<rparr>)),
      delete_devices = (\<lambda>cs s.
        (Inr (), s\<lparr>devices := filter (\<lambda>d. \<not> sat device_matches cs d) (devices s)\<rparr>)),
      flush = mem_flush\<rparr>"

lemma mem_driver_simps [simp]:
  "find_user mem_driver s ucs = Inr (List.find (sat user_matches ucs) (users s))"
  "find_users mem_driver s ucs = Inr (remdups (filter (sat user_matches ucs) (users s)))"
  "find_device mem_driver s dcs = Inr (List.find (sat device_matches dcs) (devices s))"
  "find_outbox mem_driver s ocs = Inr (List.find (sat outbox_matches ocs) (outbox s))"
  "find_outbox_batch mem_driver s ocs n =
     Inr (take n (sort_key o_createdAt (remdups (filter (sat outbox_matches ocs) (outbox s)))))"
  "count_outbox mem_driver s ocs = Inr (length (filter (sat outbox_matches ocs) (outbox s)))"
  "delete_users mem_driver ucs s =
     (Inr (), s\<lparr>users := filter (\<lambda>u. \<not> sat user_matches ucs u) (users s)\<rparr>)"
  "delete_devices mem_driver dcs s =
     (Inr (), s\<lparr>devices := filter (\<lambda>d. \<not> sat device_matches dcs d) (devices s)\<rparr>)"
  "flush mem_driver cs s = mem_flush cs s"
  by (simp_all add: mem_driver_def)

lemma find_Some_in: "List.find P xs = Some x \<Longrightarrow> x \<in> set xs \<and> P x"
  by (auto simp: find_Some_iff)

lemma find_None_none: "List.find P xs = None \<Longrightarrow> x \<in> set xs \<Longrightarrow> \<not> P x"
  by (auto simp: find_None_iff)

lemma unique_index_put_by:
  assumes "unique_index f ds" and "inj_on k (set ds)"
    and "\<And>x. x \<in> set ds \<Longrightarrow> k x \<noteq> k d \<Longrightarrow> f d \<noteq> None \<Longrightarrow> f x \<noteq> f d"
  shows "unique_index f (put_by k d ds)"
  unfolding unique_index_def
proof (intro ballI impI)
  fix x y
  assume "x \<in> set (put_by k d ds)" and "y \<in> set (put_by k d ds)" and "f x \<noteq> None" and "f x = f y"
  moreover have "x = y" if "x \<in> set ds" "y \<in> set ds" "f x \<noteq> None" "f x = f y"
    using that assms(1) unfolding unique_index_def by blast
  ultimately show "x = y"
    using assms(3) [of x] assms(3) [of y] by auto
qed

lemma apply_change_unique:
  assumes "db_unique s" and "mem_conflict c s = None"
  shows "db_unique (apply_change c s)"
proof (cases c)
  case (PutUser u)
  with assms show ?thesis
    by (auto simp: db_unique_def list_ex_iff inj_on_put_by split: if_splits
        intro!: unique_index_put_by)
next
  case (PutDevice d)
  with assms show ?thesis
    by (auto simp: db_unique_def list_ex_iff inj_on_put_by split: if_splits
        intro!: unique_index_put_by)
next
  case (PutOutbox e)
  with assms show ?thesis
    by (auto simp: db_unique_def list_ex_iff inj_on_put_by split: if_splits
        intro!: unique_index_put_by)
qed

lemma mem_flush_unique: "db_unique s \<Longrightarrow> db_unique (snd (mem_flush cs s))"
  by (induction cs arbitrary: s) (auto simp: apply_change_unique split: option.splits)

lemma mem_flush_prefix:
  "mem_flush cs s = (r, s') \<Longrightarrow>
     \<exists>cs'. subseq cs' cs \<and> s' = apply_changes cs' s \<and> (r = Inr () \<longrightarrow> cs' = cs)"
proof (induction cs arbitrary: s)
  case Nil
  then show ?case by auto
next
  case (Cons c cs)
  show ?case
  proof (cases "mem_conflict c s")
    case None
    with Cons.prems have "mem_flush cs (apply_change c s) = (r, s')" by simp
    then obtain cs' where "subseq cs' cs" "s' = apply_changes cs' (apply_change c s)"
      "r = Inr () \<longrightarrow> cs' = cs"
      using Cons.IH by blast
    then have "subseq (c # cs') (c # cs) \<and> s' = apply_changes (c # cs') s
        \<and> (r = Inr () \<longrightarrow> c # cs' = c # cs)" by simp
    then show ?thesis by blast
  next
    case (Some field)
    with Cons.prems have "r \<noteq> Inr ()" and "s' = apply_changes [] s" by auto
    then show ?thesis by blast
  qed
qed

lemma mem_flushes: "flushes mem_driver"
  unfolding flushes_def
proof (intro allI impI conjI)
  fix cs s r s'
  assume "flush mem_driver cs s = (r, s')"
  then show "\<exists>cs'. subseq cs' cs \<and> s' = apply_changes cs' s \<and> (r = Inr () \<longrightarrow> cs' = cs)"
    by (simp add: mem_flush_prefix)
next
  fix cs s r s'
  assume "flush mem_driver cs s = (r, s')" and "db_unique s"
  then show "db_unique s'" using mem_flush_unique [of s cs] by simp
next
  fix cs s r s' u e
  assume "flush mem_driver cs s = (r, s')" and "cs = [PutUser u]" and "r = Inl e"
  then show "email_conflict cs s" and "s' = s"
    by (auto simp: email_conflict_def list_ex_iff split: if_splits)
qed

lemma oldest_first_take:
  "oldest_first t P n ds (take n (sort_key t (remdups (filter P ds))))"
proof -
  let ?xs = "sort_key t (remdups (filter P ds))"
  have "distinct (take n ?xs)" by (simp add: distinct_take)
  moreover have "sorted (map t (take n ?xs))"
    by (simp add: take_map [symmetric] sorted_wrt_take)
  moreover have "set (take n ?xs) \<subseteq> {d \<in> set ds. P d}"
    using set_take_subset [of n ?xs] by auto
  moreover have "length (take n ?xs) < n \<longrightarrow> set (take n ?xs) = {d \<in> set ds. P d}"
    by auto
  moreover have "t x \<le> t d"
    if "d \<in> set ds" "P d" "d \<notin> set (take n ?xs)" "x \<in> set (take n ?xs)" for d x
  proof -
    have "d \<in> set ?xs" using that by simp
    then have "d \<in> set (drop n ?xs)"
      using that(3) by (metis Un_iff append_take_drop_id set_append)
    moreover have "sorted (map t (take n ?xs) @ map t (drop n ?xs))"
      by (simp flip: map_append)
    ultimately show ?thesis using that(4) by (auto simp: sorted_append)
  qed
  ultimately show ?thesis by (auto simp: oldest_first_def)
qed

lemma mem_driver_ok: "driver_ok mem_driver"
  unfolding driver_ok_def
proof (intro conjI)
  show "finds_user mem_driver"
    by (auto simp: finds_user_def dest: find_Some_in find_None_none)
  show "finds_device mem_driver"
    by (auto simp: finds_device_def dest: find_Some_in find_None_none)
  show "finds_outbox mem_driver"
    by (auto simp: finds_outbox_def oldest_first_take dest: find_Some_in find_None_none)
  show "deletes_users mem_driver"
    by (auto simp: deletes_users_def prunes_def
        intro: exI [where x = "\<lambda>u. \<not> sat user_matches cs u" for cs])
  show "deletes_devices mem_driver"
    by (auto simp: deletes_devices_def prunes_def
        intro: exI [where x = "\<lambda>d. \<not> sat device_matches cs d" for cs])
  show "flushes mem_driver"
    by (rule mem_flushes)
qed

lemma mem_conflict_unique: "db_unique (apply_change c s) \<Longrightarrow> mem_conflict c s = None"
proof (cases c)
  case (PutUser u)
  assume "db_unique (apply_change c s)"
  then have un: "unique_index u_email (put_by u_id u (users s))"
    using PutUser by (simp add: db_unique_def)
  have "\<not> (u_id v \<noteq> u_id u \<and> u_email u \<noteq> None \<and> u_email v = u_email u)" if "v \<in> set (users s)" for v
    using that un unfolding unique_index_def by fastforce
  with PutUser show ?thesis by (auto simp: list_ex_iff)
next
  case (PutDevice d)
  assume "db_unique (apply_change c s)"
  then have un: "unique_index (\<lambda>d. Some (d_fingerprint d)) (put_by d_id d (devices s))"
    using PutDevice by (simp add: db_unique_def)
  have "\<not> (d_id v \<noteq> d_id d \<and> d_fingerprint v = d_fingerprint d)" if "v \<in> set (devices s)" for v
    using that un unfolding unique_index_def by fastforce
  with PutDevice show ?thesis by (auto simp: list_ex_iff)
next
  case (PutOutbox e)
  assume "db_unique (apply_change c s)"
  then have un: "unique_index (\<lambda>d. Some (o_idempotencyKey d)) (put_by o_id e (outbox s))"
    using PutOutbox by (simp add: db_unique_def)
  have "\<not> (o_id v \<noteq> o_id e \<and> o_idempotencyKey v = o_idempotencyKey e)" if "v \<in> set (outbox s)" for v
    using that un unfolding unique_index_def by fastforce
  with PutOutbox show ?thesis by (auto simp: list_ex_iff)
qed

lemma mem_store_up: "store_up mem_driver"
  by (simp add: store_up_def mem_driver_ok mem_conflict_unique)

end
