(* ===== verification/Users_Properties.thy ===== *)
theory Users_Properties
  imports Users_Controller Mem_Store
begin

section \<open>What the methods of the user service achieve\<close>

text \<open>
  The functional properties of the user service, method by method, over any store that satisfies
  \<open>driver_ok\<close>; the witnesses run the methods on \<open>mem_driver\<close>, with the small environment and
  accounts at the start of the theory.
\<close>

subsection \<open>An environment and accounts for the witnesses\<close>

definition demo_env :: "oid \<Rightarrow> millis \<Rightarrow> call_env" where
  "demo_env i now =
     \<lparr>ce_now = now, ce_userId = i, ce_deviceId = ''d'' @ i, ce_outboxId = ''o'' @ i,
      ce_randomToken = ''t'' @ i, sha256_hex = (\<lambda>x. ''#'' @ x), argon2_hash = (\<lambda>p. Inr (''$'' @ p)),
      argon2_verify = (\<lambda>h p. Inr (h = ''$'' @ p)), to_object_id = (\<lambda>x. Inr x)\<rparr>"

lemma demo_env_simps [simp]:
  "ce_now (demo_env i t) = t" "ce_userId (demo_env i t) = i" "ce_deviceId (demo_env i t) = ''d'' @ i"
  "ce_outboxId (demo_env i t) = ''o'' @ i" "ce_randomToken (demo_env i t) = ''t'' @ i"
  "sha256_hex (demo_env i t) x = ''#'' @ x" "argon2_hash (demo_env i t) p = Inr (''$'' @ p)"
  "argon2_verify (demo_env i t) h p = Inr (h = ''$'' @ p)" "to_object_id (demo_env i t) x = Inr x"
  by (simp_all add: demo_env_def)

definition empty_db :: db where
  "empty_db = \<lparr>users = [], devices = [], outbox = []\<rparr>"

definition demo_user :: user where
  "demo_user =
     (new_user ''u'' 0)\<lparr>u_accountType := Registered, u_email := Some ''a@b'',
        u_passwordHash := Some ''$pw''\<rparr>"

definition demo_anon :: user where
  "demo_anon = new_user ''n'' 0"

definition demo_device :: device where
  "demo_device = new_device ''dn'' 0 ''fp'' ''n''"

definition demo_db :: db where
  "demo_db = \<lparr>users = [demo_user, demo_anon], devices = [demo_device], outbox = []\<rparr>"

lemmas demo_defs = demo_user_def demo_anon_def demo_device_def demo_db_def

lemma demo_db_inv: "service_inv demo_db"
  by (auto simp: service_inv_def db_wf_def db_unique_def unique_index_def user_wf_def outbox_wf_def
      links_unique_def has_link_def demo_defs new_user_def new_device_def)

lemma demo_fresh: "fresh_ids (demo_env ''x'' t) demo_db"
  by (simp add: fresh_ids_def demo_defs)

subsection \<open>Anonymous accounts\<close>

definition autoreg_holds :: "autoreg_payload \<Rightarrow> autoreg_result \<Rightarrow> db \<Rightarrow> bool" where
  "autoreg_holds p res s \<longleftrightarrow>
     (\<exists>u \<in> set (users s). \<exists>d \<in> set (devices s).
        u_id u = ar_id res \<and> u_accountType u = Autoreg \<and> token_version u = ar_tokenVersion res
        \<and> d_id d = ar_deviceRecordId res \<and> d_fingerprint d = ap_fingerprint p
        \<and> d_userId d = ar_id res \<and> \<not> d_isBlocked d)"

lemma create_fresh_autoreg_holds:
  assumes ok: "driver_ok drv" and op: "create_fresh_autoreg drv ce p s = (Inr res, s')"
  shows "autoreg_holds p res s'"
proof -
  let ?cs = "[PutUser (new_user (ce_userId ce) (ce_now ce)), PutDevice (autoreg_device ce p)]"
  from op have "flush drv ?cs s = (Inr (), s')"
    and res: "res = \<lparr>ar_id = ce_userId ce, ar_deviceRecordId = ce_deviceId ce, ar_tokenVersion = 0\<rparr>"
    by (auto simp: create_fresh_autoreg_def split: prod.splits sum.splits)
  then have "s' = apply_changes ?cs s" using flush_Inr [OF ok] by blast
  with res show ?thesis
    by (auto simp: autoreg_holds_def autoreg_device_def)
qed

lemma create_autoreg_user_holds:
  assumes ok: "driver_ok drv" and op: "create_autoreg_user drv ce p s = (Inr res, s')"
  shows "autoreg_holds p res s'"
proof -
  from op consider t where "create_fresh_autoreg drv ce p t = (Inr res, s')"
  | d u where "find_device drv s [FingerprintIs (ap_fingerprint p)] = Inr (Some d)"
      "\<not> d_isBlocked d" "find_user drv s [UserIdIs (d_userId d)] = Inr (Some u)"
      "u_accountType u = Autoreg"
      "flush drv (save_device (ce_now ce) d (seen_device ce p d)) s = (Inr (), s')"
      "res = \<lparr>ar_id = d_userId d, ar_deviceRecordId = d_id d, ar_tokenVersion = token_version u\<rparr>"
    by (auto simp: create_autoreg_user_def
        split: sum.splits option.splits if_splits prod.splits)
  then show ?thesis
  proof cases
    case 1
    with ok show ?thesis by (rule create_fresh_autoreg_holds)
  next
    case (2 d u)
    have s': "s' = apply_changes (save_device (ce_now ce) d (seen_device ce p d)) s"
      using flush_Inr [OF ok 2(5)] .
    have d: "d \<in> set (devices s)" "d_fingerprint d = ap_fingerprint p"
      using find_device_Some [OF ok 2(1)] by auto
    have u: "u \<in> set (users s)" "u_id u = d_userId d"
      using find_user_Some [OF ok 2(3)] by auto
    have "users s' = users s"
      by (simp add: s' save_device_def)
    moreover have "\<exists>d' \<in> set (devices s'). d_id d' = d_id d \<and> d_fingerprint d' = d_fingerprint d
        \<and> d_userId d' = d_userId d \<and> \<not> d_isBlocked d'"
      using d(1) 2(2) by (auto simp: s' save_device_def seen_device_def Let_def)
    ultimately show ?thesis
      using 2(4,6) d(2) u by (auto simp: autoreg_holds_def)
  qed
qed

text \<open>
  C1: a successful \<open>createAutoregUser\<close> hands out an anonymous account, never a registered one,
  at its current token version, and leaves the fingerprint's unblocked device bound to it.
\<close>

theorem autoreg_hands_out_anonymous_account:
  assumes "driver_ok drv" and "create_autoreg_user drv ce p s = (Inr res, s')"
  shows "\<exists>u \<in> set (users s'). \<exists>d \<in> set (devices s').
     u_id u = ar_id res \<and> u_accountType u = Autoreg \<and> token_version u = ar_tokenVersion res
     \<and> d_fingerprint d = ap_fingerprint p \<and> d_userId d = ar_id res \<and> \<not> d_isBlocked d"
  using create_autoreg_user_holds [OF assms] by (auto simp: autoreg_holds_def)

definition demo_autoreg :: autoreg_payload where
  "demo_autoreg = \<lparr>ap_fingerprint = ''fp2'', ap_platform = Some Ios, ap_ipHash = None\<rparr>"

theorem autoreg_hands_out_anonymous_account_witness:
  "\<exists>res s'. create_autoreg_user mem_driver (demo_env ''x'' 5) demo_autoreg demo_db = (Inr res, s')
     \<and> (\<exists>u \<in> set (users s'). u_id u = ar_id res \<and> u_accountType u = Autoreg)"
proof -
  have "\<exists>res s'. create_autoreg_user mem_driver (demo_env ''x'' 5) demo_autoreg demo_db = (Inr res, s')"
    by (simp add: create_autoreg_user_def create_fresh_autoreg_def demo_autoreg_def demo_defs
        autoreg_device_def new_user_def new_device_def)
  then show ?thesis
    using autoreg_hands_out_anonymous_account [OF mem_driver_ok] by blast
qed

text \<open>
  C2: \<open>createAutoregUser\<close> is idempotent per fingerprint: a second successful call with the same
  fingerprint, with whatever environment, returns the account of the first.
\<close>

theorem autoreg_idempotent_per_fingerprint:
  assumes ok: "driver_ok drv" and inv: "service_inv s" and fresh: "fresh_ids ce s"
    and first: "create_autoreg_user drv ce p s = (Inr r1, s1)"
    and second: "create_autoreg_user drv ce2 p2 s1 = (Inr r2, s2)"
    and fp: "ap_fingerprint p2 = ap_fingerprint p"
  shows "ar_id r2 = ar_id r1 \<and> ar_deviceRecordId r2 = ar_deviceRecordId r1"
proof -
  have "keeps ce s s1" using ok inv fresh first by (rule create_autoreg_user_keeps)
  then have u1: "db_unique s1" by (simp add: keeps_def service_invD(4))
  from create_autoreg_user_holds [OF ok first] obtain w d where
    w: "w \<in> set (users s1)" "u_id w = ar_id r1" "u_accountType w = Autoreg" and
    d: "d \<in> set (devices s1)" "d_id d = ar_deviceRecordId r1" "d_fingerprint d = ap_fingerprint p"
      "d_userId d = ar_id r1" "\<not> d_isBlocked d"
    unfolding autoreg_holds_def by blast
  from second obtain found where f: "find_device drv s1 [FingerprintIs (ap_fingerprint p2)] = Inr found"
    by (auto simp: create_autoreg_user_def split: sum.splits)
  then obtain x where x: "found = Some x"
    using find_device_None [OF ok _ d(1), of "[FingerprintIs (ap_fingerprint p2)]"] d(3) fp by (cases found) auto
  have "x = d"
    using find_device_Some [OF ok f [unfolded x]] d(1,3) u1 fp
    unfolding db_unique_def unique_index_def by auto
  moreover from second f x obtain l where l: "find_user drv s1 [UserIdIs (d_userId x)] = Inr l"
    using d(5) \<open>x = d\<close> by (auto simp: create_autoreg_user_def split: sum.splits)
  moreover have "l = Some w"
  proof (cases l)
    case None
    with l find_user_None [OF ok _ w(1), of "[UserIdIs (d_userId x)]"] w(2) d(4) \<open>x = d\<close> show ?thesis by auto
  next
    case (Some v)
    with l find_user_Some [OF ok, of s1 "[UserIdIs (d_userId x)]" v] have "v \<in> set (users s1)" "u_id v = d_userId x" by auto
    with user_by_id [OF u1 _ w(1), of v] w(2) d(4) \<open>x = d\<close> Some show ?thesis by simp
  qed
  ultimately show ?thesis
    using second f x d w by (auto simp: create_autoreg_user_def split: prod.splits sum.splits)
qed

lemma demo_autoreg_known:
  "create_autoreg_user mem_driver (demo_env ''x'' 5) (demo_autoreg\<lparr>ap_fingerprint := ''fp''\<rparr>) demo_db
     = (Inr \<lparr>ar_id = ''n'', ar_deviceRecordId = ''dn'', ar_tokenVersion = 0\<rparr>,
        demo_db\<lparr>devices := [demo_device\<lparr>d_lastSeenAt := 5, d_updatedAt := 5\<rparr>]\<rparr>)"
  by (simp add: create_autoreg_user_def demo_autoreg_def demo_defs save_device_def seen_device_def
      touch_device_def token_version_def new_device_def put_by_def)

theorem autoreg_idempotent_per_fingerprint_witness:
  "\<exists>r1 s1 r2 s2. create_autoreg_user mem_driver (demo_env ''x'' 5)
       (demo_autoreg\<lparr>ap_fingerprint := ''fp''\<rparr>) demo_db = (Inr r1, s1)
     \<and> create_autoreg_user mem_driver (demo_env ''y'' 9)
         (demo_autoreg\<lparr>ap_fingerprint := ''fp''\<rparr>) s1 = (Inr r2, s2)
     \<and> ar_id r2 = ar_id r1"
proof -
  let ?p = "demo_autoreg\<lparr>ap_fingerprint := ''fp''\<rparr>"
  let ?s1 = "demo_db\<lparr>devices := [demo_device\<lparr>d_lastSeenAt := 5, d_updatedAt := 5\<rparr>]\<rparr>"
  have "\<exists>r2 s2. create_autoreg_user mem_driver (demo_env ''y'' 9) ?p ?s1 = (Inr r2, s2)"
    by (simp add: create_autoreg_user_def demo_autoreg_def demo_defs save_device_def seen_device_def
        touch_device_def token_version_def new_device_def put_by_def)
  then show ?thesis
    using autoreg_idempotent_per_fingerprint [OF mem_driver_ok demo_db_inv demo_fresh
        demo_autoreg_known _ refl] demo_autoreg_known by blast
qed

lemma demo_delete:
  "delete_user mem_driver (demo_env ''x'' 5) ''n'' demo_db
     = (Inr (), demo_db\<lparr>users := [demo_user, touch_user 5 (deleted_user 5 demo_anon)],
         outbox := [staged_row ''ox'' 5 (user_deleted_stage ''n'')]\<rparr>)"
  by (simp add: delete_user_def find_by_id_def demo_defs save_user_def stage_outbox_event_def
      put_by_def deleted_user_def user_deleted_stage_def touch_user_def new_user_def
      bump_token_version_def token_version_def staged_row_def Let_def)

subsection \<open>Logging in\<close>

lemma live_email_unique:
  assumes "db_unique s" and "u \<in> set (users s)" and "u_email u = Some e"
    and "v \<in> set (users s)" and "sat user_matches [EmailIs e, NotDeleted] v"
  shows "v = u"
  using assms unique_indexD [of u_email "users s" v u e] by (auto simp: db_unique_def)

lemma login_of_live_user:
  assumes "driver_ok drv" and "db_unique s" and "find_user drv s [EmailIs e, NotDeleted] = Inr x"
    and "u \<in> set (users s)" and "u_email u = Some e" and "live u"
  shows "x = Some u"
  by (rule find_user_the [OF assms(1,3,4)])
    (use assms(5,6) live_email_unique [OF assms(2,4,5)] in \<open>auto simp: live_def\<close>)

text \<open>
  C4: \<open>login\<close> succeeds exactly for a live account with the address and a non-empty stored hash
  that argon2 verifies, and hands out that account at its token version; when it does not succeed
  and the store answered, the error is always the same one, so the reply does not tell an unknown
  address from a wrong password, a deleted account or a hash argon2 chokes on.
\<close>

theorem login_exact:
  assumes ok: "driver_ok drv" and un: "db_unique s"
    and up: "find_user drv s [EmailIs email, NotDeleted] = Inr x"
  shows "(login drv ce email password s = Inr g \<longleftrightarrow>
      (\<exists>u \<in> set (users s). u_email u = Some email \<and> u_deletedAt u = None \<and> g = grant_of u
         \<and> (\<exists>h. u_passwordHash u = Some h \<and> h \<noteq> [] \<and> argon2_verify ce h password = Inr True)))
    \<and> login drv ce email password s \<in> insert (Inl invalid_credentials) (range Inr)"
proof -
  have found: "x = Some u" if "u \<in> set (users s)" "u_email u = Some email" "u_deletedAt u = None" for u
    using login_of_live_user [OF ok un up] that by (simp add: live_def)
  have sound: "u \<in> set (users s) \<and> u_email u = Some email \<and> u_deletedAt u = None" if "x = Some u" for u
    using find_user_Some [OF ok, of s "[EmailIs email, NotDeleted]" u] up that by simp
  let ?good = "\<lambda>u. \<exists>h. u_passwordHash u = Some h \<and> h \<noteq> [] \<and> argon2_verify ce h password = Inr True"
  have "login drv ce email password s = Inr g \<longleftrightarrow> (\<exists>u. x = Some u \<and> g = grant_of u \<and> ?good u)"
    using up by (auto simp: login_def Let_def truthy_iff split: option.splits sum.splits)
  then have "login drv ce email password s = Inr g \<longleftrightarrow>
      (\<exists>u \<in> set (users s). u_email u = Some email \<and> u_deletedAt u = None \<and> g = grant_of u \<and> ?good u)"
    using found sound by blast
  moreover have "login drv ce email password s \<in> insert (Inl invalid_credentials) (range Inr)"
    using up by (auto simp: login_def Let_def split: option.splits sum.splits)
  ultimately show ?thesis by blast
qed

theorem login_exact_witness:
  "login mem_driver (demo_env ''x'' 5) ''a@b'' ''pw'' demo_db = Inr (grant_of demo_user)
   \<and> login mem_driver (demo_env ''x'' 5) ''a@b'' ''no'' demo_db = Inl invalid_credentials"
proof -
  have un: "db_unique demo_db" by (rule service_invD(4) [OF demo_db_inv])
  have f: "find_user mem_driver demo_db [EmailIs ''a@b'', NotDeleted] = Inr (Some demo_user)"
    by (simp add: demo_defs)
  note ex = login_exact [OF mem_driver_ok un f, where ce = "demo_env ''x'' 5", THEN conjunct1]
    and err = login_exact [OF mem_driver_ok un f, where ce = "demo_env ''x'' 5", THEN conjunct2]
  have "login mem_driver (demo_env ''x'' 5) ''a@b'' ''pw'' demo_db = Inr (grant_of demo_user)"
    unfolding ex by (simp add: demo_defs)
  moreover have "login mem_driver (demo_env ''x'' 5) ''a@b'' ''no'' demo_db \<noteq> Inr g" for g
    unfolding ex by (auto simp: demo_defs)
  then have "login mem_driver (demo_env ''x'' 5) ''a@b'' ''no'' demo_db = Inl invalid_credentials"
    using err [of "''no''"] by auto
  ultimately show ?thesis by blast
qed

subsection \<open>Upgrading an anonymous account\<close>

lemma upgrade_success:
  assumes ok: "driver_ok drv" and op: "upgrade_account drv ce userId p s = (Inr u', s')"
  obtains u a t where "find_by_id drv ce userId s = Inr u" "u_accountType u = Autoreg"
    "attach_identity drv ce userId p s u = Inr a"
    "u' = touch_user (ce_now ce) (registered_now ce p a)"
    "t = apply_change (PutUser u') s"
    "delete_devices drv [DeviceUserIs (u_id u)] t = (Inr (), s')"
  using op
proof (cases rule: upgrade_account_writes)
  case (written u a t q)
  then have "q = Inr ()" and "u' = touch_user (ce_now ce) (registered_now ce p a)"
    by (auto split: sum.splits)
  with written flush_Inr [OF ok written(4)] that show ?thesis by simp
qed auto

text \<open>
  C5: a successful \<open>upgradeAccount\<close> turned a live anonymous account into a registered one, with
  its token version bumped by exactly one, and leaves no device bound to it, so that no fingerprint
  leads back to it; every other account is as it was.
\<close>

theorem upgrade_registers_and_unbinds_devices:
  assumes ok: "driver_ok drv" and inv: "service_inv s" and fresh: "fresh_ids ce s"
    and op: "upgrade_account drv ce userId p s = (Inr u', s')"
  shows "\<exists>u \<in> set (users s). u_accountType u = Autoreg \<and> u_deletedAt u = None
      \<and> u_id u' = u_id u \<and> u_accountType u' = Registered \<and> u_deletedAt u' = None
      \<and> token_version u' = token_version u + 1
      \<and> set (users s') = insert u' (set (users s) - {u})
      \<and> (\<forall>d \<in> set (devices s'). d \<in> set (devices s) \<and> d_userId d \<noteq> u_id u)"
proof -
  from ok op obtain u a t where
    u: "find_by_id drv ce userId s = Inr u" "u_accountType u = Autoreg" and
    a: "attach_identity drv ce userId p s u = Inr a" and
    u': "u' = touch_user (ce_now ce) (registered_now ce p a)" and
    t: "t = apply_change (PutUser u') s" and
    del: "delete_devices drv [DeviceUserIs (u_id u)] t = (Inr (), s')"
    by (rule upgrade_success)
  note byid = find_by_id_Inr [OF ok u(1)]
  note att = upgraded_user [OF ok inv fresh u a]
  have id: "u_id u' = u_id u" using att u' by simp
  have "{x \<in> set (users s). u_id x \<noteq> u_id u} = set (users s) - {u}"
    using user_by_id [OF service_invD(4) [OF inv] _ byid(1)] by blast
  then have "set (users s') = insert u' (set (users s) - {u})"
    using delete_devices_frame(1) [OF ok del] t id by simp
  moreover obtain ds where "s' = t\<lparr>devices := ds\<rparr>"
    and "prunes (sat device_matches [DeviceUserIs (u_id u)]) True (devices t) ds"
    using delete_devices_any [OF ok del] by auto
  then have "\<forall>d \<in> set (devices s'). d \<in> set (devices s) \<and> d_userId d \<noteq> u_id u"
    using t by (auto dest!: prunes_all)
  ultimately show ?thesis
    using byid(1,2) u(2) att u' id by (intro bexI [of _ u]) (auto simp: live_def)
qed

definition demo_upgrade :: upgrade_payload where
  "demo_upgrade =
     \<lparr>up_method = ByEmail, up_email = Some ''n@b'', up_password = Some ''pw'', up_name = None,
      up_providerUserId = None\<rparr>"

theorem upgrade_registers_and_unbinds_devices_witness:
  "\<exists>u' s'. upgrade_account mem_driver (demo_env ''x'' 5) ''n'' demo_upgrade demo_db = (Inr u', s')
     \<and> u_accountType u' = Registered \<and> devices s' = []"
proof -
  let ?a = "demo_anon\<lparr>u_email := Some ''n@b'', u_passwordHash := Some ''$pw''\<rparr>"
  let ?u = "touch_user 5 (registered_now (demo_env ''x'' 5) demo_upgrade ?a)"
  have op: "upgrade_account mem_driver (demo_env ''x'' 5) ''n'' demo_upgrade demo_db
      = (Inr ?u, demo_db\<lparr>users := [demo_user, ?u], devices := []\<rparr>)"
    by (simp add: upgrade_account_def find_by_id_def attach_identity_def attach_email_def
        demo_upgrade_def demo_defs put_by_def Let_def)
  from upgrade_registers_and_unbinds_devices [OF mem_driver_ok demo_db_inv demo_fresh op]
  have "u_accountType ?u = Registered" by blast
  with op show ?thesis by simp
qed

subsection \<open>Logging in through a provider\<close>

lemma find_or_create_admits:
  assumes ok: "driver_ok drv" and inv: "service_inv s"
    and op: "find_or_create_oauth_user drv ce p s = (Inr g, s')"
  shows "(\<exists>u \<in> set (users s). u_deletedAt u = None \<and> g = grant_of u \<and> s' = s
            \<and> has_link u (op_provider p) (op_providerUserId p))
    \<or> (\<exists>u \<in> set (users s). u_deletedAt u = None \<and> g = grant_of u \<and> op_emailVerified p
            \<and> op_email p \<noteq> None \<and> u_email u = op_email p
            \<and> (\<exists>u' \<in> set (users s'). grant_of u' = g \<and> has_link u' (op_provider p) (op_providerUserId p)))
    \<or> (g_id g = ce_userId ce \<and> g_accountType g = Registered \<and> g_tokenVersion g = 0
            \<and> new_oauth_user ce p \<in> set (users s'))"
proof -
  have create: ?thesis if "create_oauth_user drv ce p s = (Inr g, s')"
  proof -
    from that have "flush drv [PutUser (new_oauth_user ce p)] s = (Inr (), s')"
      and "g = grant_of (new_oauth_user ce p)"
      by (auto simp: create_oauth_user_def Let_def split: prod.splits sum.splits)
    with flush_Inr [OF ok this(1)] show ?thesis by (simp add: grant_of_def)
  qed
  from op consider "create_oauth_user drv ce p s = (Inr g, s')"
  | u where "find_user drv s ([LinkIs (op_provider p) (op_providerUserId p)] @ [NotDeleted]) = Inr (Some u)"
      "g = grant_of u" "s' = s"
  | u e where "op_email p = Some e" "op_emailVerified p"
      "find_user drv s ([EmailIs e] @ [NotDeleted]) = Inr (Some u)" "g = grant_of u"
      "flush drv (save_user (ce_now ce) u (merge_oauth_link ce p u)) s = (Inr (), s')"
  proof (cases "find_user drv s [LinkIs (op_provider p) (op_providerUserId p), NotDeleted]")
    case (Inl e)
    with op that show ?thesis by (simp add: find_or_create_oauth_user_def)
  next
    case link: (Inr found)
    show ?thesis
    proof (cases "\<exists>u. found = Some u")
      case True
      with op link that(2) show ?thesis by (auto simp: find_or_create_oauth_user_def)
    next
      case False
      then have found: "found = None" by (cases found) auto
      show ?thesis
      proof (cases "truthy (op_email p) \<and> op_emailVerified p")
        case False
        with op link found that(1) show ?thesis by (auto simp: find_or_create_oauth_user_def)
      next
        case True
        then obtain e where e: "op_email p = Some e" "op_emailVerified p" "e \<noteq> []"
          by (auto simp: truthy_iff)
        with op link found that(1) that(3) [OF e(1,2)] show ?thesis
          by (auto simp: find_or_create_oauth_user_def split: sum.splits option.splits prod.splits)
      qed
    qed
  qed
  then show ?thesis
  proof cases
    case 1
    then show ?thesis by (rule create)
  next
    case (2 u)
    note u = find_live_user [OF ok 2(1)]
    with 2 show ?thesis by (auto simp: has_link_def live_def)
  next
    case (3 u e)
    note u = find_live_user [OF ok 3(3)]
    have "touch_user (ce_now ce) (merge_oauth_link ce p u) \<in> set (users s')"
      using flush_Inr [OF ok 3(5)] by (simp add: save_user_def)
    then have "\<exists>u' \<in> set (users s'). grant_of u' = g \<and> has_link u' (op_provider p) (op_providerUserId p)"
      using 3(4) by (intro bexI) (auto simp: grant_of_def)
    with u 3 show ?thesis by (auto simp: live_def)
  qed
qed

text \<open>
  C6: whom \<open>findOrCreateOAuthUser\<close> lets in. The account it returns was already bound to this
  provider identity and is live; or the provider vouched for the address and it is the live account
  with that address, which now carries the link; or it is a new registered account holding just
  this identity. An unverified address never leads into an existing account.
\<close>

theorem oauth_login_admission:
  assumes ok: "driver_ok drv" and inv: "service_inv s"
    and op: "find_or_create_oauth_user drv ce p s = (Inr g, s')"
  shows "(\<exists>u \<in> set (users s). u_deletedAt u = None \<and> g = grant_of u \<and> s' = s
            \<and> has_link u (op_provider p) (op_providerUserId p))
    \<or> (\<exists>u \<in> set (users s). u_deletedAt u = None \<and> g = grant_of u \<and> op_emailVerified p
            \<and> op_email p \<noteq> None \<and> u_email u = op_email p
            \<and> (\<exists>u' \<in> set (users s'). grant_of u' = g \<and> has_link u' (op_provider p) (op_providerUserId p)))
    \<or> (g_id g = ce_userId ce \<and> g_accountType g = Registered \<and> g_tokenVersion g = 0
            \<and> new_oauth_user ce p \<in> set (users s'))"
  using assms by (rule find_or_create_admits)

definition demo_oauth :: "bool \<Rightarrow> oauth_payload" where
  "demo_oauth verified =
     \<lparr>op_provider = ''vk'', op_providerUserId = ''7'', op_email = Some ''a@b'',
      op_emailVerified = verified, op_name = None\<rparr>"

theorem oauth_login_admission_witness:
  "\<exists>s'. find_or_create_oauth_user mem_driver (demo_env ''x'' 5) (demo_oauth True) demo_db
          = (Inr (grant_of demo_user), s')
     \<and> (\<exists>u' \<in> set (users s'). has_link u' ''vk'' ''7'')"
proof -
  let ?u = "touch_user 5 (merge_oauth_link (demo_env ''x'' 5) (demo_oauth True) demo_user)"
  have op: "find_or_create_oauth_user mem_driver (demo_env ''x'' 5) (demo_oauth True) demo_db
      = (Inr (grant_of demo_user), demo_db\<lparr>users := [?u, demo_anon]\<rparr>)"
    by (simp add: find_or_create_oauth_user_def demo_oauth_def demo_defs save_user_def
        merge_oauth_link_def oauth_link_now_def new_user_def put_by_def touch_user_def)
  have "g_id (grant_of demo_user) \<noteq> ce_userId (demo_env ''x'' 5)"
    by (simp add: grant_of_def demo_user_def)
  moreover have "\<not> has_link u ''vk'' ''7''" if "u \<in> set (users demo_db)" for u
    using that by (auto simp: demo_db_def demo_user_def demo_anon_def has_link_def)
  moreover have p: "op_provider (demo_oauth True) = ''vk''" "op_providerUserId (demo_oauth True) = ''7''"
    by (simp_all add: demo_oauth_def)
  ultimately have "\<exists>u' \<in> set (users (demo_db\<lparr>users := [?u, demo_anon]\<rparr>)). has_link u' ''vk'' ''7''"
    using oauth_login_admission [OF mem_driver_ok demo_db_inv op, unfolded p] by blast
  with op show ?thesis by blast
qed

lemma no_link_found:
  assumes "driver_ok drv" and "\<forall>u \<in> set (users s). live u \<longrightarrow> \<not> has_link u pr i"
    and "find_user drv s [LinkIs pr i, NotDeleted] = Inr found"
  shows "found = None"
  using find_user_Some [OF assms(1), of s "[LinkIs pr i, NotDeleted]"] assms(2,3)
  by (cases found) (auto simp: live_def has_link_def)

lemma first_unverified_login:
  assumes ok: "driver_ok drv" and p: "\<not> op_emailVerified p"
    and new: "\<forall>u \<in> set (users s). live u \<longrightarrow> \<not> has_link u (op_provider p) (op_providerUserId p)"
    and op: "find_or_create_oauth_user drv ce p s = (Inr g, s')"
  shows "g = grant_of (new_oauth_user ce p)" and "s' = apply_change (PutUser (new_oauth_user ce p)) s"
proof -
  from op obtain found where f: "find_user drv s [LinkIs (op_provider p) (op_providerUserId p), NotDeleted] = Inr found"
    by (auto simp: find_or_create_oauth_user_def split: sum.splits)
  with no_link_found [OF ok new f] p op have "create_oauth_user drv ce p s = (Inr g, s')"
    by (simp add: find_or_create_oauth_user_def)
  then have "flush drv [PutUser (new_oauth_user ce p)] s = (Inr (), s')"
    and "g = grant_of (new_oauth_user ce p)"
    by (auto simp: create_oauth_user_def Let_def split: prod.splits sum.splits)
  with flush_Inr [OF ok this(1)] show "g = grant_of (new_oauth_user ce p)"
    and "s' = apply_change (PutUser (new_oauth_user ce p)) s" by simp_all
qed

lemma verified_login_merges:
  assumes ok: "driver_ok drv" and un: "db_unique s" and p: "op_email p = Some a" "a \<noteq> []" "op_emailVerified p"
    and new: "\<forall>u \<in> set (users s). live u \<longrightarrow> \<not> has_link u (op_provider p) (op_providerUserId p)"
    and u: "u \<in> set (users s)" "u_email u = Some a" "live u"
    and op: "find_or_create_oauth_user drv ce p s = (Inr g, s')"
  shows "g = grant_of u" and "touch_user (ce_now ce) (merge_oauth_link ce p u) \<in> set (users s')"
proof -
  from op obtain found where f: "find_user drv s [LinkIs (op_provider p) (op_providerUserId p), NotDeleted] = Inr found"
    by (auto simp: find_or_create_oauth_user_def split: sum.splits)
  note none = no_link_found [OF ok new f]
  with op f p obtain x where x: "find_user drv s [EmailIs a, NotDeleted] = Inr x"
    by (auto simp: find_or_create_oauth_user_def split: sum.splits)
  have "x = Some u" by (rule login_of_live_user [OF ok un x u])
  obtain q t where fl: "flush drv (save_user (ce_now ce) u (merge_oauth_link ce p u)) s = (q, t)" by fastforce
  with op f none p x \<open>x = Some u\<close> have "q = Inr ()" "t = s'" and g: "g = grant_of u"
    by (auto simp: find_or_create_oauth_user_def split: sum.splits)
  with fl flush_Inr [OF ok, of "save_user (ce_now ce) u (merge_oauth_link ce p u)" s s']
  show "touch_user (ce_now ce) (merge_oauth_link ce p u) \<in> set (users s')"
    by (simp add: save_user_def)
  show "g = grant_of u" by (rule g)
qed

lemma link_owner_logs_in:
  assumes ok: "driver_ok drv" and links: "links_unique s"
    and u: "u \<in> set (users s)" "live u" "has_link u (op_provider p) (op_providerUserId p)"
    and op: "find_or_create_oauth_user drv ce p s = (Inr g, s')"
  shows "g_id g = u_id u"
proof -
  from op obtain found where f: "find_user drv s [LinkIs (op_provider p) (op_providerUserId p), NotDeleted] = Inr found"
    by (auto simp: find_or_create_oauth_user_def split: sum.splits)
  moreover have "found \<noteq> None"
  proof
    assume "found = None"
    with f have "find_user drv s [LinkIs (op_provider p) (op_providerUserId p), NotDeleted] = Inr None" by simp
    from find_user_None [OF ok this u(1)] u(2,3) show False
      by (simp add: live_def user_cond_link del: user_matches.simps(4))
  qed
  then obtain v where "found = Some v" by blast
  ultimately have f: "find_user drv s [LinkIs (op_provider p) (op_providerUserId p), NotDeleted] = Inr (Some v)"
    by simp
  from find_user_Some [OF ok f] have v: "v \<in> set (users s)" "live v"
    "has_link v (op_provider p) (op_providerUserId p)"
    by (simp_all add: live_def user_cond_link del: user_matches.simps(4))
  have "g = grant_of v" using op f by (simp add: find_or_create_oauth_user_def)
  with v links u show ?thesis unfolding links_unique_def by (metis grant.select_convs(1) grant_of_def)
qed

text \<open>
  C7: an address nobody vouched for becomes a merge key. When an identity new to the service logs in
  with an address its provider did not verify, and later another new identity with the same address,
  verified, logs in, both are in one account, the one the first identity created; and the first
  identity keeps opening it.
\<close>

theorem unverified_email_becomes_merge_key:
  assumes ok: "driver_ok drv" and inv: "service_inv s" and fresh: "fresh_ids ce1 s" "fresh_ids ce2 s1"
    and p1: "op_email p1 = Some a" "a \<noteq> []" "\<not> op_emailVerified p1"
    and new1: "\<forall>u \<in> set (users s). live u \<longrightarrow> \<not> has_link u (op_provider p1) (op_providerUserId p1)"
    and first: "find_or_create_oauth_user drv ce1 p1 s = (Inr g1, s1)"
    and p2: "op_email p2 = Some a" "op_emailVerified p2"
    and new2: "\<forall>u \<in> set (users s1). live u \<longrightarrow> \<not> has_link u (op_provider p2) (op_providerUserId p2)"
    and second: "find_or_create_oauth_user drv ce2 p2 s1 = (Inr g2, s2)"
    and p3: "op_provider p3 = op_provider p1" "op_providerUserId p3 = op_providerUserId p1"
    and third: "find_or_create_oauth_user drv ce3 p3 s2 = (Inr g3, s3)"
  shows "g_id g1 = ce_userId ce1 \<and> g2 = g1 \<and> g_id g3 = g_id g1"
proof -
  let ?x = "new_oauth_user ce1 p1"
  note f = first_unverified_login [OF ok p1(3) new1 first]
  have inv1: "service_inv s1"
    using find_or_create_oauth_user_keeps [OF ok inv fresh(1) first] by (simp add: keeps_def)
  have x: "?x \<in> set (users s1)" "u_email ?x = Some a" "live ?x" by (simp_all add: f p1 live_def)
  note m = verified_login_merges [OF ok service_invD(4) [OF inv1] p2(1) p1(2) p2(2) new2 x second]
  let ?y = "touch_user (ce_now ce2) (merge_oauth_link ce2 p2 ?x)"
  have "service_inv s2"
    using find_or_create_oauth_user_keeps [OF ok inv1 fresh(2) second] by (simp add: keeps_def)
  moreover have "live ?y" "has_link ?y (op_provider p3) (op_providerUserId p3)"
    by (simp_all add: live_def has_link_def p3 merge_oauth_link_def new_oauth_user_def oauth_link_now_def)
  ultimately have "g_id g3 = u_id ?y"
    using link_owner_logs_in [OF ok _ m(2) _ _ third] service_invD(3) by blast
  then show ?thesis using f m by (simp add: grant_of_def)
qed

theorem unverified_email_becomes_merge_key_witness:
  "\<exists>attacker s1 s2 s3.
     find_or_create_oauth_user mem_driver (demo_env ''x'' 5)
       \<lparr>op_provider = ''yandex'', op_providerUserId = ''evil'', op_email = Some ''v@b'',
        op_emailVerified = False, op_name = None\<rparr> demo_db = (Inr attacker, s1)
     \<and> find_or_create_oauth_user mem_driver (demo_env ''y'' 6)
       \<lparr>op_provider = ''vk'', op_providerUserId = ''victim'', op_email = Some ''v@b'',
        op_emailVerified = True, op_name = None\<rparr> s1 = (Inr attacker, s2)
     \<and> find_or_create_oauth_user mem_driver (demo_env ''z'' 7)
       \<lparr>op_provider = ''yandex'', op_providerUserId = ''evil'', op_email = None,
        op_emailVerified = False, op_name = None\<rparr> s2 = (Inr attacker, s3)"
proof -
  let ?p1 = "\<lparr>op_provider = ''yandex'', op_providerUserId = ''evil'', op_email = Some ''v@b'',
        op_emailVerified = False, op_name = None\<rparr>"
  let ?p2 = "\<lparr>op_provider = ''vk'', op_providerUserId = ''victim'', op_email = Some ''v@b'',
        op_emailVerified = True, op_name = None\<rparr>"
  let ?p3 = "\<lparr>op_provider = ''yandex'', op_providerUserId = ''evil'', op_email = None,
        op_emailVerified = False, op_name = None\<rparr>"
  let ?a1 = "new_oauth_user (demo_env ''x'' 5) ?p1"
  let ?a2 = "touch_user 6 (merge_oauth_link (demo_env ''y'' 6) ?p2 ?a1)"
  let ?s1 = "demo_db\<lparr>users := [demo_user, demo_anon, ?a1]\<rparr>"
  let ?s2 = "demo_db\<lparr>users := [demo_user, demo_anon, ?a2]\<rparr>"
  have links: "u_oauthLinks demo_user = []" "u_oauthLinks demo_anon = []" "u_email demo_user = Some ''a@b''"
    "u_email demo_anon = None" "u_id demo_user = ''u''" "u_id demo_anon = ''n''"
    by (simp_all add: demo_user_def demo_anon_def)
  have a1: "u_oauthLinks ?a1 = [oauth_link_now (demo_env ''x'' 5) ''yandex'' ''evil'' (Some ''v@b'')]"
    by (simp add: new_oauth_user_def)
  have grant: "grant_of ?a2 = grant_of ?a1" by (simp add: grant_of_def)
  have "find_or_create_oauth_user mem_driver (demo_env ''x'' 5) ?p1 demo_db = (Inr (grant_of ?a1), ?s1)"
    using links by (simp add: find_or_create_oauth_user_def create_oauth_user_def demo_db_def Let_def
        put_by_def)
  moreover have "find_or_create_oauth_user mem_driver (demo_env ''y'' 6) ?p2 ?s1 = (Inr (grant_of ?a1), ?s2)"
    using links a1 by (simp add: find_or_create_oauth_user_def demo_db_def save_user_def put_by_def
        oauth_link_now_def)
  moreover have "find_or_create_oauth_user mem_driver (demo_env ''z'' 7)
       \<lparr>op_provider = ''yandex'', op_providerUserId = ''evil'', op_email = None,
        op_emailVerified = False, op_name = None\<rparr> ?s2 = (Inr (grant_of ?a1), ?s2)"
    using links a1 grant by (simp add: find_or_create_oauth_user_def demo_db_def merge_oauth_link_def
        oauth_link_now_def)
  ultimately have run: "find_or_create_oauth_user mem_driver (demo_env ''x'' 5) ?p1 demo_db = (Inr (grant_of ?a1), ?s1)"
    "find_or_create_oauth_user mem_driver (demo_env ''y'' 6) ?p2 ?s1 = (Inr (grant_of ?a1), ?s2)"
    "find_or_create_oauth_user mem_driver (demo_env ''z'' 7) ?p3 ?s2 = (Inr (grant_of ?a1), ?s2)" by blast+
  have "fresh_ids (demo_env ''y'' 6) ?s1"
    by (simp add: fresh_ids_def demo_user_def demo_anon_def demo_env_def)
  moreover have "\<forall>u \<in> set (users demo_db). live u \<longrightarrow> \<not> has_link u ''yandex'' ''evil''"
    using links by (auto simp: demo_db_def has_link_def)
  moreover have "\<forall>u \<in> set (users ?s1). live u \<longrightarrow> \<not> has_link u ''vk'' ''victim''"
    using links a1 by (auto simp: has_link_def oauth_link_now_def)
  ultimately have "g_id (grant_of ?a1) = ce_userId (demo_env ''x'' 5)"
    using unverified_email_becomes_merge_key [of mem_driver demo_db "demo_env ''x'' 5" "demo_env ''y'' 6" ?s1 ?p1 "''v@b''"
        "grant_of ?a1" ?p2 "grant_of ?a1" ?s2 ?p3 "demo_env ''z'' 7" "grant_of ?a1" ?s2,
        OF mem_driver_ok demo_db_inv demo_fresh] run by simp
  with run show ?thesis by blast
qed

subsection \<open>Resetting a password\<close>

lemma same_email_same_user:
  assumes "db_unique s" and "u \<in> set (users s)" and "v \<in> set (users s)" and "u_email u \<noteq> None"
    and "u_email v = u_email u"
  shows "u_id v = u_id u"
  using assms unfolding db_unique_def by (auto dest: unique_indexD)

lemma rewrite_keeps_unique:
  assumes "db_unique s" and "u \<in> set (users s)" and "u_id x = u_id u" and "u_email x = u_email u"
  shows "db_unique (apply_change (PutUser x) s)"
  by (rule db_unique_put_user [OF assms(1-3)])
    (use same_email_same_user [OF assms(1,2)] assms(4) in simp)

lemma save_user_flush:
  assumes up: "store_up drv" and un: "db_unique s" and u: "u \<in> set (users s)" and id: "u_id x = u_id u"
    and email: "u_email x = u_email u" and diff: "x \<noteq> u"
  shows "flush drv (save_user t u x) s = (Inr (), apply_change (PutUser (touch_user t x)) s)"
proof -
  have "db_unique (apply_change (PutUser (touch_user t x)) s)"
    by (rule rewrite_keeps_unique [OF un u]) (simp_all add: id email)
  then show ?thesis using store_up_flush [OF up] diff by (simp add: save_user_def)
qed

lemma with_reset_token_changes: "u_resetPasswordToken u \<noteq> Some (sha256_hex ce (ce_randomToken ce)) \<Longrightarrow>
  with_reset_token ce u \<noteq> u"
  by (metis with_reset_token_simps(6))

lemma with_new_password_changes: "with_new_password h u \<noteq> u"
  by (metis n_not_Suc_n with_new_password_simps(9))

lemma forgot_password_stores:
  assumes up: "store_up drv" and un: "db_unique s" and u: "u \<in> set (users s)" "u_email u = Some email" "live u"
    and new: "u_resetPasswordToken u \<noteq> Some (hash_reset_token ce (ce_randomToken ce))"
  shows "\<exists>m'. forgot_password drv ce mail email s m =
    (Inr (), apply_change (PutUser (touch_user (ce_now ce) (with_reset_token ce u))) s, m')"
proof -
  have "find_user drv s [EmailIs email, NotDeleted] = Inr (Some u)"
  proof (rule store_up_find_user [OF up u(1)])
    show "sat user_matches [EmailIs email, NotDeleted] u" using u(2,3) by (simp add: live_def)
  qed (rule live_email_unique [OF un u(1,2)])
  moreover have "flush drv (save_user (ce_now ce) u (with_reset_token ce u)) s =
      (Inr (), apply_change (PutUser (touch_user (ce_now ce) (with_reset_token ce u))) s)"
    using up un u(1) by (rule save_user_flush)
      (use with_reset_token_changes new in \<open>auto simp: hash_reset_token_def\<close>)
  ultimately show ?thesis
    by (auto simp: forgot_password_def split: prod.splits option.splits)
qed

text \<open>
  C8: the e-mailed token works for an hour and not longer. After a \<open>forgotPassword\<close> for a live
  account, \<open>resetPassword\<close> with the token it drew stores the new hash, forgets the token and bumps
  the token version when it comes within sixty minutes, and is refused, changing nothing, when it
  comes later. (The store is reachable, the hash of the fresh token is nobody's, and both calls
  use the same hash function.)
\<close>

theorem reset_link_lifetime:
  assumes up: "store_up drv" and un: "db_unique s"
    and u: "u \<in> set (users s)" "u_email u = Some email" "u_deletedAt u = None"
    and new: "\<forall>v \<in> set (users s). u_resetPasswordToken v \<noteq> Some (hash_reset_token ce (ce_randomToken ce))"
    and forgot: "forgot_password drv ce mail email s m = (r, s1, m1)"
    and same: "sha256_hex ce2 = sha256_hex ce" and hash: "argon2_hash ce2 pw = Inr h"
  shows "reset_password drv ce2 (ce_randomToken ce) pw s1 =
    (if ce_now ce2 \<le> ce_now ce + 60 * 60 * 1000
     then (Inr (), apply_change (PutUser (touch_user (ce_now ce2)
             (with_new_password h (touch_user (ce_now ce) (with_reset_token ce u))))) s1)
     else (Inl invalid_reset_token, s1))"
proof -
  let ?u1 = "touch_user (ce_now ce) (with_reset_token ce u)"
  have alive: "live u" using u(3) by (simp add: live_def)
  have "u_resetPasswordToken u \<noteq> Some (hash_reset_token ce (ce_randomToken ce))"
    using new u(1) by simp
  from forgot_password_stores [OF up un u(1,2) alive this, of mail m] forgot have s1: "s1 = apply_change (PutUser ?u1) s" by simp
  have un1: "db_unique s1"
    unfolding s1 by (rule rewrite_keeps_unique [OF un u(1)]) simp_all
  have u1: "?u1 \<in> set (users s1)" by (simp add: s1)
  have "find_user drv s1 [ResetTokenIs (hash_reset_token ce2 (ce_randomToken ce)), NotDeleted] = Inr (Some ?u1)"
  proof (rule store_up_find_user [OF up u1])
    show "sat user_matches [ResetTokenIs (hash_reset_token ce2 (ce_randomToken ce)), NotDeleted] ?u1"
      using u(3) same by (simp add: hash_reset_token_def)
    fix v
    assume "v \<in> set (users s1)"
      and "sat user_matches [ResetTokenIs (hash_reset_token ce2 (ce_randomToken ce)), NotDeleted] v"
    with new same show "v = ?u1" by (auto simp: s1 hash_reset_token_def)
  qed
  moreover have "flush drv (save_user (ce_now ce2) ?u1 (with_new_password h ?u1)) s1 =
      (Inr (), apply_change (PutUser (touch_user (ce_now ce2) (with_new_password h ?u1))) s1)"
    using up un1 u1 by (rule save_user_flush) (simp_all add: with_new_password_changes)
  ultimately show ?thesis
    using hash by (simp add: reset_password_def reset_ttl_def)
qed

theorem reset_link_lifetime_witness:
  "\<exists>s1 m1. forgot_password mem_driver (demo_env ''x'' 5) (\<lambda>a t m. (None, m @ [(a, t)])) ''a@b'' demo_db []
         = (Inr (), s1, m1)
     \<and> m1 = [(''a@b'', ''tx'')]
     \<and> reset_password mem_driver (demo_env ''y'' 3600006) ''tx'' ''new'' s1 = (Inl invalid_reset_token, s1)
     \<and> fst (reset_password mem_driver (demo_env ''y'' 3600005) ''tx'' ''new'' s1) = Inr ()"
proof -
  let ?mail = "\<lambda>a t (m :: (string \<times> string) list). (None, m @ [(a, t)])"
  let ?u = "touch_user 5 (with_reset_token (demo_env ''x'' 5) demo_user)"
  let ?s1 = "demo_db\<lparr>users := [?u, demo_anon]\<rparr>"
  have f: "forgot_password mem_driver (demo_env ''x'' 5) ?mail ''a@b'' demo_db []
      = (Inr (), ?s1, [(''a@b'', ''tx'')])"
    by (simp add: forgot_password_def demo_defs save_user_def with_reset_token_def new_user_def
        put_by_def touch_user_def)
  have un: "db_unique demo_db" by (rule service_invD(4) [OF demo_db_inv])
  have u: "demo_user \<in> set (users demo_db)" "u_email demo_user = Some ''a@b''" "u_deletedAt demo_user = None"
    by (simp_all add: demo_defs)
  have new: "\<forall>v \<in> set (users demo_db).
      u_resetPasswordToken v \<noteq> Some (hash_reset_token (demo_env ''x'' 5) (ce_randomToken (demo_env ''x'' 5)))"
    by (simp add: demo_defs)
  note r = reset_link_lifetime [OF mem_store_up un u new f, where pw = "''new''" and h = "''$new''"]
  have "reset_password mem_driver (demo_env ''y'' 3600006) ''tx'' ''new'' ?s1 = (Inl invalid_reset_token, ?s1)"
    using r [of "demo_env ''y'' 3600006"] by (simp add: demo_env_def)
  moreover have "fst (reset_password mem_driver (demo_env ''y'' 3600005) ''tx'' ''new'' ?s1) = Inr ()"
    using r [of "demo_env ''y'' 3600005"] by (simp add: demo_env_def)
  ultimately show ?thesis using f by blast
qed

text \<open>
  C9: a reset token is good for one password change. Once \<open>resetPassword\<close> has succeeded with a
  token, another call with it, at any time, finds no account and is refused, provided no two
  accounts had the same pending token.
\<close>

theorem reset_token_single_use:
  assumes ok: "driver_ok drv" and un: "db_unique s" and tok: "unique_index u_resetPasswordToken (users s)"
    and first: "reset_password drv ce token pw s = (Inr (), s1)"
    and same: "sha256_hex ce2 = sha256_hex ce"
  shows "fst (reset_password drv ce2 token pw2 s1) \<noteq> Inr ()"
proof
  assume second: "fst (reset_password drv ce2 token pw2 s1) = Inr ()"
  from first obtain u h where
    f: "find_user drv s ([ResetTokenIs (hash_reset_token ce token)] @ [NotDeleted]) = Inr (Some u)" and
    fl: "flush drv (save_user (ce_now ce) u (with_new_password h u)) s = (Inr (), s1)"
    by (auto simp: reset_password_def split: sum.splits option.splits if_splits)
  note u = find_live_user [OF ok f]
  have s1: "set (users s1) = insert (touch_user (ce_now ce) (with_new_password h u))
      {v \<in> set (users s). u_id v \<noteq> u_id u}"
    using flush_Inr [OF ok fl] by (simp add: save_user_def with_new_password_changes)
  from second obtain v where
    g: "find_user drv s1 ([ResetTokenIs (hash_reset_token ce2 token)] @ [NotDeleted]) = Inr (Some v)"
    by (auto simp: reset_password_def split: sum.splits option.splits if_splits)
  note v = find_live_user [OF ok g]
  from v(3) have vt: "u_resetPasswordToken v = Some (hash_reset_token ce token)"
    using same by (simp add: hash_reset_token_def)
  then have old: "v \<in> set (users s)" "u_id v \<noteq> u_id u"
    using v(1) s1 by auto
  moreover have "v = u"
    using unique_indexD [OF tok old(1) u(1) vt] u(3) by simp
  ultimately show False by simp
qed

theorem reset_token_single_use_witness:
  "\<exists>s1. reset_password mem_driver (demo_env ''x'' 5) ''t'' ''new''
           (demo_db\<lparr>users := [demo_user\<lparr>u_resetPasswordToken := Some ''#t'',
              u_resetPasswordExpiry := Some 9\<rparr>]\<rparr>) = (Inr (), s1)
     \<and> fst (reset_password mem_driver (demo_env ''y'' 6) ''t'' ''other'' s1) \<noteq> Inr ()"
proof -
  let ?u = "demo_user\<lparr>u_resetPasswordToken := Some ''#t'', u_resetPasswordExpiry := Some 9\<rparr>"
  let ?s = "demo_db\<lparr>users := [?u]\<rparr>"
  let ?s1 = "?s\<lparr>users := [touch_user 5 (with_new_password ''$new'' ?u)]\<rparr>"
  have "reset_password mem_driver (demo_env ''x'' 5) ''t'' ''new'' ?s = (Inr (), ?s1)"
    by (simp add: reset_password_def hash_reset_token_def demo_user_def save_user_def put_by_def
        with_new_password_changes)
  moreover have "db_unique ?s"
    by (simp add: db_unique_def unique_index_def demo_db_def)
  moreover have "unique_index u_resetPasswordToken (users ?s)"
    by (simp add: unique_index_def)
  moreover have "sha256_hex (demo_env ''y'' 6) = sha256_hex (demo_env ''x'' 5)"
    by (simp add: demo_env_def)
  ultimately show ?thesis
    using reset_token_single_use [OF mem_driver_ok] by blast
qed

subsection \<open>Updating and deleting an account\<close>

lemma other_users:
  assumes "db_unique s" and "u \<in> set (users s)"
  shows "{v \<in> set (users s). u_id v \<noteq> u_id u} = set (users s) - {u}"
  using user_by_id [OF assms(1) _ assms(2)] by blast

text \<open>
  C10: \<open>updateUser\<close> is an allowlist. When it succeeds, the account differs from what it was in at
  most the display name, time zone, locale, avatar, onboarding flag and \<open>updatedAt\<close>, the reply is
  the account as stored, and nothing else in the database moved.
\<close>

theorem update_user_allowlist:
  assumes ok: "driver_ok drv" and un: "db_unique s"
    and op: "update_user drv ce userId d s = (Inr dto, s')"
  shows "\<exists>u \<in> set (users s). \<exists>u'. u_deletedAt u = None \<and> set (users s') = insert u' (set (users s) - {u})
      \<and> u' = u\<lparr>u_name := u_name u', u_tz := u_tz u', u_locale := u_locale u',
                u_avatarUrl := u_avatarUrl u', u_onboardingCompleted := u_onboardingCompleted u',
                u_updatedAt := u_updatedAt u'\<rparr>
      \<and> dto = to_dto u' \<and> devices s' = devices s \<and> outbox s' = outbox s"
proof -
  from op obtain u where
    u: "find_by_id drv ce userId s = Inr u" and
    fl: "flush drv (save_user (ce_now ce) u (apply_update d u)) s = (Inr (), s')" and
    dto: "dto = to_dto (flushed_user (ce_now ce) u (apply_update d u))"
    by (auto simp: update_user_def Let_def split: sum.splits prod.splits)
  note byid = find_by_id_Inr [OF ok u]
  have s': "s' = apply_changes (save_user (ce_now ce) u (apply_update d u)) s"
    using flush_Inr [OF ok fl] .
  let ?u' = "flushed_user (ce_now ce) u (apply_update d u)"
  have "set (users s') = insert ?u' (set (users s) - {u})"
    using byid(1) other_users [OF un byid(1)] by (auto simp: s' save_user_def flushed_user_def)
  moreover have "devices s' = devices s" "outbox s' = outbox s"
    by (simp_all add: s' save_user_def)
  moreover have "?u' = u\<lparr>u_name := u_name ?u', u_tz := u_tz ?u', u_locale := u_locale ?u',
                u_avatarUrl := u_avatarUrl ?u', u_onboardingCompleted := u_onboardingCompleted ?u',
                u_updatedAt := u_updatedAt ?u'\<rparr>"
    by (cases u) (simp add: flushed_user_def touch_user_def apply_update_def)
  ultimately show ?thesis
    using byid dto by (intro bexI [of _ u] exI [of _ ?u']) (auto simp: live_def)
qed

definition demo_update :: update_user_input where
  "demo_update =
     \<lparr>ui_name = SetTo ''Al'', ui_tz = None, ui_locale = Some En, ui_avatarUrl = SetNull,
      ui_onboardingCompleted = None\<rparr>"

theorem update_user_allowlist_witness:
  "\<exists>dto s'. update_user mem_driver (demo_env ''x'' 5) ''u'' demo_update demo_db = (Inr dto, s')
     \<and> dto_name dto = ''Al'' \<and> devices s' = devices demo_db"
proof -
  let ?u' = "touch_user 5 (apply_update demo_update demo_user)"
  have op: "update_user mem_driver (demo_env ''x'' 5) ''u'' demo_update demo_db
      = (Inr (to_dto ?u'), demo_db\<lparr>users := [?u', demo_anon]\<rparr>)"
    by (simp add: update_user_def find_by_id_def demo_defs demo_update_def save_user_def put_by_def
        apply_update_def flushed_user_def new_user_def touch_user_def)
  from update_user_allowlist [OF mem_driver_ok service_invD(4) [OF demo_db_inv] op]
  have "devices (demo_db\<lparr>users := [?u', demo_anon]\<rparr>) = devices demo_db" by blast
  with op show ?thesis by (simp add: to_dto_def apply_update_def demo_update_def touch_user_def)
qed

lemma delete_user_writes:
  assumes ok: "driver_ok drv" and un: "db_unique s"
    and op: "delete_user drv ce userId s = (Inr (), s')"
  obtains u row created staged where "find_by_id drv ce userId s = Inr u"
    "stage_outbox_event drv s (ce_now ce) (ce_outboxId ce) (user_deleted_stage (u_id u))
      = Inr (row, created, staged)"
    "s' = apply_changes staged (apply_change (PutUser (touch_user (ce_now ce) (deleted_user (ce_now ce) u))) s)"
    "set (users s') = insert (touch_user (ce_now ce) (deleted_user (ce_now ce) u)) (set (users s) - {u})"
proof -
  from op obtain u row created staged where
    u: "find_by_id drv ce userId s = Inr u" and
    st: "stage_outbox_event drv s (ce_now ce) (ce_outboxId ce) (user_deleted_stage (u_id u))
      = Inr (row, created, staged)" and
    fl: "flush drv (save_user (ce_now ce) u (deleted_user (ce_now ce) u) @ staged) s = (Inr (), s')"
    by (auto simp: delete_user_def split: sum.splits)
  note byid = find_by_id_Inr [OF ok u]
  let ?u' = "touch_user (ce_now ce) (deleted_user (ce_now ce) u)"
  have diff: "deleted_user (ce_now ce) u \<noteq> u"
    by (metis deleted_user_simps(9) n_not_Suc_n)
  have s': "s' = apply_changes staged (apply_change (PutUser ?u') s)"
    using flush_Inr [OF ok fl] diff by (simp add: save_user_def)
  have frame: "users s' = users (apply_change (PutUser ?u') s)"
    using s' by (rule stage_cases_frame [OF ok st])
  have "set (users s') = insert ?u' (set (users s) - {u})"
    using frame other_users [OF un byid(1)] by simp
  with u st s' that show ?thesis by blast
qed

text \<open>
  C11: a successful \<open>deleteUser\<close> scrubs the account and announces it. The account keeps its
  identifier but is marked deleted, without address, password and pending reset, at a higher token
  version; the service no longer finds it by any spelling of the identifier; and in the same flush
  the outbox holds its \<open>user.deleted\<close> row, either one staged before and not given up, or a pending
  one that carries the identifier.
\<close>

theorem delete_user_scrubs_and_announces:
  assumes ok: "driver_ok drv" and un: "db_unique s"
    and op: "delete_user drv ce userId s = (Inr (), s')"
  shows "\<exists>u \<in> set (users s). \<exists>u'. u_deletedAt u = None \<and> to_object_id ce userId = Inr (u_id u)
      \<and> set (users s') = insert u' (set (users s) - {u})
      \<and> u_id u' = u_id u \<and> u_deletedAt u' = Some (ce_now ce) \<and> u_email u' = None
      \<and> u_passwordHash u' = None \<and> u_resetPasswordToken u' = None \<and> u_resetPasswordExpiry u' = None
      \<and> token_version u' = token_version u + 1
      \<and> (\<forall>ce2 i v. find_by_id drv ce2 i s' = Inr v \<longrightarrow> u_id v \<noteq> u_id u)
      \<and> (\<exists>e \<in> set (outbox s'). o_idempotencyKey e = ''user.deleted:'' @ u_id u
           \<and> (e \<in> set (outbox s) \<and> o_status e \<noteq> Failed
              \<or> o_status e = Pending \<and> js_get (o_payload e) ''userId'' = JStr (u_id u)))"
proof -
  from ok un op obtain u row created staged where
    u: "find_by_id drv ce userId s = Inr u" and
    st: "stage_outbox_event drv s (ce_now ce) (ce_outboxId ce) (user_deleted_stage (u_id u))
      = Inr (row, created, staged)" and
    s': "s' = apply_changes staged
      (apply_change (PutUser (touch_user (ce_now ce) (deleted_user (ce_now ce) u))) s)" and
    users: "set (users s') = insert (touch_user (ce_now ce) (deleted_user (ce_now ce) u)) (set (users s) - {u})"
    by (rule delete_user_writes)
  note byid = find_by_id_Inr [OF ok u]
  let ?u' = "touch_user (ce_now ce) (deleted_user (ce_now ce) u)"
  have gone: "u_id v \<noteq> u_id u" if "find_by_id drv ce2 i s' = Inr v" for ce2 i v
  proof
    assume "u_id v = u_id u"
    moreover have "v \<in> set (users s')" "live v"
      using find_by_id_Inr [OF ok that] by auto
    ultimately show False
      using users user_by_id [OF un _ byid(1), of v] by auto
  qed
  from ok st have "\<exists>e \<in> set (outbox s'). o_idempotencyKey e = ''user.deleted:'' @ u_id u
      \<and> (e \<in> set (outbox s) \<and> o_status e \<noteq> Failed
         \<or> o_status e = Pending \<and> js_get (o_payload e) ''userId'' = JStr (u_id u))"
  proof (cases rule: stage_outbox_cases)
    case new
    then show ?thesis by (auto simp: s' user_deleted_stage_def)
  next
    case kept
    then show ?thesis by (auto simp: s' user_deleted_stage_def)
  next
    case (revived e)
    then have "touch_outbox (ce_now ce) row \<in> set (outbox s')" by (simp add: s')
    with revived show ?thesis
      by (intro bexI [of _ "touch_outbox (ce_now ce) row"])
        (auto simp: user_deleted_stage_def revive_row_def)
  qed
  then show ?thesis
    using byid users gone by (intro bexI [of _ u] exI [of _ ?u']) (auto simp: live_def)
qed

theorem delete_user_scrubs_and_announces_witness:
  "\<exists>s'. delete_user mem_driver (demo_env ''x'' 5) ''n'' demo_db = (Inr (), s')
     \<and> (\<exists>e \<in> set (outbox s'). js_get (o_payload e) ''userId'' = JStr ''n'')"
proof -
  from delete_user_scrubs_and_announces [OF mem_driver_ok service_invD(4) [OF demo_db_inv] demo_delete]
  have "\<exists>e \<in> set (outbox (demo_db\<lparr>users := [demo_user, touch_user 5 (deleted_user 5 demo_anon)],
         outbox := [staged_row ''ox'' 5 (user_deleted_stage ''n'')]\<rparr>)).
      js_get (o_payload e) ''userId'' = JStr ''n''"
    by (auto simp: demo_db_def)
  with demo_delete show ?thesis by blast
qed

text \<open>
  C3: an anonymous account deleted by its owner comes back. \<open>deleteUser\<close> leaves the device rows and
  \<open>createAutoregUser\<close> does not look at \<open>deletedAt\<close>: on any store, a successful call with the
  fingerprint of an unblocked device of the account returns the identifier of the deleted account,
  which every later read refuses, instead of a fresh account.
\<close>

theorem autoreg_returns_deleted_account:
  assumes ok: "driver_ok drv" and un: "db_unique s"
    and del: "delete_user drv ce userId s = (Inr (), s1)" and id: "to_object_id ce userId = Inr i"
    and anon: "\<And>u. u \<in> set (users s) \<Longrightarrow> u_id u = i \<Longrightarrow> u_accountType u = Autoreg"
    and d: "d \<in> set (devices s)" "d_userId d = i" "\<not> d_isBlocked d"
    and call: "create_autoreg_user drv ce2 p s1 = (Inr res, s2)" and fp: "ap_fingerprint p = d_fingerprint d"
  shows "ar_id res = i \<and> (\<forall>ce3 x v. find_by_id drv ce3 x s2 = Inr v \<longrightarrow> u_id v \<noteq> i)"
proof -
  from ok un del obtain u row created staged where u: "find_by_id drv ce userId s = Inr u"
    and st: "stage_outbox_event drv s (ce_now ce) (ce_outboxId ce) (user_deleted_stage (u_id u))
      = Inr (row, created, staged)"
    and s1: "s1 = apply_changes staged
      (apply_change (PutUser (touch_user (ce_now ce) (deleted_user (ce_now ce) u))) s)"
    and users1: "set (users s1) = insert (touch_user (ce_now ce) (deleted_user (ce_now ce) u)) (set (users s) - {u})"
    by (rule delete_user_writes)
  let ?dead = "touch_user (ce_now ce) (deleted_user (ce_now ce) u)"
  note byid = find_by_id_Inr [OF ok u]
  have ui: "u_id u = i" using byid(3) id by simp
  have "devices s1 = devices s"
    using ok st by (cases rule: stage_outbox_cases) (simp_all add: s1)
  with un d(1) have d1: "d \<in> set (devices s1)"
    and fp_unique: "x \<in> set (devices s1) \<Longrightarrow> d_fingerprint x = d_fingerprint d \<Longrightarrow> x = d" for x
    by (auto simp: db_unique_def unique_index_def)
  have dead_only: "v = ?dead" if "v \<in> set (users s1)" "u_id v = i" for v
    using that users1 user_by_id [OF un _ byid(1), of v] ui by auto
  from call obtain found where f: "find_device drv s1 [FingerprintIs (ap_fingerprint p)] = Inr found"
    by (auto simp: create_autoreg_user_def split: sum.splits)
  have "found = Some d"
  proof (cases found)
    case None
    with find_device_None [OF ok f [unfolded None] d1] fp show ?thesis by simp
  next
    case (Some x)
    with find_device_Some [OF ok f [unfolded Some]] fp fp_unique [of x] show ?thesis by simp
  qed
  with call f d obtain l where l: "find_user drv s1 [UserIdIs i] = Inr l"
    by (auto simp: create_autoreg_user_def split: sum.splits)
  have "l = Some ?dead"
  proof (rule find_user_the [OF ok l])
    show "?dead \<in> set (users s1)" using users1 by simp
    show "sat user_matches [UserIdIs i] ?dead" using ui by simp
    show "v = ?dead" if "v \<in> set (users s1)" "sat user_matches [UserIdIs i] v" for v
      using dead_only [OF that(1)] that(2) by simp
  qed
  moreover have "u_accountType ?dead = Autoreg" using anon [OF byid(1) ui] by simp
  ultimately have run: "create_autoreg_user drv ce2 p s1 =
      (case flush drv (save_device (ce_now ce2) d (seen_device ce2 p d)) s1 of
         (Inl e, s') \<Rightarrow> (Inl e, s')
       | (Inr (), s') \<Rightarrow>
           (Inr \<lparr>ar_id = i, ar_deviceRecordId = d_id d, ar_tokenVersion = token_version ?dead\<rparr>, s'))"
    using f \<open>found = Some d\<close> d(2,3) l
    by (simp add: create_autoreg_user_def split: prod.splits sum.splits)
  obtain q t where fl: "flush drv (save_device (ce_now ce2) d (seen_device ce2 p d)) s1 = (q, t)" by fastforce
  with run call have "q = Inr ()" and t: "t = s2" and res: "ar_id res = i"
    by (auto split: sum.splits)
  with fl have fl: "flush drv (save_device (ce_now ce2) d (seen_device ce2 p d)) s1 = (Inr (), s2)" by simp
  have "users s2 = users s1" using flush_Inr [OF ok fl] by (simp add: save_device_def split: if_splits)
  then have "u_id v \<noteq> i" if "find_by_id drv ce3 x s2 = Inr v" for ce3 x v
    using find_by_id_Inr [OF ok that] dead_only [of v] by (auto simp: live_def)
  with res show ?thesis by blast
qed

theorem autoreg_returns_deleted_account_witness:
  "\<exists>s1 s2 res.
     delete_user mem_driver (demo_env ''x'' 5) ''n'' demo_db = (Inr (), s1)
     \<and> create_autoreg_user mem_driver (demo_env ''y'' 9)
         (demo_autoreg\<lparr>ap_fingerprint := ''fp''\<rparr>) s1 = (Inr res, s2)
     \<and> ar_id res = ''n''"
proof -
  let ?dead = "touch_user 5 (deleted_user 5 demo_anon)"
  let ?row = "staged_row ''ox'' 5 (user_deleted_stage ''n'')"
  let ?s1 = "demo_db\<lparr>users := [demo_user, ?dead], outbox := [?row]\<rparr>"
  let ?s2 = "?s1\<lparr>devices := [demo_device\<lparr>d_lastSeenAt := 9, d_updatedAt := 9\<rparr>]\<rparr>"
  let ?res = "\<lparr>ar_id = ''n'', ar_deviceRecordId = ''dn'', ar_tokenVersion = 1\<rparr>"
  have call: "create_autoreg_user mem_driver (demo_env ''y'' 9)
      (demo_autoreg\<lparr>ap_fingerprint := ''fp''\<rparr>) ?s1 = (Inr ?res, ?s2)"
    by (simp add: create_autoreg_user_def demo_autoreg_def demo_defs save_device_def seen_device_def
        touch_device_def new_device_def put_by_def)
  have "to_object_id (demo_env ''x'' 5) ''n'' = Inr ''n''" by (simp add: demo_defs)
  moreover have "u_accountType u = Autoreg" if "u \<in> set (users demo_db)" "u_id u = ''n''" for u
    using that by (auto simp: demo_db_def demo_user_def demo_anon_def)
  moreover have "demo_device \<in> set (devices demo_db)" "d_userId demo_device = ''n''" "\<not> d_isBlocked demo_device"
    "ap_fingerprint (demo_autoreg\<lparr>ap_fingerprint := ''fp''\<rparr>) = d_fingerprint demo_device"
    by (simp_all add: demo_db_def demo_device_def)
  ultimately have "ar_id ?res = ''n''"
    using autoreg_returns_deleted_account [OF mem_driver_ok service_invD(4) [OF demo_db_inv] demo_delete _ _ _ _ _ call]
    by blast
  with call demo_delete show ?thesis by blast
qed

end
