(* ===== verification/Sessions.thy ===== *)
theory Sessions
  imports Gateway_Rpc Users_Properties
begin

section \<open>Sessions: token versions across the gateway and the user service\<close>

text \<open>
  The contract between the gateway's auth service and the user service, as a locale, and what the
  gateway can conclude from it about the refresh tokens it has issued. The interpretation proves
  the contract for the composed model \<open>user_rpc\<close>.
\<close>

subsection \<open>The contract\<close>

text \<open>
  \<open>standing w i a n\<close>: in the world \<open>w\<close> the account \<open>i\<close> exists with type \<open>a\<close> and token version
  \<open>n\<close>. Messages keep the world sane, let token versions only grow, and change the type of an account
  only together with its version; what a reply grants is the standing after the call.
\<close>

locale identity_service =
  fixes lawful :: bool
    and rpc :: "user_message \<Rightarrow> 'w \<Rightarrow> (exn + user_reply) \<times> 'w"
    and sane :: "'w \<Rightarrow> bool"
    and standing :: "'w \<Rightarrow> string \<Rightarrow> account_type \<Rightarrow> nat \<Rightarrow> bool"
  assumes sane_step: "lawful \<Longrightarrow> sane w \<Longrightarrow> rpc m w = (r, w') \<Longrightarrow> sane w'"
    and standing_unique: "lawful \<Longrightarrow> sane w \<Longrightarrow> standing w i a n \<Longrightarrow> standing w i b k \<Longrightarrow> a = b \<and> n = k"
    and standing_step: "lawful \<Longrightarrow> sane w \<Longrightarrow> rpc m w = (r, w') \<Longrightarrow> standing w i a n \<Longrightarrow>
           \<exists>b k. standing w' i b k \<and> (n < k \<or> n = k \<and> a = b)"
    and version_reply: "lawful \<Longrightarrow> sane w \<Longrightarrow> standing w i a n \<Longrightarrow>
           rpc (GetUserTokenVersion i) w = (Inr (VersionReply k), w') \<Longrightarrow> k = n \<and> standing w' i a n"
    and autoreg_reply: "lawful \<Longrightarrow> sane w \<Longrightarrow> rpc (CreateAutoregUser f pl ip) w = (Inr (AutoregReply x), w') \<Longrightarrow>
           standing w' (ar_id x) Autoreg (ar_tokenVersion x)"
    and login_reply: "lawful \<Longrightarrow> sane w \<Longrightarrow> rpc (LoginUser mail pass) w = (Inr (GrantReply g), w') \<Longrightarrow>
           g_accountType g = Registered \<and> standing w' (g_id g) Registered (g_tokenVersion g)"
    and oauth_reply: "lawful \<Longrightarrow> sane w \<Longrightarrow>
           rpc (FindOrCreateOAuthUser pr pid em ev nm) w = (Inr (GrantReply g), w') \<Longrightarrow>
           g_accountType g = Registered \<and> standing w' (g_id g) Registered (g_tokenVersion g)"
    and upgrade_reply: "lawful \<Longrightarrow> sane w \<Longrightarrow> standing w i a n \<Longrightarrow>
           rpc (UpgradeUserAccount i me em pw nm pid2) w = (Inr (UserReply u), w') \<Longrightarrow>
           \<exists>k. u_tokenVersion u = Some k \<and> n < k \<and> standing w' i Registered k"
begin

fun deliver :: "user_message list \<Rightarrow> 'w \<Rightarrow> 'w" where
  "deliver [] w = w"
| "deliver (m # ms) w = deliver ms (snd (rpc m w))"

text \<open>Claims that were true when they were made: no newer than the account, and of its type if current.\<close>

definition honest :: "'w \<Rightarrow> jwt_payload \<Rightarrow> bool" where
  "honest w p \<longleftrightarrow>
     (\<exists>i a n b k. jp_sub p = Some i \<and> jp_type p = Some (account_type_str a) \<and> jp_tv p = Some n
        \<and> standing w i b k \<and> (n < k \<or> n = k \<and> a = b))"

lemma honest_standing:
  "standing w i a n \<Longrightarrow> honest w (refresh_claims i (Some (account_type_str a)) j d (Some n))"
  unfolding honest_def refresh_claims_def by auto

lemma honest_step:
  assumes "lawful" and "sane w" and "rpc m w = (r, w')" and "honest w p"
  shows "honest w' p"
proof -
  from assms(4) obtain i a n b k where
    p: "jp_sub p = Some i" "jp_type p = Some (account_type_str a)" "jp_tv p = Some n" and
    s: "standing w i b k" "n < k \<or> n = k \<and> a = b"
    unfolding honest_def by blast
  from standing_step [OF assms(1-3) s(1)] obtain b' k'
    where "standing w' i b' k'" "k < k' \<or> k = k' \<and> b = b'" by blast
  with p s(2) show ?thesis unfolding honest_def by force
qed

lemma sane_deliver: "lawful \<Longrightarrow> sane w \<Longrightarrow> sane (deliver ms w)"
proof (induction ms arbitrary: w)
  case (Cons m ms)
  then show ?case using sane_step [OF Cons.prems, of m] by (cases "rpc m w") simp
qed simp

lemma standing_deliver:
  "lawful \<Longrightarrow> sane w \<Longrightarrow> standing w i a n \<Longrightarrow>
     \<exists>b k. standing (deliver ms w) i b k \<and> (n < k \<or> n = k \<and> a = b)"
proof (induction ms arbitrary: w a n)
  case (Cons m ms)
  obtain r w1 where op: "rpc m w = (r, w1)" by (rule prod.exhaust)
  from standing_step [OF Cons.prems(1,2) op Cons.prems(3)] obtain b k
    where s: "standing w1 i b k" "n < k \<or> n = k \<and> a = b" by blast
  from Cons.IH [OF Cons.prems(1) sane_step [OF Cons.prems(1,2) op] s(1)] s(2) op
  show ?case by fastforce
qed auto

lemma honest_deliver: "lawful \<Longrightarrow> sane w \<Longrightarrow> honest w p \<Longrightarrow> honest (deliver ms w) p"
proof (induction ms arbitrary: w)
  case (Cons m ms)
  obtain r w1 where op: "rpc m w = (r, w1)" by (rule prod.exhaust)
  with Cons.IH [OF Cons.prems(1) sane_step [OF Cons.prems(1,2) op] honest_step [OF Cons.prems(1,2) op]]
    Cons.prems show ?case by simp
qed simp

text \<open>What the auth service asks before it rotates a pair.\<close>

lemma ask_version:
  assumes "ask rpc as_version (GetUserTokenVersion i) w = (Inr n, w')"
  shows "rpc (GetUserTokenVersion i) w = (Inr (VersionReply n), w')"
proof -
  obtain r w1 where op: "rpc (GetUserTokenVersion i) w = (r, w1)" by (rule prod.exhaust)
  show ?thesis
  proof (cases r)
    case (Inl e)
    with op assms show ?thesis by (simp add: ask_def)
  next
    case (Inr v)
    with op assms have "as_version v = Inr n" "w1 = w'" by (auto simp: ask_def)
    with Inr op show ?thesis by (cases v) auto
  qed
qed

lemma refresh_current:
  assumes l: "lawful" "sane w" and h: "standing w i a n"
    and op: "gw_refresh gw rpc bl i j e d ty tv w r = (Inr pair, w', r')"
  shows "nullish tv 0 = n" and "standing w' i a n"
    and "pair = issue_token_pair gw i ty d (Some n)" and "bl (gw_now gw) j e r = (Inr (), r')"
proof -
  from op obtain k where ask: "ask rpc as_version (GetUserTokenVersion i) w = (Inr k, w')"
    and k: "nullish tv 0 = k" and pair: "pair = issue_token_pair gw i ty d (Some k)"
    and bl: "bl (gw_now gw) j e r = (Inr (), r')"
    by (auto simp: gw_refresh_def split: prod.splits sum.splits if_splits)
  from version_reply [OF l h ask_version [OF ask]] k pair bl
  show "nullish tv 0 = n" and "standing w' i a n"
    and "pair = issue_token_pair gw i ty d (Some n)" and "bl (gw_now gw) j e r = (Inr (), r')"
    by auto
qed

lemma refresh_stale:
  assumes "lawful" and "sane w" and "standing w i a n" and "nullish tv 0 \<noteq> n"
  shows "\<exists>err w'. gw_refresh gw rpc bl i j e d ty tv w r = (Inl err, w', r)"
proof -
  obtain q w1 where ask: "ask rpc as_version (GetUserTokenVersion i) w = (q, w1)" by (rule prod.exhaust)
  show ?thesis
  proof (cases q)
    case (Inl err)
    with ask show ?thesis by (simp add: gw_refresh_def)
  next
    case (Inr k)
    with ask version_reply [OF assms(1-3) ask_version] assms(4) have "nullish tv 0 \<noteq> k" by auto
    with ask Inr show ?thesis by (simp add: gw_refresh_def)
  qed
qed

text \<open>A token version that was overtaken stays overtaken.\<close>

lemma overtaken_refresh_fails:
  assumes "lawful" and "sane w" and "standing w i b k" and "n < k"
  shows "\<exists>err w'. gw_refresh gw rpc bl i j e d ty (Some n) (deliver ms w) r = (Inl err, w', r)"
proof -
  from standing_deliver [OF assms(1-3), of ms] obtain b' k'
    where "standing (deliver ms w) i b' k'" "k < k' \<or> k = k' \<and> b = b'" by blast
  with assms(4) show ?thesis
    by (intro refresh_stale [OF assms(1) sane_deliver [OF assms(1,2)]]) auto
qed

text \<open>Refreshing an honest token yields an honest one, of the account's present type.\<close>

lemma refresh_honest:
  assumes l: "lawful" "sane w" and h: "honest w p" and sub: "jp_sub p = Some i"
    and op: "gw_refresh gw rpc bl i j e d (jp_type p) (jp_tv p) w r = (Inr pair, w', r')"
  shows "\<exists>a n. standing w' i a n \<and> jp_type p = Some (account_type_str a)
     \<and> pair = issue_token_pair gw i (Some (account_type_str a)) d (Some n)"
proof -
  from h sub obtain a n b k where
    p: "jp_type p = Some (account_type_str a)" "jp_tv p = Some n" and
    s: "standing w i b k" "n < k \<or> n = k \<and> a = b"
    unfolding honest_def by auto
  note cur = refresh_current [OF l s(1) op]
  from cur(1) p(2) s(2) have "a = b" "n = k" by auto
  with cur p show ?thesis by auto
qed

end

subsection \<open>The user service behind its RPC honours it\<close>

definition standing :: "'m world \<Rightarrow> string \<Rightarrow> account_type \<Rightarrow> nat \<Rightarrow> bool" where
  "standing w i a n \<longleftrightarrow>
     (\<exists>u \<in> set (users (w_db w)). u_id u = i \<and> u_accountType u = a \<and> token_version u = n)"

lemma standing_evolves:
  assumes "evolves (w_db w) (w_db w')" and "standing w i a n"
  shows "\<exists>b k. standing w' i b k \<and> (n < k \<or> n = k \<and> a = b)"
proof -
  from assms(2) obtain u where u: "u \<in> set (users (w_db w))" "u_id u = i" "u_accountType u = a"
    "token_version u = n" by (auto simp: standing_def)
  with assms(1) obtain u' where "u' \<in> set (users (w_db w'))" "advances u u'"
    by (auto simp: evolves_def)
  with u show ?thesis
    unfolding standing_def advances_def
    by (intro exI [of _ "u_accountType u'"] exI [of _ "token_version u'"]) auto
qed

lemma world_okD:
  assumes "world_ok bk w"
  shows "service_inv (w_db w)" and "fresh_ids (bk_env bk (w_calls w)) (w_db w)" and "db_unique (w_db w)"
  using assms by (auto simp: world_ok_def intro: service_invD(4))

lemma standing_the:
  assumes "world_ok bk w" and "v \<in> set (users (w_db w))" and "standing w (u_id v) a n"
  shows "u_accountType v = a" and "token_version v = n"
proof -
  from assms(3) obtain u where u: "u \<in> set (users (w_db w))" "u_id u = u_id v" "u_accountType u = a"
    "token_version u = n" by (auto simp: standing_def)
  have "u = v" by (rule user_by_id [OF world_okD(3) [OF assms(1)] u(1) assms(2) u(2)])
  with u show "u_accountType v = a" and "token_version v = n" by auto
qed

lemma registered_by_email: "service_inv s \<Longrightarrow> u \<in> set (users s) \<Longrightarrow> u_email u \<noteq> None \<Longrightarrow> u_accountType u = Registered"
  using db_wfD [OF service_invD(1)] by (cases "u_accountType u") (auto simp: user_wf_def)

lemma registered_by_link: "service_inv s \<Longrightarrow> u \<in> set (users s) \<Longrightarrow> has_link u p i \<Longrightarrow> u_accountType u = Registered"
  using db_wfD [OF service_invD(1)] by (cases "u_accountType u") (auto simp: user_wf_def has_link_def)

lemma user_rpc_autoreg:
  assumes ok: "backend_ok bk" and op: "user_rpc bk (CreateAutoregUser f pl ip) w = (Inr (AutoregReply x), w')"
  shows "standing w' (ar_id x) Autoreg (ar_tokenVersion x)"
proof -
  have drv: "driver_ok (bk_driver bk)" using ok by (simp add: backend_ok_def)
  from user_rpc_reply [OF ok op] have
    "create_autoreg_user (bk_driver bk) (bk_env bk (w_calls w))
      \<lparr>ap_fingerprint = the f, ap_platform = pl, ap_ipHash = ip\<rparr> (w_db w) = (Inr x, w_db w')"
    by (auto dest!: lift_reply_state split: if_splits)
  from create_autoreg_user_holds [OF drv this] show ?thesis
    by (auto simp: autoreg_holds_def standing_def)
qed

lemma user_rpc_login:
  assumes ok: "backend_ok bk" and w: "world_ok bk w"
    and op: "user_rpc bk (LoginUser mail pass) w = (Inr (GrantReply g), w')"
  shows "g_accountType g = Registered \<and> standing w' (g_id g) Registered (g_tokenVersion g)"
proof -
  have drv: "driver_ok (bk_driver bk)" using ok by (simp add: backend_ok_def)
  from user_rpc_reply [OF ok op] have
    lg: "login (bk_driver bk) (bk_env bk (w_calls w)) mail pass (w_db w) = Inr g" and eq: "w_db w' = w_db w"
    by auto
  from lg obtain u where f: "find_user (bk_driver bk) (w_db w) ([EmailIs mail] @ [NotDeleted]) = Inr (Some u)"
    and g: "g = grant_of u"
    by (auto simp: login_def Let_def split: sum.splits option.splits if_splits)
  note u = find_live_user [OF drv f]
  have "u_accountType u = Registered"
    using registered_by_email [OF world_okD(1) [OF w] u(1)] u(3) by simp
  with u(1) g eq show ?thesis by (auto simp: standing_def grant_of_def)
qed

lemma user_rpc_oauth:
  assumes ok: "backend_ok bk" and w: "world_ok bk w"
    and op: "user_rpc bk (FindOrCreateOAuthUser pr pid em ev nm) w = (Inr (GrantReply g), w')"
  shows "g_accountType g = Registered \<and> standing w' (g_id g) Registered (g_tokenVersion g)"
proof -
  have drv: "driver_ok (bk_driver bk)" using ok by (simp add: backend_ok_def)
  note inv = world_okD(1) [OF w]
  let ?p = "\<lparr>op_provider = pr, op_providerUserId = pid, op_email = em,
      op_emailVerified = nullish ev False, op_name = nm\<rparr>"
  from user_rpc_reply [OF ok op] have
    fc: "find_or_create_oauth_user (bk_driver bk) (bk_env bk (w_calls w)) ?p (w_db w) = (Inr g, w_db w')"
    by (auto dest!: lift_reply_state)
  have ev: "evolves (w_db w) (w_db w')" and w': "world_ok bk w'"
    using user_rpc_step [OF ok w op] by auto
  from find_or_create_admits [OF drv inv fc] consider
    (link) u where "u \<in> set (users (w_db w))" "g = grant_of u" "w_db w' = w_db w" "has_link u pr pid"
  | (merge) u u' where "u \<in> set (users (w_db w))" "g = grant_of u" "op_email ?p \<noteq> None"
      "u_email u = op_email ?p" "u' \<in> set (users (w_db w'))" "grant_of u' = g"
  | (new) "g_id g = ce_userId (bk_env bk (w_calls w))" "g_accountType g = Registered" "g_tokenVersion g = 0"
      "new_oauth_user (bk_env bk (w_calls w)) ?p \<in> set (users (w_db w'))"
    by auto
  then show ?thesis
  proof cases
    case link
    with registered_by_link [OF inv] show ?thesis by (auto simp: standing_def grant_of_def)
  next
    case merge
    have "u_accountType u = Registered"
      using registered_by_email [OF inv merge(1)] merge(3,4) by simp
    with merge show ?thesis by (auto simp: standing_def grant_of_def)
  next
    case new
    then show ?thesis by (force simp: standing_def)
  qed
qed

lemma user_rpc_upgrade:
  assumes ok: "backend_ok bk" and w: "world_ok bk w" and st: "standing w i a n"
    and op: "user_rpc bk (UpgradeUserAccount i me em pw nm pid) w = (Inr (UserReply u), w')"
  shows "\<exists>k. u_tokenVersion u = Some k \<and> n < k \<and> standing w' i Registered k"
proof -
  have drv: "driver_ok (bk_driver bk)" using ok by (simp add: backend_ok_def)
  let ?ce = "bk_env bk (w_calls w)"
  let ?p = "\<lparr>up_method = nullish me ByEmail, up_email = em, up_password = pw, up_name = nm,
      up_providerUserId = pid\<rparr>"
  from user_rpc_reply [OF ok op] have
    up: "upgrade_account (bk_driver bk) ?ce i ?p (w_db w) = (Inr u, w_db w')"
    by (auto dest!: lift_reply_state)
  from drv up obtain v x t where
    v: "find_by_id (bk_driver bk) ?ce i (w_db w) = Inr v" "u_accountType v = Autoreg" and
    x: "attach_identity (bk_driver bk) ?ce i ?p (w_db w) v = Inr x" and
    u: "u = touch_user (ce_now ?ce) (registered_now ?ce ?p x)" and
    t: "t = apply_change (PutUser u) (w_db w)" and
    del: "delete_devices (bk_driver bk) [DeviceUserIs (u_id v)] t = (Inr (), w_db w')"
    by (rule upgrade_success)
  note byid = find_by_id_Inr [OF drv v(1)]
  note att = upgraded_user [OF drv world_okD(1) [OF w] world_okD(2) [OF w] v x]
  from st world_okD(2) [OF w] byid(3) have vid: "u_id v = i"
    by (auto simp: standing_def fresh_ids_def)
  have n: "token_version v = n"
    using st vid by (intro standing_the(2) [OF w byid(1)]) simp
  have "u \<in> set (users (w_db w'))"
    using delete_devices_frame(1) [OF drv del] t by simp
  moreover have "u_tokenVersion u = Some (token_version v + 1)"
    using u att by (simp add: touch_user_def registered_now_def bump_token_version_def token_version_def)
  moreover have "u_id u = i" and "u_accountType u = Registered"
    using u att vid by (simp_all add: touch_user_def registered_now_def bump_token_version_def)
  ultimately show ?thesis
    using n unfolding standing_def by (intro exI [of _ "n + 1"]) (auto simp: token_version_def)
qed

lemma user_rpc_version:
  assumes ok: "backend_ok bk" and w: "world_ok bk w" and st: "standing w i a n"
    and op: "user_rpc bk (GetUserTokenVersion i) w = (Inr (VersionReply k), w')"
  shows "k = n \<and> standing w' i a n"
proof -
  have drv: "driver_ok (bk_driver bk)" using ok by (simp add: backend_ok_def)
  from user_rpc_reply [OF ok op] have db: "w_db w' = w_db w" and
    "\<exists>v. find_by_id (bk_driver bk) (bk_env bk (w_calls w)) i (w_db w) = Inr v \<and> k = token_version v"
    by auto
  then obtain v where
    v: "find_by_id (bk_driver bk) (bk_env bk (w_calls w)) i (w_db w) = Inr v" and
    k: "k = token_version v"
    by blast
  note byid = find_by_id_Inr [OF drv v]
  from st world_okD(2) [OF w] byid(3) have "u_id v = i"
    by (auto simp: standing_def fresh_ids_def)
  with st have "standing w (u_id v) a n" by simp
  from standing_the(2) [OF w byid(1) this] k have "k = n" by simp
  with st db show ?thesis by (simp add: standing_def)
qed

interpretation users: identity_service "backend_ok bk" "user_rpc bk" "world_ok bk" standing
  for bk :: "'m backend"
proof unfold_locales
  fix w m r w'
  assume "backend_ok bk" "world_ok bk w" "user_rpc bk m w = (r, w')"
  then show "world_ok bk w'" by (rule user_rpc_step)
next
  fix w i a n b k
  assume w: "world_ok bk w" and st: "standing w i a n" "standing w i b k"
  from st(1) obtain u where u: "u \<in> set (users (w_db w))" "u_id u = i" by (auto simp: standing_def)
  with st have "standing w (u_id u) a n" "standing w (u_id u) b k" by auto
  from standing_the [OF w u(1) this(1)] standing_the [OF w u(1) this(2)] show "a = b \<and> n = k" by simp
next
  fix w m r w' i a n
  assume op: "backend_ok bk" "world_ok bk w" "user_rpc bk m w = (r, w')" and st: "standing w i a n"
  from op have "evolves (w_db w) (w_db w')" by (rule user_rpc_step(2))
  from this st show "\<exists>b k. standing w' i b k \<and> (n < k \<or> n = k \<and> a = b)" by (rule standing_evolves)
qed (rule user_rpc_version user_rpc_autoreg user_rpc_login user_rpc_oauth user_rpc_upgrade; assumption)+

end
