(* ===== verification/Gateway_Demo.thy ===== *)
theory Gateway_Demo
  imports Sessions
begin

section \<open>A concrete gateway and backend\<close>

text \<open>
  Instances of the parameters of the gateway model, on which the witnesses of its properties run:
  the in-memory store behind a wire that loses nothing, a JWT library with one valid refresh token,
  a Redis that is a map, and passport's callback protocol written out. Each is shown to satisfy the
  hypotheses the properties make about it.
\<close>

subsection \<open>The user service behind its wire\<close>

definition demo_wire :: "nat \<Rightarrow> exn + user_reply \<Rightarrow> user_reply rpc_outcome" where
  "demo_wire k r =
     (case r of
        Inr NoReply \<Rightarrow> CallError (plain_error ''no elements in sequence'')
      | Inr v \<Rightarrow> Replied v
      | Inl e \<Rightarrow> StreamError (ThrownExn (js_get (exn_props e) ''error'')))"

definition demo_backend :: "unit backend" where
  "demo_backend =
     \<lparr>bk_driver = mem_driver, bk_env = (\<lambda>k. demo_env (replicate (Suc k) CHR ''x'') 5),
      bk_mailer = (\<lambda>a t m. (None, m)), bk_wire = demo_wire, bk_trace = None\<rparr>"

definition demo_world :: "unit world" where
  "demo_world = \<lparr>w_db = demo_db, w_mail = (), w_calls = 0\<rparr>"

lemma demo_backend_simps [simp]:
  "bk_driver demo_backend = mem_driver" "bk_env demo_backend k = demo_env (replicate (Suc k) CHR ''x'') 5"
  "bk_mailer demo_backend a t m = (None, m)" "bk_wire demo_backend = demo_wire" "bk_trace demo_backend = None"
  by (simp_all add: demo_backend_def)

lemma demo_world_simps [simp]: "w_db demo_world = demo_db" "w_calls demo_world = 0"
  by (simp_all add: demo_world_def)

lemma demo_wire_up: "wire_up demo_backend"
  unfolding wire_up_def
  by (auto simp: demo_wire_def carries_def rpc_error_payload_def plain_error_def split: user_reply.splits)

lemma demo_backend_ok: "backend_ok demo_backend"
proof -
  have "inj (\<lambda>k. replicate (Suc k) CHR ''x'')"
    by (rule injI) (metis length_replicate nat.inject)
  then show ?thesis
    by (auto simp: backend_ok_def envs_ok_def wire_sound_def mem_driver_ok demo_wire_def
        split: sum.splits user_reply.splits)
qed

lemma demo_world_ok: "world_ok demo_backend demo_world"
  using demo_db_inv
  by (auto simp: world_ok_def fresh_ids_def demo_defs new_user_def Cons_replicate_eq)

subsection \<open>Tokens, Redis and passport\<close>

definition demo_claims :: jwt_payload where
  "demo_claims =
     \<lparr>jp_sub = Some ''u'', jp_type = Some ''user'', jp_jti = Some ''j1'', jp_deviceId = Some ''dev'',
      jp_tv = Some 0, jp_iat = Some 0, jp_exp = Some 100\<rparr>"

text \<open>The one token that verifies, and the only claims that are ever signed into it.\<close>

definition demo_jwt :: jwt_lib where
  "demo_jwt =
     \<lparr>jwt_sign = (\<lambda>t secret ttl q. if secret = ''R'' \<and> same_claims demo_claims q then ''tok'' else []),
      jwt_verify = (\<lambda>now secret token.
        if token \<noteq> ''tok'' \<or> secret \<noteq> ''R'' then Inl ''JsonWebTokenError''
        else if now < 100000 then Inr demo_claims else Inl ''TokenExpiredError'')\<rparr>"

lemma demo_jwt_simps [simp]:
  "jwt_verify demo_jwt now secret token =
     (if token \<noteq> ''tok'' \<or> secret \<noteq> ''R'' then Inl ''JsonWebTokenError''
      else if now < 100000 then Inr demo_claims else Inl ''TokenExpiredError'')"
  "jwt_sign demo_jwt t secret ttl q = (if secret = ''R'' \<and> same_claims demo_claims q then ''tok'' else [])"
  by (simp_all add: demo_jwt_def)

lemma demo_jwt_ok: "jwt_ok demo_jwt"
  by (auto simp: jwt_ok_def demo_claims_def split: if_splits)

definition demo_redis :: "(string \<Rightarrow> (string \<times> millis) option) redis" where
  "demo_redis =
     \<lparr>rd_view = (\<lambda>r. r),
      rd_get = (\<lambda>now k r. Inr (case r k of None \<Rightarrow> None
                              | Some (v, until) \<Rightarrow> if now < until then Some v else None)),
      rd_set = (\<lambda>now k v ttl r. (Inr (), r(k \<mapsto> (v, now + ttl * 1000))))\<rparr>"

lemma demo_redis_simps [simp]:
  "rd_view demo_redis r = r"
  "rd_get demo_redis now k r =
     Inr (case r k of None \<Rightarrow> None | Some (v, until) \<Rightarrow> if now < until then Some v else None)"
  "rd_set demo_redis now k v ttl r = (Inr (), r(k \<mapsto> (v, now + ttl * 1000)))"
  by (simp_all add: demo_redis_def)

lemma demo_redis_ok: "redis_ok demo_redis"
  by (auto simp: redis_ok_def)

definition demo_passport :: passport where
  "demo_passport r v h =
     (case r of
        Inl info \<Rightarrow> h None None (Some info)
      | Inr p \<Rightarrow> (case v p of Inl e \<Rightarrow> h (Some e) None None | Inr u \<Rightarrow> h None (Some u) None))"

lemma demo_passport_ok: "passport_ok demo_passport"
  by (auto simp: passport_ok_def demo_passport_def)

definition demo_gateway :: "string \<Rightarrow> millis \<Rightarrow> gw_env" where
  "demo_gateway jti now =
     \<lparr>gw_now = now, gw_jti = jti, gw_accessSecret = ''A'', gw_refreshSecret = ''R'',
      gw_accessExpiresIn = None, gw_refreshExpiresIn = None, gw_jwt = demo_jwt,
      gw_sha256 = (\<lambda>x. ''#'' @ x)\<rparr>"

lemma demo_gateway_simps [simp]:
  "gw_now (demo_gateway j t) = t" "gw_jti (demo_gateway j t) = j" "gw_jwt (demo_gateway j t) = demo_jwt"
  "gw_accessSecret (demo_gateway j t) = ''A''" "gw_refreshSecret (demo_gateway j t) = ''R''"
  by (simp_all add: demo_gateway_def)

end
