(* ===== verification/Class_Validator.thy ===== *)
theory Class_Validator
  imports Js_Value
begin

section \<open>Validated classes\<close>

text \<open>
  The request bodies and the environment are declared in the source as classes with class-validator
  decorators. A class is here the list of its fields, each with its declared type and decorators;
  \<open>validate_class\<close> and \<open>validation_pipe\<close> are what class-validator, class-transformer and Nest's
  \<open>ValidationPipe\<close> document for the options the source passes (\<open>whitelist\<close>,
  \<open>forbidNonWhitelisted\<close>, \<open>transform\<close> with \<open>enableImplicitConversion\<close>). The two checks of the
  validator library that are not spelled out in the source, the e-mail and the URL syntax, and
  \<open>String(v)\<close> and \<open>Number(v)\<close> on values that need a conversion, are parameters.

  An object is the list of its own properties; a body that is an array is not modelled.
\<close>

datatype url_kind = AnyUrl | HttpsUrlWithTld | AmqpUrl

record checkers =
  chk_email :: "string \<Rightarrow> bool"
  chk_url :: "url_kind \<Rightarrow> string \<Rightarrow> bool"
  to_string :: "jsval \<Rightarrow> string"
  to_number :: "jsval \<Rightarrow> jsval"

text \<open>\<open>String(v)\<close> of a string is the string.\<close>

definition checkers_ok :: "checkers \<Rightarrow> bool" where
  "checkers_ok ck \<longleftrightarrow> (\<forall>s. to_string ck (JStr s) = s)"

datatype decorator =
    IsString
  | IsNotEmpty
  | Length nat nat
  | MinLength nat
  | MaxLength nat
  | IsOneOf "string list"   \<comment> \<open>\<open>IsEnum\<close>, \<open>IsIn\<close>\<close>
  | IsEmail
  | IsUrl url_kind
  | Matches "string \<Rightarrow> bool"
  | IsInt
  | AtLeast int             \<comment> \<open>\<open>Min\<close>\<close>
  | AtMost int              \<comment> \<open>\<open>Max\<close>\<close>

datatype declared_type = TString | TNumber | TBoolean

record field =
  f_name :: string
  f_type :: declared_type
  f_optional :: bool                           \<comment> \<open>\<open>IsOptional\<close>\<close>
  f_applies :: "(string \<Rightarrow> jsval) \<Rightarrow> bool"      \<comment> \<open>\<open>ValidateIf\<close>\<close>
  f_decorators :: "decorator list"

definition field_of :: "string \<Rightarrow> declared_type \<Rightarrow> bool \<Rightarrow> decorator list \<Rightarrow> field" where
  "field_of n t opt ds =
     \<lparr>f_name = n, f_type = t, f_optional = opt, f_applies = (\<lambda>_. True), f_decorators = ds\<rparr>"

subsection \<open>The decorators\<close>

definition str_sat :: "(string \<Rightarrow> bool) \<Rightarrow> jsval \<Rightarrow> bool" where
  "str_sat P v = (case v of JStr s \<Rightarrow> P s | _ \<Rightarrow> False)"

definition int_sat :: "(int \<Rightarrow> bool) \<Rightarrow> jsval \<Rightarrow> bool" where
  "int_sat P v = (case v of JNum n \<Rightarrow> P n | _ \<Rightarrow> False)"

lemma sat_atoms [simp]:
  "str_sat P (JStr s) = P s" "\<not> str_sat P JUndef" "\<not> str_sat P JNull" "\<not> str_sat P (JNum n)"
  "\<not> str_sat P (JBool b)" "int_sat Q (JNum n) = Q n" "\<not> int_sat Q (JStr s)"
  by (simp_all add: str_sat_def int_sat_def)

lemma str_sat_iff: "str_sat P v \<longleftrightarrow> (\<exists>s. v = JStr s \<and> P s)"
  by (cases v) (simp_all add: str_sat_def)

fun satisfies :: "checkers \<Rightarrow> decorator \<Rightarrow> jsval \<Rightarrow> bool" where
  "satisfies ck IsString v = str_sat (\<lambda>_. True) v"
| "satisfies ck IsNotEmpty v = (\<not> js_nullish v \<and> v \<noteq> JStr [])"
| "satisfies ck (Length lo hi) v = str_sat (\<lambda>s. lo \<le> length s \<and> length s \<le> hi) v"
| "satisfies ck (MinLength lo) v = str_sat (\<lambda>s. lo \<le> length s) v"
| "satisfies ck (MaxLength hi) v = str_sat (\<lambda>s. length s \<le> hi) v"
| "satisfies ck (IsOneOf xs) v = str_sat (\<lambda>s. s \<in> set xs) v"
| "satisfies ck IsEmail v = str_sat (chk_email ck) v"
| "satisfies ck (IsUrl k) v = str_sat (chk_url ck k) v"
| "satisfies ck (Matches re) v = str_sat re v"
| "satisfies ck IsInt v = int_sat (\<lambda>_. True) v"
| "satisfies ck (AtLeast lo) v = int_sat (\<lambda>n. lo \<le> n) v"
| "satisfies ck (AtMost hi) v = int_sat (\<lambda>n. n \<le> hi) v"

definition field_ok :: "checkers \<Rightarrow> (string \<Rightarrow> jsval) \<Rightarrow> field \<Rightarrow> bool" where
  "field_ok ck obj f \<longleftrightarrow>
     (f_optional f \<and> js_nullish (obj (f_name f))) \<or> \<not> f_applies f obj
     \<or> list_all (\<lambda>d. satisfies ck d (obj (f_name f))) (f_decorators f)"

text \<open>\<open>validateSync\<close>: the names of the fields with a failed decorator.\<close>

definition validate_class :: "checkers \<Rightarrow> field list \<Rightarrow> (string \<Rightarrow> jsval) \<Rightarrow> string list" where
  "validate_class ck cls obj = map f_name (filter (\<lambda>f. \<not> field_ok ck obj f) cls)"

subsection \<open>The validation pipe of the gateway\<close>

text \<open>
  \<open>enableImplicitConversion\<close>: a value is converted to the declared type, an array element by element, a
  nullish value is left.
\<close>

fun implicit_conversion :: "checkers \<Rightarrow> declared_type \<Rightarrow> jsval \<Rightarrow> jsval" where
  "implicit_conversion ck t (JArr vs) = JArr (map (implicit_conversion ck t) vs)"
| "implicit_conversion ck t v =
     (if js_nullish v then v
      else case t of
        TString \<Rightarrow> JStr (to_string ck v)
      | TNumber \<Rightarrow> to_number ck v
      | TBoolean \<Rightarrow> JBool (js_truthy v))"

fun find_field :: "field list \<Rightarrow> string \<Rightarrow> field option" where
  "find_field [] k = None"
| "find_field (f # fs) k = (if f_name f = k then Some f else find_field fs k)"

lemma find_field_Some: "find_field fs k = Some f \<Longrightarrow> f \<in> set fs \<and> f_name f = k"
  by (induction fs) (auto split: if_splits)

lemma find_field_None: "find_field fs k = None \<longleftrightarrow> k \<notin> f_name ` set fs"
  by (induction fs) auto

definition transform_body :: "checkers \<Rightarrow> field list \<Rightarrow> (string \<times> jsval) list \<Rightarrow> (string \<times> jsval) list" where
  "transform_body ck cls kvs =
     map (\<lambda>(k, v). (k, case find_field cls k of None \<Rightarrow> v | Some f \<Rightarrow> implicit_conversion ck (f_type f) v)) kvs"

text \<open>
  The pipe: either the names of the rejected properties, unknown ones first, or the transformed body.
  (\<open>BadRequestException\<close> carries one message per failed decorator.)
\<close>

definition validation_pipe ::
  "checkers \<Rightarrow> field list \<Rightarrow> (string \<times> jsval) list \<Rightarrow> string list + (string \<times> jsval) list" where
  "validation_pipe ck cls kvs =
     (let kvs' = transform_body ck cls kvs;
          unknown = filter (\<lambda>k. find_field cls k = None) (map fst kvs');
          bad = unknown @ validate_class ck cls (js_get (JObj kvs'))
      in if bad = [] then Inr kvs' else Inl bad)"

lemma transform_keys [simp]: "map fst (transform_body ck cls kvs) = map fst kvs"
  by (simp add: transform_body_def comp_def case_prod_beta)

lemma validate_class_Nil: "validate_class ck cls obj = [] \<longleftrightarrow> (\<forall>f \<in> set cls. field_ok ck obj f)"
  by (auto simp: validate_class_def filter_empty_conv)

text \<open>
  A body that passed the pipe has only declared properties, each converted, and every field of the
  class holds.
\<close>

lemma validation_pipe_Inr:
  assumes "validation_pipe ck cls kvs = Inr out"
  shows "out = transform_body ck cls kvs" and "fst ` set out \<subseteq> f_name ` set cls"
    and "f \<in> set cls \<Longrightarrow> field_ok ck (js_get (JObj out)) f"
proof -
  from assms have out: "out = transform_body ck cls kvs"
    and unk: "filter (\<lambda>k. find_field cls k = None) (map fst kvs) = []"
    and val: "validate_class ck cls (js_get (JObj out)) = []"
    by (auto simp: validation_pipe_def Let_def split: if_splits)
  show "out = transform_body ck cls kvs" by (rule out)
  have "fst ` set out = fst ` set kvs"
    using out transform_keys by (metis list.set_map)
  with unk show "fst ` set out \<subseteq> f_name ` set cls"
    by (auto simp: filter_empty_conv find_field_None)
  show "f \<in> set cls \<Longrightarrow> field_ok ck (js_get (JObj out)) f"
    using val by (simp add: validate_class_Nil)
qed

end
