(* ===== verification/Config_Classes.thy ===== *)
theory Config_Classes
  imports Class_Validator Env_Config Parse_Platform
begin

section \<open>Typed configuration\<close>

text \<open>
  The environment classes \<open>GatewayConfig\<close> (\<open>apps/gateway/src/config/gateway.config.ts\<close>),
  \<open>UserConfig\<close> (\<open>apps/user/src/config/user.config.ts\<close>), \<open>ServiceConfig\<close> and
  \<open>MongoTaskConfig\<close> (\<open>libs/common/src/config/base-service.config.ts\<close>), as \<open>validateEnvWith\<close>
  instantiates them: a variable that is set is converted to the declared type and then transformed, one
  that is not keeps the class's initial value. \<open>to_number\<close> of \<open>checkers\<close> stands for the conversion
  and the \<open>parseInt\<close> after it. The texts of the constraints belong to the validator library and are
  left out.
\<close>

record config_field =
  cf_field :: field
  cf_initial :: jsval
  cf_transform :: "jsval \<Rightarrow> jsval"

definition config_of :: "field \<Rightarrow> jsval \<Rightarrow> config_field" where
  "config_of f d = \<lparr>cf_field = f, cf_initial = d, cf_transform = (\<lambda>v. v)\<rparr>"

text \<open>\<open>Transform(({value}) => value === '' ? undefined : value)\<close>\<close>

definition empty_to_undefined :: "config_field \<Rightarrow> config_field" where
  "empty_to_undefined c = c\<lparr>cf_transform := (\<lambda>v. if v = JStr [] then JUndef else v)\<rparr>"

definition numeric :: "string \<Rightarrow> bool" where
  "numeric s \<longleftrightarrow> s \<noteq> [] \<and> list_all (\<lambda>c. (of_char c :: nat) \<in> {48..57}) s"

fun find_config :: "config_field list \<Rightarrow> string \<Rightarrow> config_field option" where
  "find_config [] k = None"
| "find_config (c # cs) k = (if f_name (cf_field c) = k then Some c else find_config cs k)"

definition config_instance :: "checkers \<Rightarrow> config_field list \<Rightarrow> (string \<times> jsval) list \<Rightarrow> string \<Rightarrow> jsval" where
  "config_instance ck cls raw k =
     (case find_config cls k of
        None \<Rightarrow> js_get (JObj raw) k
      | Some c \<Rightarrow>
          (case map_of raw k of
             None \<Rightarrow> cf_initial c
           | Some v \<Rightarrow> cf_transform c (implicit_conversion ck (f_type (cf_field c)) v)))"

definition config_errors :: "checkers \<Rightarrow> config_field list \<Rightarrow> (string \<times> jsval) list \<Rightarrow> (string \<times> string list) list" where
  "config_errors ck cls raw =
     map (\<lambda>n. (n, [])) (validate_class ck (map cf_field cls) (config_instance ck cls raw))"

subsection \<open>The classes\<close>

definition mongo_task_config :: "config_field list" where
  "mongo_task_config =
     [config_of (field_of ''MONGO'' TString False [IsString]) JUndef,
      config_of (field_of ''MONGO_DB'' TString False [IsString]) JUndef]"

definition service_config :: "config_field list" where
  "service_config = mongo_task_config @
     [config_of (field_of ''RABBITMQ_URL'' TString False [IsString]) JUndef,
      config_of (field_of ''RMQ_QUEUE_PREFIX'' TString True [IsString]) JUndef]"

definition gateway_config :: "config_field list" where
  "gateway_config =
     [config_of (field_of ''PORT'' TNumber False [IsInt, AtLeast 1]) (JNum 3000),
      config_of (field_of ''NODE_ENV'' TString False [IsString]) (JStr ''development''),
      config_of (field_of ''REDIS_URL'' TString False [IsString]) (JStr ''redis://localhost:6379''),
      config_of (field_of ''RABBITMQ_URL'' TString False [IsUrl AmqpUrl]) (JStr ''amqp://localhost:5672''),
      config_of (field_of ''RMQ_QUEUE_PREFIX'' TString True [IsString]) JUndef,
      config_of (field_of ''JWT_ACCESS_SECRET'' TString False [IsString]) JUndef,
      config_of (field_of ''JWT_REFRESH_SECRET'' TString False [IsString]) JUndef,
      config_of (field_of ''JWT_ACCESS_EXPIRES_IN'' TString False [IsString]) (JStr ''15m''),
      config_of (field_of ''JWT_REFRESH_EXPIRES_IN'' TString False [IsString]) (JStr ''30d''),
      empty_to_undefined (config_of (field_of ''VK_ANDROID_APP_ID'' TString True [IsString, Matches numeric]) JUndef),
      empty_to_undefined (config_of (field_of ''VK_IOS_APP_ID'' TString True [IsString, Matches numeric]) JUndef),
      config_of (field_of ''VK_PUBLIC_INFO_URL'' TString True [IsUrl AnyUrl]) JUndef,
      config_of (field_of ''VK_USERINFO_URL'' TString True [IsUrl AnyUrl]) JUndef,
      config_of (field_of ''YANDEX_USERINFO_URL'' TString True [IsUrl AnyUrl]) JUndef,
      config_of (field_of ''VK_ANDROID_SERVICE_TOKEN'' TString True [IsString]) JUndef,
      config_of (field_of ''VK_IOS_SERVICE_TOKEN'' TString True [IsString]) JUndef]"

definition vk_audiences :: "(string \<Rightarrow> jsval) \<Rightarrow> jsval list" where
  "vk_audiences cfg = filter js_truthy [cfg ''VK_ANDROID_APP_ID'', cfg ''VK_IOS_APP_ID'']"

text \<open>\<open>/[^@\s]+@[^@\s]+\.[^@\s]+/\<close>: somewhere a run, an at sign, a run with a dot inside.\<close>

definition address_char :: "char \<Rightarrow> bool" where
  "address_char c \<longleftrightarrow> c \<noteq> CHR ''@'' \<and> \<not> js_space c"

definition contains_address :: "string \<Rightarrow> bool" where
  "contains_address s \<longleftrightarrow>
     list_ex (\<lambda>i. s ! i = CHR ''@'' \<and> 0 < i \<and> address_char (s ! (i - 1))
        \<and> (let run = takeWhile address_char (drop (i + 1) s) in
             list_ex (\<lambda>j. 0 < j \<and> j + 1 < length run \<and> run ! j = CHR ''.'') [0..<length run]))
       [0..<length s]"

definition user_config :: "config_field list" where
  "user_config = service_config @
     [config_of (field_of ''SMTP_HOST'' TString True [IsString]) JUndef,
      config_of
        ((field_of ''SMTP_PORT'' TNumber False [IsInt, AtLeast 1, AtMost 65535])
           \<lparr>f_applies := (\<lambda>c. js_truthy (c ''SMTP_HOST''))\<rparr>) JUndef,
      config_of (field_of ''SMTP_SECURE'' TString True [IsOneOf [''true'', ''false'', []]]) JUndef,
      config_of (field_of ''SMTP_USER'' TString True [IsString]) JUndef,
      config_of
        ((field_of ''SMTP_PASSWORD'' TString False [IsString])
           \<lparr>f_applies := (\<lambda>c. js_truthy (c ''SMTP_USER''))\<rparr>) JUndef,
      config_of
        ((field_of ''EMAIL_FROM'' TString False [IsString, Matches contains_address])
           \<lparr>f_applies := (\<lambda>c. js_truthy (c ''EMAIL_FROM''))\<rparr>) JUndef]"

definition validate_gateway_env :: "checkers \<Rightarrow> (string \<times> jsval) list \<Rightarrow> exn + (string \<times> jsval) list" where
  "validate_gateway_env ck raw = validate_env_with ''GatewayConfig'' (config_errors ck gateway_config) raw"

definition validate_user_env :: "checkers \<Rightarrow> (string \<times> jsval) list \<Rightarrow> exn + (string \<times> jsval) list" where
  "validate_user_env ck raw = validate_env_with ''UserConfig'' (config_errors ck user_config) raw"

text \<open>The required variables of the gateway's and of the user service's \<open>main.ts\<close>.\<close>

definition gateway_required :: "string list" where
  "gateway_required = [''RABBITMQ_URL'', ''JWT_ACCESS_SECRET'', ''JWT_REFRESH_SECRET'', ''REDIS_URL'']"

definition user_required :: "string list" where
  "user_required = [''MONGO'', ''MONGO_DB'', ''RABBITMQ_URL'']"

definition purge_required :: "string list" where
  "purge_required = [''MONGO'', ''MONGO_DB'']"

subsection \<open>What a validated environment guarantees\<close>

lemma validate_env_with_Inr:
  "validate_env_with n f raw = Inr out \<Longrightarrow> out = trim_env_values raw \<and> f out = []"
  by (auto simp: validate_env_with_def Let_def split: if_splits)

lemma config_errors_Nil:
  "config_errors ck cls raw = [] \<longleftrightarrow> (\<forall>c \<in> set cls. field_ok ck (config_instance ck cls raw) (cf_field c))"
  by (auto simp: config_errors_def validate_class_Nil)

lemma find_config_vk:
  assumes "k \<in> {''VK_ANDROID_APP_ID'', ''VK_IOS_APP_ID''}"
  shows "find_config gateway_config k
    = Some (empty_to_undefined (config_of (field_of k TString True [IsString, Matches numeric]) JUndef))"
proof -
  have "find_config gateway_config ''VK_ANDROID_APP_ID''
      = Some (empty_to_undefined (config_of (field_of ''VK_ANDROID_APP_ID'' TString True [IsString, Matches numeric]) JUndef))"
    "find_config gateway_config ''VK_IOS_APP_ID''
      = Some (empty_to_undefined (config_of (field_of ''VK_IOS_APP_ID'' TString True [IsString, Matches numeric]) JUndef))"
    by (simp_all add: gateway_config_def config_of_def field_of_def empty_to_undefined_def)
  with assms show ?thesis by (elim insertE) simp_all
qed

text \<open>The properties of the gateway's classes, as a class invariant of the instance.\<close>

lemma gateway_fields_ok:
  assumes "validate_gateway_env ck raw = Inr out"
  shows "\<forall>c \<in> set gateway_config. field_ok ck (config_instance ck gateway_config out) (cf_field c)"
  using conjunct2 [OF validate_env_with_Inr [OF assms [unfolded validate_gateway_env_def]]]
  by (simp only: config_errors_Nil)

lemma assert_required_env_Inr:
  "assert_required_env env names = Inr u \<longleftrightarrow> (\<forall>n \<in> set names. \<exists>v. env n = Some v \<and> js_trim v \<noteq> [])"
  by (auto simp: assert_required_env_def missing_loop_filter filter_empty_conv env_missing_def Let_def
      split: option.splits if_splits)

text \<open>
  A gateway that boots has usable settings. When \<open>assertRequiredEnv\<close> and the validation of
  \<open>GatewayConfig\<close> pass on one environment, the two JWT secrets and the Redis and broker addresses are
  not blank, the broker's is an AMQP URL, the port is a number from 1, and an app id of VK, where one is
  set to more than the empty string, consists of digits.
\<close>

theorem gateway_boot_settings:
  assumes req: "assert_required_env env gateway_required = Inr ()"
    and env: "\<And>k. map_of raw k = map_option JStr (env k)"
    and val: "validate_gateway_env ck raw = Inr out" and ck: "checkers_ok ck"
  shows "(\<forall>n \<in> set gateway_required. \<exists>v. env n = Some v \<and> js_trim v \<noteq> [])
    \<and> (\<exists>u. js_get (JObj out) ''RABBITMQ_URL'' = JStr u \<and> chk_url ck AmqpUrl u)
    \<and> (\<exists>p \<ge> 1. config_instance ck gateway_config out ''PORT'' = JNum p)
    \<and> (\<forall>k \<in> {''VK_ANDROID_APP_ID'', ''VK_IOS_APP_ID''}. \<forall>v. map_of out k = Some (JStr v) \<longrightarrow> v = [] \<or> numeric v)"
proof -
  from req have blank: "\<forall>n \<in> set gateway_required. \<exists>v. env n = Some v \<and> js_trim v \<noteq> []"
    by (simp add: assert_required_env_Inr)
  have out: "out = trim_env_values raw"
    using validate_env_with_Inr [OF val [unfolded validate_gateway_env_def]] by simp
  have get: "map_of out k = map_option (\<lambda>v. JStr (trim_env_value v)) (env k)" for k
  proof -
    have "map_of out k = map_option (\<lambda>v. case v of JStr s \<Rightarrow> JStr (trim_env_value s) | _ \<Rightarrow> v) (map_of raw k)"
      unfolding out trim_env_values_def by (simp add: map_of_map)
    then show ?thesis by (simp add: env option.map_comp comp_def)
  qed
  note ok = gateway_fields_ok [OF val]
  have "field_ok ck (config_instance ck gateway_config out) (field_of ''RABBITMQ_URL'' TString False [IsUrl AmqpUrl])"
    using ok by (simp add: gateway_config_def config_of_def)
  moreover obtain v where "env ''RABBITMQ_URL'' = Some v" using blank by (auto simp: gateway_required_def)
  ultimately have amqp: "\<exists>u. js_get (JObj out) ''RABBITMQ_URL'' = JStr u \<and> chk_url ck AmqpUrl u"
    using ck get [of "''RABBITMQ_URL''"]
    by (auto simp: field_ok_def field_of_def config_instance_def gateway_config_def config_of_def
        empty_to_undefined_def checkers_ok_def str_sat_iff)
  have "field_ok ck (config_instance ck gateway_config out) (field_of ''PORT'' TNumber False [IsInt, AtLeast 1])"
    using ok by (simp add: gateway_config_def config_of_def)
  then have port: "\<exists>p \<ge> 1. config_instance ck gateway_config out ''PORT'' = JNum p"
    by (auto simp: field_ok_def field_of_def int_sat_def split: jsval.splits)
  have vk: "v = [] \<or> numeric v" if k: "k \<in> {''VK_ANDROID_APP_ID'', ''VK_IOS_APP_ID''}" "map_of out k = Some (JStr v)" for k v
  proof -
    have "field_ok ck (config_instance ck gateway_config out) (field_of k TString True [IsString, Matches numeric])"
      using ok k(1) by (auto simp: gateway_config_def config_of_def empty_to_undefined_def)
    moreover have "config_instance ck gateway_config out k = (if v = [] then JUndef else JStr v)"
      using k(2) ck by (simp add: config_instance_def find_config_vk [OF k(1)] config_of_def field_of_def
          empty_to_undefined_def checkers_ok_def)
    ultimately show ?thesis by (auto simp: field_ok_def field_of_def split: if_splits)
  qed
  have vks: "\<forall>k \<in> {''VK_ANDROID_APP_ID'', ''VK_IOS_APP_ID''}. \<forall>v. map_of out k = Some (JStr v) \<longrightarrow> v = [] \<or> numeric v"
    by (intro ballI allI impI) (rule vk)
  from blank amqp port vks show ?thesis by (intro conjI)
qed

definition config_checkers :: checkers where
  "config_checkers =
     \<lparr>chk_email = (\<lambda>s. CHR ''@'' \<in> set s), chk_url = (\<lambda>k s. prefix ''amqp://'' s),
      to_string = (\<lambda>v. case v of JStr s \<Rightarrow> s | _ \<Rightarrow> []), to_number = (\<lambda>v. JNum 3000)\<rparr>"

definition demo_gateway_env :: "(string \<times> string) list" where
  "demo_gateway_env =
     [(''RABBITMQ_URL'', ''amqp://mq''), (''JWT_ACCESS_SECRET'', ''a''), (''JWT_REFRESH_SECRET'', ''r''),
      (''REDIS_URL'', ''redis://r''), (''VK_IOS_APP_ID'', ''51'')]"

theorem gateway_boot_settings_witness:
  "\<exists>out. validate_gateway_env config_checkers (map (\<lambda>(k, v). (k, JStr v)) demo_gateway_env) = Inr out
     \<and> (\<exists>u. js_get (JObj out) ''RABBITMQ_URL'' = JStr u \<and> prefix ''amqp://'' u)"
proof -
  let ?raw = "map (\<lambda>(k, v). (k, JStr v)) demo_gateway_env"
  have trim: "trim_env_values ?raw = ?raw"
    by (simp add: demo_gateway_env_def trim_env_values_def trim_env_value_def js_trim_def js_space_def
        quote_pair_def)
  have "config_errors config_checkers gateway_config ?raw = []" by code_simp
  then have val: "validate_gateway_env config_checkers ?raw = Inr ?raw"
    by (simp add: validate_gateway_env_def validate_env_with_def trim)
  have req: "assert_required_env (map_of demo_gateway_env) gateway_required = Inr ()"
    by (simp add: assert_required_env_Inr gateway_required_def demo_gateway_env_def js_trim_def js_space_def)
  have env: "map_of ?raw k = map_option JStr (map_of demo_gateway_env k)" for k
    by (simp add: map_of_map)
  have ck: "checkers_ok config_checkers" by (simp add: checkers_ok_def config_checkers_def)
  obtain u where u: "js_get (JObj ?raw) ''RABBITMQ_URL'' = JStr u" "chk_url config_checkers AmqpUrl u"
    using conjunct1 [OF conjunct2 [OF gateway_boot_settings [OF req env val ck]]] by (elim exE conjE)
  from u(2) have "prefix ''amqp://'' u" by (simp add: config_checkers_def)
  with u(1) val show ?thesis by (intro exI conjI)
qed

end
