(* ===== verification/Gateway_App.thy ===== *)
theory Gateway_App
  imports Gateway_Demo Config_Classes
begin

section \<open>The gateway's application module: rate limits and health probes\<close>

text \<open>
  The throttlers of \<open>apps/gateway/src/app.module.ts\<close> with the route overrides of the controllers,
  and \<open>apps/gateway/src/modules/health\<close>. The counting store of Nest's throttler and terminus's
  \<open>HealthCheckService\<close> are not part of the repository: the first appears as the list of limits and
  the tracker key a request is counted under, the second is the parameter \<open>summarise\<close>.
\<close>

subsection \<open>Rate limits\<close>

record throttler =
  th_name :: string
  th_ttl :: int
  th_limit :: nat
  th_skipIf :: "string option \<Rightarrow> bool"   \<comment> \<open>on \<open>req.path\<close>\<close>

definition throttlers :: "throttler list" where
  "throttlers =
     [\<lparr>th_name = ''default'', th_ttl = 60000, th_limit = 200, th_skipIf = (\<lambda>path. False)\<rparr>,
      \<lparr>th_name = ''auth'', th_ttl = 60000, th_limit = 5,
       th_skipIf = (\<lambda>path. \<not> (case path of None \<Rightarrow> False | Some p \<Rightarrow> prefix ''/v1/auth/'' p))\<rparr>,
      \<lparr>th_name = ''fingerprint'', th_ttl = 60000, th_limit = 3,
       th_skipIf = (\<lambda>path. \<not> (case path of None \<Rightarrow> False | Some p \<Rightarrow> suffix ''/auth/autoreg'' p))\<rparr>]"

text \<open>
  The limits that count a request: none under \<open>SkipThrottle\<close>; otherwise every throttler not skipped,
  with the route's own limit and window where its \<open>Throttle\<close> names the throttler.
\<close>

definition applied_limits ::
  "bool \<Rightarrow> (string \<times> nat \<times> int) list \<Rightarrow> string option \<Rightarrow> (string \<times> nat \<times> int) list" where
  "applied_limits skipThrottle overrides path =
     (if skipThrottle then []
      else map (\<lambda>t. (th_name t, nullish (map_of overrides (th_name t)) (th_limit t, th_ttl t)))
             (filter (\<lambda>t. \<not> th_skipIf t path) throttlers))"

text \<open>The \<open>Throttle\<close> of \<open>autoreg\<close> and of the other public auth routes.\<close>

definition autoreg_throttle :: "(string \<times> nat \<times> int) list" where
  "autoreg_throttle = [(''auth'', 5, 60000), (''fingerprint'', 3, 60000)]"

definition auth_throttle :: "(string \<times> nat \<times> int) list" where
  "auth_throttle = [(''auth'', 5, 60000)]"

text \<open>
  The per-address cap of \<open>/auth/autoreg\<close> does not exist. Every limit on a call with a
  fingerprint, the one documented as 5 a minute per IP included, counts under a key made of the
  fingerprint alone: the caller's address plays no part, and a caller that sends another fingerprint
  each time is counted anew each time.
\<close>

theorem autoreg_limits_ignore_address:
  assumes body: "js_get body ''deviceFingerprint'' = JStr f" "js_get body2 ''deviceFingerprint'' = JStr f2"
    and f: "f \<noteq> []" "f2 \<noteq> []"
  shows "applied_limits False autoreg_throttle (Some ''/v1/auth/autoreg'')
      = [(''default'', 200, 60000), (''auth'', 5, 60000), (''fingerprint'', 3, 60000)]
    \<and> get_tracker ''/v1/auth/autoreg'' body user ip = get_tracker ''/v1/auth/autoreg'' body user2 ip2
    \<and> (get_tracker ''/v1/auth/autoreg'' body user ip = get_tracker ''/v1/auth/autoreg'' body2 user ip \<longleftrightarrow> f = f2)"
proof -
  have "suffix ''/auth/autoreg'' ''/v1/auth/autoreg''" by (simp add: suffix_def)
  moreover have "prefix ''/v1/auth/'' ''/v1/auth/autoreg''" by simp
  ultimately show ?thesis
    using body f by (simp add: applied_limits_def throttlers_def autoreg_throttle_def get_tracker_def)
qed

theorem autoreg_limits_ignore_address_witness:
  "get_tracker ''/v1/auth/autoreg'' (JObj [(''deviceFingerprint'', JStr ''a'')]) JUndef ''1.2.3.4''
     \<noteq> get_tracker ''/v1/auth/autoreg'' (JObj [(''deviceFingerprint'', JStr ''b'')]) JUndef ''1.2.3.4''"
proof -
  have "js_get (JObj [(''deviceFingerprint'', JStr ''a'')]) ''deviceFingerprint'' = JStr ''a''"
    "js_get (JObj [(''deviceFingerprint'', JStr ''b'')]) ''deviceFingerprint'' = JStr ''b''" by simp_all
  from autoreg_limits_ignore_address [OF this, of JUndef "''1.2.3.4''" JUndef "''1.2.3.4''"]
  show ?thesis by simp
qed

lemma profile_routes_default_limit_only:
  "applied_limits False [] (Some ''/v1/users/me'') = [(''default'', 200, 60000)]"
  by (simp add: applied_limits_def throttlers_def suffix_def)

subsection \<open>Health probes\<close>

text \<open>An indicator's result: its name, whether it is up, and the note or message beside the status.\<close>

record indicator =
  in_name :: string
  in_up :: bool
  in_note :: "string option"
  in_message :: "jsval"

definition indicator_up :: "string \<Rightarrow> indicator" where
  "indicator_up n = \<lparr>in_name = n, in_up = True, in_note = None, in_message = JUndef\<rparr>"

definition indicator_down :: "string \<Rightarrow> exn \<Rightarrow> indicator" where
  "indicator_down n err =
     \<lparr>in_name = n, in_up = False, in_note = None, in_message = js_get (exn_props err) ''message''\<rparr>"

definition indicator_skipped :: "string \<Rightarrow> string \<Rightarrow> indicator" where
  "indicator_skipped n var = (indicator_up n)\<lparr>in_note := Some (var @ '' unset - skipped'')\<rparr>"

definition ping_redis :: "string option \<Rightarrow> exn + unit \<Rightarrow> exn + jsval \<Rightarrow> indicator" where
  "ping_redis url connect ping =
     (if \<not> truthy url then indicator_skipped ''redis'' ''REDIS_URL''
      else case connect of
        Inl err \<Rightarrow> indicator_down ''redis'' err
      | Inr () \<Rightarrow>
          (case ping of
             Inl err \<Rightarrow> indicator_down ''redis'' err
           | Inr pong \<Rightarrow>
               if pong \<noteq> JStr ''PONG''
               then indicator_down ''redis'' (plain_error (''unexpected reply: '' @ js_string pong))
               else indicator_up ''redis''))"

definition ping_rabbit :: "string option \<Rightarrow> exn + unit \<Rightarrow> exn + unit \<Rightarrow> indicator" where
  "ping_rabbit url connect close =
     (if \<not> truthy url then indicator_skipped ''rabbit'' ''RABBITMQ_URL''
      else case connect of
        Inl err \<Rightarrow> indicator_down ''rabbit'' err
      | Inr () \<Rightarrow>
          (case close of Inl err \<Rightarrow> indicator_down ''rabbit'' err | Inr () \<Rightarrow> indicator_up ''rabbit''))"

definition ping_service :: "'w rpc \<Rightarrow> 'w \<Rightarrow> indicator \<times> 'w" where
  "ping_service rpc w =
     (case rpc Ping w of
        (Inr _, w') \<Rightarrow> (indicator_up ''user'', w')
      | (Inl err, w') \<Rightarrow> (indicator_down ''user'' err, w'))"

record health_probe =
  hp_redisUrl :: "string option"
  hp_redisConnect :: "exn + unit"
  hp_redisPing :: "exn + jsval"
  hp_rabbitUrl :: "string option"
  hp_rabbitConnect :: "exn + unit"
  hp_rabbitClose :: "exn + unit"

definition health_live :: "(indicator list \<Rightarrow> 'h) \<Rightarrow> health_probe \<Rightarrow> 'h" where
  "health_live summarise p =
     summarise [ping_redis (hp_redisUrl p) (hp_redisConnect p) (hp_redisPing p),
                ping_rabbit (hp_rabbitUrl p) (hp_rabbitConnect p) (hp_rabbitClose p)]"

definition health_check :: "(indicator list \<Rightarrow> 'h) \<Rightarrow> health_probe \<Rightarrow> 'w rpc \<Rightarrow> 'w \<Rightarrow> 'h \<times> 'w" where
  "health_check summarise p rpc w =
     (case ping_service rpc w of
        (user, w') \<Rightarrow>
          (summarise [ping_redis (hp_redisUrl p) (hp_redisConnect p) (hp_redisPing p),
                      ping_rabbit (hp_rabbitUrl p) (hp_rabbitConnect p) (hp_rabbitClose p), user], w'))"

text \<open>terminus reports success when every indicator is up, and otherwise a 503.\<close>

definition terminus_ok :: "(indicator list \<Rightarrow> bool) \<Rightarrow> bool" where
  "terminus_ok summarise \<longleftrightarrow> (\<forall>is. summarise is \<longleftrightarrow> list_all in_up is)"

text \<open>
  The readiness probe is deep. Over a wire that loses nothing it succeeds exactly when Redis
  answered \<open>PONG\<close> (or is not configured) and the broker took a connection (or is not configured), and it
  leaves the accounts and the mail untouched; liveness asks the same without the user service, so it
  never fails where readiness succeeds.
\<close>

theorem readiness_is_deep:
  assumes t: "terminus_ok summarise" and up: "wire_up bk" and run: "health_check summarise p (user_rpc bk) w = (ready, w')"
  shows "(ready \<longleftrightarrow>
       (\<not> truthy (hp_redisUrl p) \<or> hp_redisConnect p = Inr () \<and> hp_redisPing p = Inr (JStr ''PONG''))
     \<and> (\<not> truthy (hp_rabbitUrl p) \<or> hp_rabbitConnect p = Inr () \<and> hp_rabbitClose p = Inr ()))
    \<and> w_db w' = w_db w \<and> w_mail w' = w_mail w
    \<and> (ready \<longrightarrow> health_live summarise p)"
proof -
  have redis: "in_up (ping_redis url c q) \<longleftrightarrow> \<not> truthy url \<or> c = Inr () \<and> q = Inr (JStr ''PONG'')" for url c q
    by (auto simp: ping_redis_def indicator_skipped_def indicator_up_def indicator_down_def split: sum.splits)
  have rabbit: "in_up (ping_rabbit url c q) \<longleftrightarrow> \<not> truthy url \<or> c = Inr () \<and> q = Inr ()" for url c q
    by (auto simp: ping_rabbit_def indicator_skipped_def indicator_up_def indicator_down_def split: sum.splits)
  have "bk_wire bk (w_calls w) (Inr PongReply) = Replied PongReply"
    using up by (simp add: wire_up_def)
  then have "user_rpc bk Ping w = (Inr PongReply, w\<lparr>w_calls := w_calls w + 1\<rparr>)"
    by (simp add: user_rpc_def serve_def)
  with run have "ready = summarise [ping_redis (hp_redisUrl p) (hp_redisConnect p) (hp_redisPing p),
      ping_rabbit (hp_rabbitUrl p) (hp_rabbitConnect p) (hp_rabbitClose p), indicator_up ''user'']"
    and "w' = w\<lparr>w_calls := w_calls w + 1\<rparr>"
    by (auto simp: health_check_def ping_service_def)
  with t redis rabbit show ?thesis
    by (auto simp: terminus_ok_def health_live_def indicator_up_def)
qed

definition demo_probe :: health_probe where
  "demo_probe =
     \<lparr>hp_redisUrl = Some ''redis://r'', hp_redisConnect = Inr (), hp_redisPing = Inr (JStr ''PONG''),
      hp_rabbitUrl = None, hp_rabbitConnect = Inr (), hp_rabbitClose = Inr ()\<rparr>"

theorem readiness_is_deep_witness:
  "\<exists>w'. health_check (list_all in_up) demo_probe (user_rpc demo_backend) demo_world = (True, w')
     \<and> w_db w' = demo_db"
proof -
  obtain ready w' where run: "health_check (list_all in_up) demo_probe (user_rpc demo_backend) demo_world = (ready, w')"
    by (rule prod.exhaust)
  have "terminus_ok (list_all in_up)" by (simp add: terminus_ok_def)
  from readiness_is_deep [OF this demo_wire_up run] run show ?thesis by (auto simp: demo_probe_def)
qed

end
