(* ===== verification/Request_Dto.thy ===== *)
theory Request_Dto
  imports Class_Validator Parse_Platform
begin

section \<open>The request bodies of the gateway\<close>

text \<open>
  The classes of \<open>apps/gateway/src/modules/auth/dto/auth.dto.ts\<close>,
  \<open>apps/gateway/src/modules/users/dto/user.dto.ts\<close> and \<open>libs/common/src/dto/pagination.dto.ts\<close>.
\<close>

definition hex_dash :: "string \<Rightarrow> bool" where
  "hex_dash s \<longleftrightarrow> s \<noteq> [] \<and> list_all (\<lambda>c. hex_char c \<or> c = CHR ''-'') s"

definition autoreg_class :: "field list" where
  "autoreg_class =
     [field_of ''deviceFingerprint'' TString False [IsString, IsNotEmpty, Length 32 256, Matches hex_dash],
      field_of ''platform'' TString True [IsOneOf [''android'', ''ios'']],
      field_of ''appVersion'' TString True [IsString],
      field_of ''integrityToken'' TString True [IsString]]"

definition login_class :: "field list" where
  "login_class =
     [field_of ''email'' TString False [IsEmail], field_of ''password'' TString False [IsNotEmpty]]"

definition forgot_password_class :: "field list" where
  "forgot_password_class = [field_of ''email'' TString False [IsEmail]]"

definition reset_password_class :: "field list" where
  "reset_password_class =
     [field_of ''token'' TString False [IsString, IsNotEmpty],
      field_of ''password'' TString False [MinLength 8]]"

definition oauth_class :: "field list" where
  "oauth_class =
     [field_of ''idToken'' TString True [IsString], field_of ''accessToken'' TString True [IsString],
      field_of ''email'' TString True [IsString], field_of ''name'' TString True [IsString]]"

definition upgrade_account_class :: "field list" where
  "upgrade_account_class =
     [field_of ''method'' TString False [IsOneOf [''email'', ''google'', ''apple'', ''vk'', ''yandex'']],
      field_of ''email'' TString True [IsEmail],
      field_of ''password'' TString True [MinLength 8],
      field_of ''name'' TString True [IsString, Length 1 50],
      field_of ''oauthToken'' TString True [IsString]]"

definition logout_class :: "field list" where
  "logout_class = [field_of ''refreshToken'' TString False [IsString, IsNotEmpty]]"

definition update_user_class :: "field list" where
  "update_user_class =
     [field_of ''name'' TString True [IsString, MaxLength 50],
      field_of ''tz'' TString True [IsString],
      field_of ''locale'' TString True [IsOneOf [''ru'', ''en'']],
      field_of ''avatarUrl'' TString True [IsUrl HttpsUrlWithTld, MaxLength 2048],
      field_of ''onboardingCompleted'' TBoolean True []]"

text \<open>\<open>PaginationDto\<close>, with the initialiser of \<open>limit\<close>.\<close>

definition pagination_class :: "field list" where
  "pagination_class =
     [field_of ''limit'' TNumber True [IsInt, AtLeast 1, AtMost 200],
      field_of ''cursor'' TString True [IsString]]"

definition pagination_limit :: "(string \<times> jsval) list \<Rightarrow> jsval" where
  "pagination_limit body = (if ''limit'' \<in> fst ` set body then js_get (JObj body) ''limit'' else JNum 50)"

end
