(* ===== verification/Edge_Users.thy ===== *)
theory Edge_Users
  imports Gateway_Rpc Request_Dto "HOL-Library.AList"
begin

section \<open>The profile endpoints\<close>

text \<open>
  \<open>apps/gateway/src/modules/users/users.controller.ts\<close>: read, update and delete the caller's own
  account, behind the access guard and, for the update, the validation pipe on \<open>UpdateUserDto\<close>.
  The payload of the update is built by object spread; \<open>update_message\<close> is the typed message the
  user service's handler reads from it. It is \<open>None\<close> for the payloads that fall outside the declared
  types of the service (a \<open>null\<close> time zone, locale or flag, which the pipe lets through, see
  \<open>null_profile_fields_pass\<close>): the model of the service does not cover them.
\<close>

fun js_spread :: "(string \<times> jsval) list \<Rightarrow> (string \<times> jsval) list \<Rightarrow> (string \<times> jsval) list" where
  "js_spread base [] = base"
| "js_spread base ((k, v) # kvs) = js_spread (AList.update k v base) kvs"

definition update_me_payload :: "string \<Rightarrow> (string \<times> jsval) list \<Rightarrow> jsval" where
  "update_me_payload userId dto = JObj (js_spread [(''userId'', JStr userId)] dto)"

definition patch_of :: "jsval \<Rightarrow> string patch option" where
  "patch_of v =
     (case v of JUndef \<Rightarrow> Some Absent | JNull \<Rightarrow> Some SetNull | JStr s \<Rightarrow> Some (SetTo s) | _ \<Rightarrow> None)"

definition opt_of :: "(jsval \<Rightarrow> 'a option) \<Rightarrow> jsval \<Rightarrow> 'a option option" where
  "opt_of f v = (if v = JUndef then Some None else map_option Some (f v))"

definition str_of :: "jsval \<Rightarrow> string option" where
  "str_of v = (case v of JStr s \<Rightarrow> Some s | _ \<Rightarrow> None)"

definition bool_of :: "jsval \<Rightarrow> bool option" where
  "bool_of v = (case v of JBool b \<Rightarrow> Some b | _ \<Rightarrow> None)"

definition locale_of :: "jsval \<Rightarrow> user_locale option" where
  "locale_of v = (if v = JStr ''ru'' then Some Ru else if v = JStr ''en'' then Some En else None)"

text \<open>The handler's reading of the payload: \<open>userId\<close>, and the five properties \<open>updateUser\<close> looks at.\<close>

definition update_message :: "jsval \<Rightarrow> user_message option" where
  "update_message data =
     (case (str_of (js_get data ''userId''), patch_of (js_get data ''name''),
            opt_of str_of (js_get data ''tz''), opt_of locale_of (js_get data ''locale''),
            patch_of (js_get data ''avatarUrl''), opt_of bool_of (js_get data ''onboardingCompleted'')) of
        (Some userId, Some n, Some tz, Some loc, Some av, Some onb) \<Rightarrow>
          Some (UpdateUser userId
            \<lparr>ui_name = n, ui_tz = tz, ui_locale = loc, ui_avatarUrl = av, ui_onboardingCompleted = onb\<rparr>)
      | _ \<Rightarrow> None)"

definition get_me :: "'w rpc \<Rightarrow> auth_user \<Rightarrow> 'w \<Rightarrow> (exn + user_reply) \<times> 'w" where
  "get_me rpc user w = rpc (GetUserById (us_userId user)) w"

definition update_me :: "'w rpc \<Rightarrow> auth_user \<Rightarrow> (string \<times> jsval) list \<Rightarrow> 'w \<Rightarrow> ((exn + user_reply) \<times> 'w) option" where
  "update_me rpc user dto w =
     map_option (\<lambda>msg. rpc msg w) (update_message (update_me_payload (us_userId user) dto))"

definition delete_me :: "'w rpc \<Rightarrow> auth_user \<Rightarrow> 'w \<Rightarrow> (exn + user_reply) \<times> 'w" where
  "delete_me rpc user w = rpc (DeleteUser (us_userId user)) w"

subsection \<open>Spread and payload\<close>

lemma js_spread_other: "k \<notin> fst ` set kvs \<Longrightarrow> map_of (js_spread base kvs) k = map_of base k"
  by (induction kvs arbitrary: base) (auto simp: update_conv)

lemma js_spread_given:
  "distinct (map fst kvs) \<Longrightarrow> map_of kvs k = Some v \<Longrightarrow> map_of (js_spread base kvs) k = Some v"
proof (induction kvs arbitrary: base)
  case (Cons kv kvs)
  obtain k' v' where kv: "kv = (k', v')" by fastforce
  show ?case
  proof (cases "k' = k")
    case True
    with Cons.prems kv have "k \<notin> fst ` set kvs" "v' = v" by auto
    with True kv js_spread_other [of k kvs] show ?thesis by (simp add: update_conv)
  next
    case False
    with Cons kv show ?thesis by auto
  qed
qed simp

lemma payload_get:
  assumes "distinct (map fst dto)" and "k \<noteq> ''userId''"
  shows "js_get (update_me_payload u dto) k = js_get (JObj dto) k"
proof (cases "map_of dto k")
  case None
  then have "k \<notin> fst ` set dto" by (simp add: map_of_eq_None_iff)
  from js_spread_other [OF this] None assms(2) show ?thesis by (simp add: update_me_payload_def)
next
  case (Some v)
  with js_spread_given [OF assms(1) Some] show ?thesis by (simp add: update_me_payload_def)
qed

text \<open>
  A profile update cannot reach another account or another property. Whatever body passes the
  pipe, the payload sent to the user service carries the authenticated user's identifier and beside it
  at most the five profile properties; a name, when given, is a string of at most 50 characters, an
  avatar a string that passed the HTTPS check, of at most 2048, and a locale one of the two.
\<close>

theorem profile_update_is_confined:
  assumes pipe: "validation_pipe ck update_user_class body = Inr dto" and dist: "distinct (map fst body)"
  shows "js_get (update_me_payload u dto) ''userId'' = JStr u
    \<and> (\<forall>k. js_get (update_me_payload u dto) k \<noteq> JUndef \<longrightarrow>
         k \<in> {''userId'', ''name'', ''tz'', ''locale'', ''avatarUrl'', ''onboardingCompleted''})
    \<and> (let name = js_get (update_me_payload u dto) ''name'' in
         js_nullish name \<or> (\<exists>s. name = JStr s \<and> length s \<le> 50))
    \<and> (let av = js_get (update_me_payload u dto) ''avatarUrl'' in
         js_nullish av \<or> (\<exists>s. av = JStr s \<and> chk_url ck HttpsUrlWithTld s \<and> length s \<le> 2048))
    \<and> (let loc = js_get (update_me_payload u dto) ''locale'' in
         js_nullish loc \<or> loc \<in> {JStr ''ru'', JStr ''en''})"
proof -
  let ?names = "{''name'', ''tz'', ''locale'', ''avatarUrl'', ''onboardingCompleted''}"
  note P = validation_pipe_Inr [OF pipe]
  have dto: "dto = transform_body ck update_user_class body" by (rule P(1))
  have keys: "fst ` set dto \<subseteq> ?names"
    using P(2) by (simp add: update_user_class_def field_of_def)
  note fields = P(3)
  have d: "distinct (map fst dto)" using dist dto by simp
  have uid: "js_get (update_me_payload u dto) ''userId'' = JStr u"
  proof -
    from keys have "''userId'' \<notin> fst ` set dto" by auto
    then show ?thesis by (simp add: update_me_payload_def js_spread_other)
  qed
  have none: "js_get (update_me_payload u dto) k = JUndef" if "k \<notin> insert ''userId'' ?names" for k
  proof -
    from that keys have "k \<notin> fst ` set dto" by auto
    with that have "map_of (js_spread [(''userId'', JStr u)] dto) k = None" by (simp add: js_spread_other)
    then show ?thesis by (simp add: update_me_payload_def)
  qed
  have own: "\<forall>k. js_get (update_me_payload u dto) k \<noteq> JUndef \<longrightarrow> k \<in> insert ''userId'' ?names"
  proof (intro allI impI, rule ccontr)
    fix k
    assume "js_get (update_me_payload u dto) k \<noteq> JUndef" and "k \<notin> insert ''userId'' ?names"
    with none [of k] show False by simp
  qed
  note get = payload_get [OF d]
  have f: "field_of ''name'' TString True [IsString, MaxLength 50] \<in> set update_user_class"
    "field_of ''avatarUrl'' TString True [IsUrl HttpsUrlWithTld, MaxLength 2048] \<in> set update_user_class"
    "field_of ''locale'' TString True [IsOneOf [''ru'', ''en'']] \<in> set update_user_class"
    by (simp_all add: update_user_class_def)
  have name: "js_nullish (js_get (update_me_payload u dto) ''name'')
      \<or> (\<exists>s. js_get (update_me_payload u dto) ''name'' = JStr s \<and> length s \<le> 50)"
    using fields [OF f(1)] by (auto simp: field_ok_def field_of_def get str_sat_iff)
  have av: "js_nullish (js_get (update_me_payload u dto) ''avatarUrl'')
      \<or> (\<exists>s. js_get (update_me_payload u dto) ''avatarUrl'' = JStr s \<and> chk_url ck HttpsUrlWithTld s \<and> length s \<le> 2048)"
    using fields [OF f(2)] by (auto simp: field_ok_def field_of_def get str_sat_iff)
  have loc: "js_nullish (js_get (update_me_payload u dto) ''locale'')
      \<or> js_get (update_me_payload u dto) ''locale'' \<in> {JStr ''ru'', JStr ''en''}"
    using fields [OF f(3)] by (auto simp: field_ok_def field_of_def get str_sat_iff)
  show ?thesis unfolding Let_def by (intro conjI uid own name av loc)
qed

definition demo_checkers :: checkers where
  "demo_checkers =
     \<lparr>chk_email = (\<lambda>s. CHR ''@'' \<in> set s), chk_url = (\<lambda>k s. prefix ''https://'' s),
      to_string = (\<lambda>v. case v of JStr s \<Rightarrow> s | _ \<Rightarrow> ''[object Object]''), to_number = id\<rparr>"

theorem profile_update_is_confined_witness:
  "\<exists>dto. validation_pipe demo_checkers update_user_class [(''name'', JStr ''Ann''), (''locale'', JStr ''en'')] = Inr dto
     \<and> js_get (update_me_payload ''u1'' dto) ''userId'' = JStr ''u1''
     \<and> update_message (update_me_payload ''u1'' dto) = Some (UpdateUser ''u1''
          \<lparr>ui_name = SetTo ''Ann'', ui_tz = None, ui_locale = Some En, ui_avatarUrl = Absent,
           ui_onboardingCompleted = None\<rparr>)"
proof -
  let ?body = "[(''name'', JStr ''Ann''), (''locale'', JStr ''en'')]"
  have pipe: "validation_pipe demo_checkers update_user_class ?body = Inr ?body"
    by (simp add: validation_pipe_def transform_body_def update_user_class_def field_of_def demo_checkers_def
        validate_class_def field_ok_def)
  from profile_update_is_confined [OF pipe, THEN conjunct1, of "''u1''"]
  have uid: "js_get (update_me_payload ''u1'' ?body) ''userId'' = JStr ''u1''" by simp
  have "update_message (update_me_payload ''u1'' ?body) = Some (UpdateUser ''u1''
          \<lparr>ui_name = SetTo ''Ann'', ui_tz = None, ui_locale = Some En, ui_avatarUrl = Absent,
           ui_onboardingCompleted = None\<rparr>)"
    by (simp add: update_message_def update_me_payload_def str_of_def patch_of_def opt_of_def locale_of_def)
  with pipe uid show ?thesis by blast
qed

text \<open>
  Two gaps of \<open>UpdateUserDto\<close>. \<open>IsOptional\<close> lets \<open>null\<close> through, so a time zone, locale or
  flag of \<open>null\<close> passes validation and goes out in the payload; and \<open>onboardingCompleted\<close>, which has
  no \<open>IsBoolean\<close>, is converted implicitly, so the string \<open>false\<close> arrives as \<open>true\<close>.
\<close>

theorem null_profile_fields_pass:
  "validation_pipe ck update_user_class [(''tz'', JNull)] = Inr [(''tz'', JNull)]
   \<and> js_get (update_me_payload u [(''tz'', JNull)]) ''tz'' = JNull
   \<and> validation_pipe ck update_user_class [(''onboardingCompleted'', JStr ''false'')]
       = Inr [(''onboardingCompleted'', JBool True)]"
  by (simp add: validation_pipe_def transform_body_def update_user_class_def field_of_def
      validate_class_def field_ok_def update_me_payload_def)

end
