(* ===== verification/Http_Edge.thy ===== *)
theory Http_Edge
  imports Gateway_App Edge_Users
begin

section \<open>A request through the gateway\<close>

text \<open>
  How the pieces of the gateway are strung together: \<open>app.module.ts\<close> registers \<open>JwtAccessGuard\<close>,
  then \<open>FingerprintThrottlerGuard\<close>, then the interceptors and the exception filter, \<open>main.ts\<close> the
  validation pipe, and the controllers add their own guard, their \<open>Public\<close> and \<open>Throttle\<close> marks,
  their DTO class and their status. Nest runs guards first, then interceptors, then pipes, then the
  handler, and the filter on whatever is thrown; the body parser has run before. The throttler's
  storage is a parameter that counts and says whether a key is blocked.

  The routes are those of \<open>auth.controller.ts\<close> and \<open>users.controller.ts\<close>. An update of the profile
  that falls outside the declared types (\<open>update_message\<close>) is outside the model here too: the result
  is then \<open>None\<close>.
\<close>

subsection \<open>Routes\<close>

datatype route =
    RAutoreg | RUpgrade | RLogin | RRefresh | RLogout | RForgot | RReset | ROAuth string
  | RGetMe | RUpdateMe | RDeleteMe

fun route_path :: "route \<Rightarrow> string" where
  "route_path RAutoreg = ''/v1/auth/autoreg''"
| "route_path RUpgrade = ''/v1/auth/upgrade''"
| "route_path RLogin = ''/v1/auth/login''"
| "route_path RRefresh = ''/v1/auth/refresh''"
| "route_path RLogout = ''/v1/auth/logout''"
| "route_path RForgot = ''/v1/auth/forgot''"
| "route_path RReset = ''/v1/auth/reset''"
| "route_path (ROAuth provider) = ''/v1/auth/oauth/'' @ provider"
| "route_path RGetMe = ''/v1/users/me''"
| "route_path RUpdateMe = ''/v1/users/me''"
| "route_path RDeleteMe = ''/v1/users/me''"

text \<open>The routes marked \<open>Public\<close>, and the limits of their \<open>Throttle\<close>.\<close>

fun is_public :: "route \<Rightarrow> bool" where
  "is_public RUpgrade = False"
| "is_public RLogout = False"
| "is_public RGetMe = False"
| "is_public RUpdateMe = False"
| "is_public RDeleteMe = False"
| "is_public _ = True"

fun route_throttle :: "route \<Rightarrow> (string \<times> nat \<times> int) list" where
  "route_throttle RAutoreg = autoreg_throttle"
| "route_throttle RLogin = auth_throttle"
| "route_throttle RForgot = auth_throttle"
| "route_throttle RReset = auth_throttle"
| "route_throttle (ROAuth _) = auth_throttle"
| "route_throttle _ = []"

fun route_class :: "route \<Rightarrow> field list option" where
  "route_class RAutoreg = Some autoreg_class"
| "route_class RUpgrade = Some upgrade_account_class"
| "route_class RLogin = Some login_class"
| "route_class RLogout = Some logout_class"
| "route_class RForgot = Some forgot_password_class"
| "route_class RReset = Some reset_password_class"
| "route_class (ROAuth _) = Some oauth_class"
| "route_class RUpdateMe = Some update_user_class"
| "route_class _ = None"

text \<open>\<open>POST\<close> answers 201 where no \<open>HttpCode\<close> says otherwise.\<close>

definition success_status :: "route \<Rightarrow> int" where
  "success_status rt = (if rt = RAutoreg then 201 else 200)"

subsection \<open>Requests and the state behind the gateway\<close>

record http_request_in =
  rq_path :: string
  rq_bearer :: "string option"
  rq_deviceId :: "string option"
  rq_traceId :: "string option"
  rq_userAgent :: "string option"
  rq_ip :: string
  rq_body :: "(string \<times> jsval) list"

record ('w, 'n, 'r, 't) edge_state =
  es_world :: 'w
  es_net :: 'n
  es_redis :: 'r
  es_limits :: 't

record ('w, 'n, 'r, 't) edge =
  ed_gw :: gw_env
  ed_passport :: passport
  ed_rpc :: "'w rpc"
  ed_verify :: "'n verify"
  ed_isBlacklisted :: "millis \<Rightarrow> string \<Rightarrow> 'r \<Rightarrow> exn + bool"
  ed_blacklist :: "millis \<Rightarrow> string \<Rightarrow> int \<Rightarrow> 'r \<Rightarrow> (exn + unit) \<times> 'r"
  ed_blocked :: "route \<Rightarrow> string \<Rightarrow> string \<Rightarrow> nat \<Rightarrow> int \<Rightarrow> 't \<Rightarrow> bool \<times> 't"
    \<comment> \<open>handler, throttler, tracker, limit, window\<close>
  ed_checkers :: checkers
  ed_messages :: "string list \<Rightarrow> jsval"
    \<comment> \<open>class-validator's messages for the rejected properties\<close>
  ed_traceId :: string
    \<comment> \<open>the id \<open>generateTraceId\<close> draws\<close>

datatype edge_reply =
    AuthReply auth_response
  | TokensReply token_pair
  | AckReply                     \<comment> \<open>\<open>{success: true}\<close>\<close>
  | ServiceReply user_reply

datatype edge_response = Success int edge_reply | Failure http_reply

subsection \<open>Guards\<close>

text \<open>Without a bearer token passport reports an error of its own as \<open>info\<close>.\<close>

definition access_guard :: "('w, 'n, 'r, 't) edge \<Rightarrow> route \<Rightarrow> http_request_in \<Rightarrow> exn + auth_user option" where
  "access_guard ed rt rq =
     (case rq_bearer rq of
        Some token \<Rightarrow>
          can_activate_access (ed_passport ed) (gw_jwt (ed_gw ed)) (gw_accessSecret (ed_gw ed))
            (gw_now (ed_gw ed)) (is_public rt) token
      | None \<Rightarrow>
          if is_public rt then Inr None
          else (case ed_passport ed (Inl ''Error'') jwt_access_validate access_handle_request of
                  Inl e \<Rightarrow> Inl e | Inr u \<Rightarrow> Inr (Some u)))"

definition refresh_guard ::
  "('w, 'n, 'r, 't) edge \<Rightarrow> http_request_in \<Rightarrow> ('w, 'n, 'r, 't) edge_state \<Rightarrow> exn + auth_user" where
  "refresh_guard ed rq st =
     (case rq_bearer rq of
        Some token \<Rightarrow>
          can_activate_refresh (ed_passport ed) (gw_jwt (ed_gw ed)) (gw_refreshSecret (ed_gw ed))
            (ed_isBlacklisted ed (gw_now (ed_gw ed))) (gw_now (ed_gw ed)) token (es_redis st)
      | None \<Rightarrow>
          ed_passport ed (Inl ''Error'')
            (\<lambda>p. jwt_refresh_validate (ed_isBlacklisted ed (gw_now (ed_gw ed))) p (es_redis st))
            refresh_handle_request)"

text \<open>The throttler's exception has a string for its response.\<close>

definition throttler_exn :: exn where
  "throttler_exn =
     HttpExn (JNum 429) (JStr ''ThrottlerException: Too Many Requests'') ''ThrottlerException: Too Many Requests''"

fun throttle ::
  "(string \<Rightarrow> string \<Rightarrow> nat \<Rightarrow> int \<Rightarrow> 't \<Rightarrow> bool \<times> 't) \<Rightarrow> string \<Rightarrow> (string \<times> nat \<times> int) list \<Rightarrow> 't
     \<Rightarrow> (exn + unit) \<times> 't" where
  "throttle blocked tracker [] t = (Inr (), t)"
| "throttle blocked tracker ((name, limit, ttl) # limits) t =
     (case blocked name tracker limit ttl t of
        (True, t') \<Rightarrow> (Inl throttler_exn, t')
      | (False, t') \<Rightarrow> throttle blocked tracker limits t')"

definition user_value :: "auth_user option \<Rightarrow> jsval" where
  "user_value user = (case user of None \<Rightarrow> JUndef | Some u \<Rightarrow> JObj [(''userId'', JStr (us_userId u))])"

definition throttler_guard ::
  "('w, 'n, 'r, 't) edge \<Rightarrow> route \<Rightarrow> http_request_in \<Rightarrow> auth_user option \<Rightarrow> 't \<Rightarrow> (exn + unit) \<times> 't" where
  "throttler_guard ed rt rq user =
     throttle (ed_blocked ed rt) (get_tracker (rq_path rq) (JObj (rq_body rq)) (user_value user) (rq_ip rq))
       (applied_limits False (route_throttle rt) (Some (rq_path rq)))"

definition edge_guards ::
  "('w, 'n, 'r, 't) edge \<Rightarrow> route \<Rightarrow> http_request_in \<Rightarrow> ('w, 'n, 'r, 't) edge_state
     \<Rightarrow> (exn + auth_user option) \<times> ('w, 'n, 'r, 't) edge_state" where
  "edge_guards ed rt rq st =
     (case access_guard ed rt rq of
        Inl e \<Rightarrow> (Inl e, st)
      | Inr user \<Rightarrow>
          (case throttler_guard ed rt rq user (es_limits st) of
             (Inl e, t) \<Rightarrow> (Inl e, st\<lparr>es_limits := t\<rparr>)
           | (Inr (), t) \<Rightarrow>
               if rt = RRefresh
               then (map_sum id Some (refresh_guard ed rq (st\<lparr>es_limits := t\<rparr>)), st\<lparr>es_limits := t\<rparr>)
               else (Inr user, st\<lparr>es_limits := t\<rparr>)))"

subsection \<open>Handlers\<close>

text \<open>Properties of a validated body.\<close>

definition dto_str :: "(string \<times> jsval) list \<Rightarrow> string \<Rightarrow> string" where
  "dto_str dto k = nullish (str_of (js_get (JObj dto) k)) []"

definition dto_opt :: "(string \<times> jsval) list \<Rightarrow> string \<Rightarrow> string option" where
  "dto_opt dto k = str_of (js_get (JObj dto) k)"

definition dto_platform :: "(string \<times> jsval) list \<Rightarrow> platform option" where
  "dto_platform dto =
     (if dto_opt dto ''platform'' = Some ''android'' then Some Android
      else if dto_opt dto ''platform'' = Some ''ios'' then Some Ios else None)"

definition upgrade_dto_of :: "(string \<times> jsval) list \<Rightarrow> upgrade_dto" where
  "upgrade_dto_of dto =
     \<lparr>ud_method = dto_str dto ''method'', ud_email = dto_opt dto ''email'', ud_password = dto_opt dto ''password'',
      ud_name = dto_opt dto ''name'', ud_oauthToken = dto_opt dto ''oauthToken''\<rparr>"

definition oauth_dto_of :: "(string \<times> jsval) list \<Rightarrow> oauth_dto" where
  "oauth_dto_of dto =
     \<lparr>od_idToken = dto_opt dto ''idToken'', od_accessToken = dto_opt dto ''accessToken'',
      od_email = dto_opt dto ''email'', od_name = dto_opt dto ''name''\<rparr>"

text \<open>Reading \<open>userId\<close> of a request without a user throws.\<close>

definition no_user_error :: exn where
  "no_user_error = plain_error ''Cannot read properties of undefined''"

text \<open>The three handlers of the auth controller that only pass their DTO on.\<close>

definition logout_endpoint ::
  "gw_env \<Rightarrow> (millis \<Rightarrow> string \<Rightarrow> int \<Rightarrow> 'r \<Rightarrow> (exn + unit) \<times> 'r) \<Rightarrow> (string \<times> jsval) list \<Rightarrow> 'r \<Rightarrow> (exn + unit) \<times> 'r" where
  "logout_endpoint gw blacklist dto r = gw_logout gw blacklist (dto_str dto ''refreshToken'') r"

definition forgot_endpoint :: "'w rpc \<Rightarrow> (string \<times> jsval) list \<Rightarrow> 'w \<Rightarrow> (exn + unit) \<times> 'w" where
  "forgot_endpoint rpc dto w = gw_forgot_password rpc (dto_str dto ''email'') w"

definition reset_endpoint :: "'w rpc \<Rightarrow> (string \<times> jsval) list \<Rightarrow> 'w \<Rightarrow> (exn + unit) \<times> 'w" where
  "reset_endpoint rpc dto w = gw_reset_password rpc (dto_str dto ''token'') (dto_str dto ''password'') w"

text \<open>A result on one part of the state, as a result on the whole.\<close>

definition on_world ::
  "('a \<Rightarrow> edge_reply) \<Rightarrow> (exn + 'a) \<times> 'w \<Rightarrow> ('w, 'n, 'r, 't) edge_state
     \<Rightarrow> (exn + edge_reply) \<times> ('w, 'n, 'r, 't) edge_state" where
  "on_world f rw st = (map_sum id f (fst rw), st\<lparr>es_world := snd rw\<rparr>)"

fun edge_handler ::
  "('w, 'n, 'r, 't) edge \<Rightarrow> http_request_in \<Rightarrow> (string \<times> jsval) list \<Rightarrow> ('w, 'n, 'r, 't) edge_state
     \<Rightarrow> route \<Rightarrow> auth_user option \<Rightarrow> ((exn + edge_reply) \<times> ('w, 'n, 'r, 't) edge_state) option" where
  "edge_handler ed rq dto st RAutoreg user =
     Some (on_world AuthReply
       (autoreg_endpoint (ed_gw ed) (ed_rpc ed) (dto_str dto ''deviceFingerprint'') (dto_platform dto)
          (rq_deviceId rq) (Some (rq_ip rq)) (es_world st)) st)"
| "edge_handler ed rq dto st RLogin user =
     Some (on_world AuthReply
       (login_endpoint (ed_gw ed) (ed_rpc ed) (dto_str dto ''email'') (dto_str dto ''password'')
          (rq_deviceId rq) (es_world st)) st)"
| "edge_handler ed rq dto st RForgot user =
     Some (on_world (\<lambda>_. AckReply) (forgot_endpoint (ed_rpc ed) dto (es_world st)) st)"
| "edge_handler ed rq dto st RReset user =
     Some (on_world (\<lambda>_. AckReply) (reset_endpoint (ed_rpc ed) dto (es_world st)) st)"
| "edge_handler ed rq dto st RLogout user =
     (case logout_endpoint (ed_gw ed) (ed_blacklist ed) dto (es_redis st) of
        (r, red) \<Rightarrow> Some (map_sum id (\<lambda>_. AckReply) r, st\<lparr>es_redis := red\<rparr>))"
| "edge_handler ed rq dto st (ROAuth provider) user =
     (case oauth_endpoint (ed_gw ed) (ed_rpc ed) (ed_verify ed) provider (oauth_dto_of dto) (rq_deviceId rq)
             (rq_userAgent rq) (es_world st) (es_net st) of
        (r, w, n) \<Rightarrow> Some (map_sum id AuthReply r, st\<lparr>es_world := w, es_net := n\<rparr>))"
| "edge_handler ed rq dto st _ None = Some (Inl no_user_error, st)"
| "edge_handler ed rq dto st RUpgrade (Some u) =
     (case upgrade_endpoint (ed_gw ed) (ed_rpc ed) (ed_verify ed) (us_userId u) (upgrade_dto_of dto)
             (rq_deviceId rq) (rq_userAgent rq) (es_world st) (es_net st) of
        (r, w, n) \<Rightarrow> Some (map_sum id AuthReply r, st\<lparr>es_world := w, es_net := n\<rparr>))"
| "edge_handler ed rq dto st RRefresh (Some u) =
     (case refresh_handler (ed_gw ed) (ed_rpc ed) (ed_blacklist ed) u (rq_deviceId rq) (es_world st) (es_redis st) of
        (r, w, red) \<Rightarrow> Some (map_sum id TokensReply r, st\<lparr>es_world := w, es_redis := red\<rparr>))"
| "edge_handler ed rq dto st RGetMe (Some u) =
     Some (on_world ServiceReply (get_me (ed_rpc ed) u (es_world st)) st)"
| "edge_handler ed rq dto st RUpdateMe (Some u) =
     map_option (\<lambda>rw. on_world ServiceReply rw st) (update_me (ed_rpc ed) u dto (es_world st))"
| "edge_handler ed rq dto st RDeleteMe (Some u) =
     Some (on_world ServiceReply (delete_me (ed_rpc ed) u (es_world st)) st)"

subsection \<open>The pipeline\<close>

text \<open>The pipe on the body, for a handler that declares one.\<close>

definition bad_request_exn :: "jsval \<Rightarrow> exn" where
  "bad_request_exn messages =
     HttpExn (JNum 400)
       (JObj [(''message'', messages), (''error'', JStr ''Bad Request''), (''statusCode'', JNum 400)])
       ''Bad Request Exception''"

definition edge_body :: "('w, 'n, 'r, 't) edge \<Rightarrow> route \<Rightarrow> http_request_in \<Rightarrow> exn + (string \<times> jsval) list" where
  "edge_body ed rt rq =
     (case route_class rt of
        None \<Rightarrow> Inr []
      | Some cls \<Rightarrow>
          (case validation_pipe (ed_checkers ed) cls (rq_body rq) of
             Inl bad \<Rightarrow> Inl (bad_request_exn (ed_messages ed bad))
           | Inr dto \<Rightarrow> Inr dto))"

text \<open>
  \<open>RequestIdInterceptor\<close> names the request after the guards have let it in; an exception of a guard
  finds the filter with no request id and outside the request's context.
\<close>

definition edge_request ::
  "('w, 'n, 'r, 't) edge \<Rightarrow> route \<Rightarrow> http_request_in \<Rightarrow> ('w, 'n, 'r, 't) edge_state
     \<Rightarrow> (edge_response \<times> ('w, 'n, 'r, 't) edge_state) option" where
  "edge_request ed rt rq st =
     (case edge_guards ed rt rq st of
        (Inl e, st1) \<Rightarrow> Some (Failure (fst (all_exceptions_filter None None e)), st1)
      | (Inr user, st1) \<Rightarrow>
          let requestId = request_trace_id (rq_traceId rq) (ed_traceId ed);
              fails = (\<lambda>e. Failure (fst (all_exceptions_filter (Some requestId) None e)))
          in (case edge_body ed rt rq of
                Inl e \<Rightarrow> Some (fails e, st1)
              | Inr dto \<Rightarrow>
                  map_option (\<lambda>(r, st2).
                    (case r of Inl e \<Rightarrow> fails e | Inr reply \<Rightarrow> Success (success_status rt) reply, st2))
                    (edge_handler ed rq dto st1 rt user)))"

subsection \<open>What the guards and the pipe leave alone\<close>

lemma edge_guards_state:
  assumes "edge_guards ed rt rq st = (r, st1)"
  shows "\<exists>t. st1 = st\<lparr>es_limits := t\<rparr>"
proof -
  have "\<exists>t. st = st\<lparr>es_limits := t\<rparr>" by (intro exI [of _ "es_limits st"]) simp
  with assms show ?thesis
    by (auto simp: edge_guards_def split: sum.splits prod.splits unit.splits if_splits)
qed

lemma map_sum_id [simp]:
  "map_sum id f r = Inr y \<longleftrightarrow> (\<exists>x. r = Inr x \<and> y = f x)" "map_sum id f r = Inl e \<longleftrightarrow> r = Inl e"
  by (cases r; auto)+

lemma access_guard_refuses:
  assumes pp: "passport_ok (ed_passport ed)" and prot: "\<not> is_public rt"
    and bad: "\<forall>token p. rq_bearer rq = Some token \<longrightarrow>
      jwt_verify (gw_jwt (ed_gw ed)) (gw_now (ed_gw ed)) (gw_accessSecret (ed_gw ed)) token \<noteq> Inr p"
  shows "\<exists>code m. access_guard ed rt rq = Inl (unauthorized code m) \<and> code \<in> {TOKEN_EXPIRED, TOKEN_INVALID}"
proof (cases "rq_bearer rq")
  case None
  with pp prot show ?thesis
    by (auto simp: access_guard_def passport_ok_def access_handle_request_def)
next
  case (Some token)
  with bad obtain info where
    "jwt_verify (gw_jwt (ed_gw ed)) (gw_now (ed_gw ed)) (gw_accessSecret (ed_gw ed)) token = Inl info"
    by (metis sum.exhaust)
  with pp prot Some show ?thesis
    by (auto simp: access_guard_def can_activate_access_def passport_ok_def access_handle_request_def)
qed

lemma access_guard_admits:
  assumes "passport_ok (ed_passport ed)" and "access_guard ed rt rq = Inr (Some u)"
  obtains token p where "rq_bearer rq = Some token" "jp_sub p = Some (us_userId u)"
    "jwt_verify (gw_jwt (ed_gw ed)) (gw_now (ed_gw ed)) (gw_accessSecret (ed_gw ed)) token = Inr p" "\<not> is_public rt"
proof (cases "rq_bearer rq")
  case None
  with assms show ?thesis
    by (auto simp: access_guard_def passport_ok_def access_handle_request_def split: if_splits)
next
  case (Some token)
  with assms(2) have "\<not> is_public rt"
    by (auto simp: access_guard_def can_activate_access_def)
  with Some assms(2) have "can_activate_access (ed_passport ed) (gw_jwt (ed_gw ed)) (gw_accessSecret (ed_gw ed))
      (gw_now (ed_gw ed)) False token = Inr (Some u)" by (simp add: access_guard_def)
  from access_guard_Inr [OF assms(1) this] that Some \<open>\<not> is_public rt\<close> show ?thesis by metis
qed

lemma access_guard_public: "is_public rt \<Longrightarrow> access_guard ed rt rq = Inr None"
  by (simp add: access_guard_def can_activate_access_def split: option.split)

lemma access_guard_protected: "\<not> is_public rt \<Longrightarrow> access_guard ed rt rq \<noteq> Inr None"
  by (auto simp: access_guard_def can_activate_access_def split: option.split sum.split)

lemma refresh_guard_admits:
  assumes "passport_ok (ed_passport ed)" and "refresh_guard ed rq st = Inr u"
  obtains token p where "rq_bearer rq = Some token" "jp_sub p = Some (us_userId u)"
    "jwt_verify (gw_jwt (ed_gw ed)) (gw_now (ed_gw ed)) (gw_refreshSecret (ed_gw ed)) token = Inr p"
proof (cases "rq_bearer rq")
  case None
  with assms show ?thesis
    by (simp add: refresh_guard_def passport_ok_def refresh_handle_request_def)
next
  case (Some token)
  with assms(2) have "can_activate_refresh (ed_passport ed) (gw_jwt (ed_gw ed)) (gw_refreshSecret (ed_gw ed))
      (ed_isBlacklisted ed (gw_now (ed_gw ed))) (gw_now (ed_gw ed)) token (es_redis st) = Inr u"
    by (simp add: refresh_guard_def)
  from refresh_guard_Inr [OF assms(1) this] that Some show ?thesis by metis
qed

text \<open>Whose token a request carries, as the route's own guard reads it.\<close>

definition bearer_subject :: "('w, 'n, 'r, 't) edge \<Rightarrow> route \<Rightarrow> http_request_in \<Rightarrow> string option" where
  "bearer_subject ed rt rq =
     (case rq_bearer rq of
        None \<Rightarrow> None
      | Some token \<Rightarrow>
          (case jwt_verify (gw_jwt (ed_gw ed)) (gw_now (ed_gw ed))
                  (if rt = RRefresh then gw_refreshSecret (ed_gw ed) else gw_accessSecret (ed_gw ed)) token of
             Inl _ \<Rightarrow> None
           | Inr p \<Rightarrow> jp_sub p))"

lemma edge_guards_user:
  assumes pp: "passport_ok (ed_passport ed)" and g: "edge_guards ed rt rq st = (Inr user, st1)"
  shows "user = None \<and> is_public rt \<or> (\<exists>u. user = Some u \<and> bearer_subject ed rt rq = Some (us_userId u))"
proof -
  from g obtain user0 where a: "access_guard ed rt rq = Inr user0"
    by (auto simp: edge_guards_def split: sum.splits)
  with g consider (other) "rt \<noteq> RRefresh" "user = user0"
    | (refresh) u t where "rt = RRefresh" "user = Some u" "refresh_guard ed rq (st\<lparr>es_limits := t\<rparr>) = Inr u"
    by (auto simp: edge_guards_def split: sum.splits prod.splits unit.splits if_splits)
  then show ?thesis
  proof cases
    case other
    show ?thesis
    proof (cases user0)
      case None
      with a other access_guard_protected [of rt ed rq] show ?thesis by auto
    next
      case (Some u)
      with a have "access_guard ed rt rq = Inr (Some u)" by simp
      with pp obtain token p where "rq_bearer rq = Some token" "jp_sub p = Some (us_userId u)"
        "jwt_verify (gw_jwt (ed_gw ed)) (gw_now (ed_gw ed)) (gw_accessSecret (ed_gw ed)) token = Inr p"
        by (rule access_guard_admits)
      with other Some show ?thesis by (simp add: bearer_subject_def)
    qed
  next
    case refresh
    from pp refresh(3) obtain token p where "rq_bearer rq = Some token" "jp_sub p = Some (us_userId u)"
      "jwt_verify (gw_jwt (ed_gw ed)) (gw_now (ed_gw ed)) (gw_refreshSecret (ed_gw ed)) token = Inr p"
      by (rule refresh_guard_admits)
    with refresh(1,2) show ?thesis by (simp add: bearer_subject_def)
  qed
qed

text \<open>
  C22: a protected route is closed without a valid access token. Whatever else the request holds, the
  answer is a 401 whose code tells an expired token from an invalid one, no message is sent, nothing
  stored changes, and no limit counts the attempt; as the guards run before the interceptor that names
  the request, the body's request id is \<open>unknown\<close>, also when the client sent one.
\<close>

theorem protected_route_needs_token:
  assumes pp: "passport_ok (ed_passport ed)" and prot: "\<not> is_public rt"
    and bad: "\<forall>token p. rq_bearer rq = Some token \<longrightarrow>
      jwt_verify (gw_jwt (ed_gw ed)) (gw_now (ed_gw ed)) (gw_accessSecret (ed_gw ed)) token \<noteq> Inr p"
  shows "\<exists>code m. code \<in> {TOKEN_EXPIRED, TOKEN_INVALID} \<and> edge_request ed rt rq st =
    Some (Failure \<lparr>rep_status = JNum 401,
      rep_body = [(''statusCode'', JNum 401), (''code'', JStr code), (''message'', JStr m),
                  (''requestId'', JStr ''unknown'')]\<rparr>, st)"
proof -
  from access_guard_refuses [OF pp prot bad] obtain code m where
    a: "access_guard ed rt rq = Inl (unauthorized code m)" and c: "code \<in> {TOKEN_EXPIRED, TOKEN_INVALID}" by blast
  have "fst (all_exceptions_filter None None (unauthorized code m)) = \<lparr>rep_status = JNum 401,
      rep_body = [(''statusCode'', JNum 401), (''code'', JStr code), (''message'', JStr m),
                  (''requestId'', JStr ''unknown'')]\<rparr>"
    by (simp add: all_exceptions_filter_def classify_exception_def extract_rpc_payload_def http_exns
        is_rpc_error_payload_def Let_def)
  with a have "edge_request ed rt rq st = Some (Failure \<lparr>rep_status = JNum 401,
      rep_body = [(''statusCode'', JNum 401), (''code'', JStr code), (''message'', JStr m),
                  (''requestId'', JStr ''unknown'')]\<rparr>, st)"
    by (simp add: edge_request_def edge_guards_def)
  with c show ?thesis by blast
qed

definition demo_edge :: "'w rpc \<Rightarrow> ('w, unit, string \<Rightarrow> (string \<times> millis) option, nat) edge" where
  "demo_edge rpc =
     \<lparr>ed_gw = demo_gateway ''j'' 10, ed_passport = demo_passport, ed_rpc = rpc,
      ed_verify = run_verifier (\<lambda>req n. (Inl ''timeout'', n)) (\<lambda>_. False) (\<lambda>_. None)
        \<lparr>vk_androidId = None, vk_iosId = None, vk_publicInfoUrl = None, vk_userInfoUrl = None\<rparr> None,
      ed_isBlacklisted = is_blacklisted demo_redis, ed_blacklist = blacklist_refresh_token demo_redis,
      ed_blocked = (\<lambda>rt name tracker limit ttl t. (limit \<le> t, t + 1)),
      ed_checkers = demo_checkers, ed_messages = (\<lambda>bad. JArr (map JStr bad)), ed_traceId = ''tr_1''\<rparr>"

definition demo_edge_state :: "'w \<Rightarrow> ('w, unit, string \<Rightarrow> (string \<times> millis) option, nat) edge_state" where
  "demo_edge_state w = \<lparr>es_world = w, es_net = (), es_redis = Map.empty, es_limits = 0\<rparr>"

definition demo_request :: "string \<Rightarrow> string option \<Rightarrow> (string \<times> jsval) list \<Rightarrow> http_request_in" where
  "demo_request path bearer body =
     \<lparr>rq_path = path, rq_bearer = bearer, rq_deviceId = Some ''dev'', rq_traceId = Some ''tr_client'',
      rq_userAgent = None, rq_ip = ''1.2.3.4'', rq_body = body\<rparr>"

lemma demo_edge_simps [simp]:
  "ed_gw (demo_edge rpc) = demo_gateway ''j'' 10" "ed_passport (demo_edge rpc) = demo_passport"
  "ed_rpc (demo_edge rpc) = rpc" "ed_checkers (demo_edge rpc) = demo_checkers"
  "ed_isBlacklisted (demo_edge rpc) = is_blacklisted demo_redis"
  "ed_blacklist (demo_edge rpc) = blacklist_refresh_token demo_redis"
  "ed_blocked (demo_edge rpc) rt name tracker limit ttl t = (limit \<le> t, t + 1)"
  by (simp_all add: demo_edge_def)

lemma demo_request_simps [simp]:
  "rq_bearer (demo_request path bearer body) = bearer" "rq_body (demo_request path bearer body) = body"
  "rq_path (demo_request path bearer body) = path"
  by (simp_all add: demo_request_def)

theorem protected_route_needs_token_witness:
  "\<exists>code m. edge_request (demo_edge (user_rpc demo_backend)) RGetMe (demo_request ''/v1/users/me'' (Some ''bad'') [])
       (demo_edge_state demo_world)
     = Some (Failure \<lparr>rep_status = JNum 401,
         rep_body = [(''statusCode'', JNum 401), (''code'', JStr code), (''message'', JStr m),
                     (''requestId'', JStr ''unknown'')]\<rparr>, demo_edge_state demo_world)"
proof -
  let ?ed = "demo_edge (user_rpc demo_backend)" and ?rq = "demo_request ''/v1/users/me'' (Some ''bad'') []"
  have "\<forall>token p. rq_bearer ?rq = Some token \<longrightarrow> jwt_verify (gw_jwt (ed_gw ?ed)) (gw_now (ed_gw ?ed))
      (gw_accessSecret (ed_gw ?ed)) token \<noteq> Inr p"
    by simp
  moreover have "passport_ok (ed_passport ?ed)" "\<not> is_public RGetMe"
    by (simp_all add: demo_passport_ok)
  ultimately show ?thesis using protected_route_needs_token by metis
qed

subsection \<open>Which accounts a request can name\<close>

definition logged_rpc :: "'w rpc \<Rightarrow> ('w \<times> user_message list) rpc" where
  "logged_rpc rpc msg wl = (case rpc msg (fst wl) of (r, w') \<Rightarrow> (r, (w', snd wl @ [msg])))"

fun message_account :: "user_message \<Rightarrow> string option" where
  "message_account (UpgradeUserAccount i _ _ _ _ _) = Some i"
| "message_account (GetUserById i) = Some i"
| "message_account (GetUserTokenVersion i) = Some i"
| "message_account (UpdateUser i _) = Some i"
| "message_account (DeleteUser i) = Some i"
| "message_account _ = None"

text \<open>At most one message, and none that names another account than \<open>acc\<close>.\<close>

definition sends :: "string option \<Rightarrow> 'w \<times> user_message list \<Rightarrow> 'w \<times> user_message list \<Rightarrow> bool" where
  "sends acc wl wl' \<longleftrightarrow>
     snd wl' = snd wl \<or> (\<exists>m. snd wl' = snd wl @ [m] \<and> message_account m \<in> {None, acc})"

lemma sends_refl [simp]: "sends acc wl wl"
  by (simp add: sends_def)

lemma sends_rpc: "message_account m \<in> {None, acc} \<Longrightarrow> sends acc wl (snd (logged_rpc rpc m wl))"
  by (auto simp: sends_def logged_rpc_def split: prod.splits)

lemma sends_own [simp]:
  "sends (Some i) wl (snd (logged_rpc rpc (GetUserById i) wl))"
  "sends (Some i) wl (snd (logged_rpc rpc (DeleteUser i) wl))"
  by (simp_all add: sends_rpc)

lemma sends_sent: "logged_rpc rpc m wl = (r, wl') \<Longrightarrow> message_account m \<in> {None, acc} \<Longrightarrow> sends acc wl wl'"
  using sends_rpc [of m acc wl rpc] by simp

lemma sends_ask: "message_account m \<in> {None, acc} \<Longrightarrow> sends acc wl (snd (ask (logged_rpc rpc) read m wl))"
  using sends_rpc [of m acc wl rpc] by (auto simp: ask_def split: prod.splits sum.splits)

lemma asked: "ask (logged_rpc rpc) read m wl = (q, wl') \<Longrightarrow> message_account m \<in> {None, acc} \<Longrightarrow> sends acc wl wl'"
  using sends_ask [of m acc wl rpc read] by simp

lemmas endpoint_defs =
  autoreg_endpoint_def gw_autoreg_def login_endpoint_def gw_login_def oauth_endpoint_def gw_oauth_login_def
  upgrade_endpoint_def gw_upgrade_def forgot_endpoint_def gw_forgot_password_def reset_endpoint_def
  gw_reset_password_def

lemma sends_public:
  "sends acc wl (snd (autoreg_endpoint gw (logged_rpc rpc) fp pl h ip wl))"
  "sends acc wl (snd (login_endpoint gw (logged_rpc rpc) email pw h wl))"
  "sends acc wl (snd (forgot_endpoint (logged_rpc rpc) dto wl))"
  "sends acc wl (snd (reset_endpoint (logged_rpc rpc) dto wl))"
  by (auto simp: endpoint_defs split: sum.splits prod.splits intro: asked sends_ask)

lemma sends_oauth:
  "oauth_endpoint gw (logged_rpc rpc) verify provider dto h ua wl n = (r, wl', n') \<Longrightarrow> sends acc wl wl'"
  by (auto simp: endpoint_defs Let_def oauth_message_def split: sum.splits prod.splits elim!: asked)

lemma sends_upgrade:
  "upgrade_endpoint gw (logged_rpc rpc) verify i dto h ua wl n = (r, wl', n') \<Longrightarrow> sends (Some i) wl wl'"
  by (auto simp: endpoint_defs split: sum.splits prod.splits if_splits elim!: asked)

lemma sends_refresh:
  "refresh_handler gw (logged_rpc rpc) blacklist u h wl r = (q, wl', r') \<Longrightarrow> sends (Some (us_userId u)) wl wl'"
  by (auto simp: refresh_handler_def gw_refresh_def Let_def split: sum.splits prod.splits if_splits unit.splits
      elim!: asked)

lemma update_message_account:
  assumes "update_message (update_me_payload i dto) = Some m" and "''userId'' \<notin> fst ` set dto"
  shows "message_account m = Some i"
proof -
  from assms(2) have "js_get (update_me_payload i dto) ''userId'' = JStr i"
    by (simp add: update_me_payload_def js_spread_other)
  with assms(1) show ?thesis
    by (auto simp: update_message_def str_of_def split: option.splits)
qed

text \<open>The account a handler acts for: the one of the user its guard admitted.\<close>

lemma sends_handler:
  assumes rpc: "ed_rpc ed = logged_rpc rpc" and own: "''userId'' \<notin> fst ` set dto"
    and run: "edge_handler ed rq dto st rt user = Some (r, st')"
  shows "sends (map_option us_userId user) (es_world st) (es_world st')"
proof (cases user)
  case None
  with run rpc show ?thesis
    by (cases rt) (auto simp: on_world_def sends_public split: prod.splits intro: sends_oauth)
next
  case (Some u)
  with run rpc own show ?thesis
    by (cases rt)
      (auto simp: on_world_def sends_public get_me_def delete_me_def update_me_def update_message_account
        split: prod.splits elim!: sends_sent intro: sends_oauth sends_upgrade sends_refresh)
qed

lemma edge_body_keys:
  assumes "edge_body ed rt rq = Inr dto"
  shows "''userId'' \<notin> fst ` set dto"
proof (cases "route_class rt")
  case None
  with assms show ?thesis by (simp add: edge_body_def)
next
  case (Some cls)
  with assms have "validation_pipe (ed_checkers ed) cls (rq_body rq) = Inr dto"
    by (auto simp: edge_body_def split: sum.splits)
  from validation_pipe_Inr(2) [OF this] have "fst ` set dto \<subseteq> f_name ` set cls" .
  moreover from Some have "''userId'' \<notin> f_name ` set cls"
    by (cases rt) (auto simp: autoreg_class_def upgrade_account_class_def login_class_def logout_class_def
        forgot_password_class_def reset_password_class_def oauth_class_def update_user_class_def field_of_def)
  ultimately show ?thesis by blast
qed

text \<open>
  C23: no request reaches another account. Serving a request sends the user service at most one
  message, and when the message names an account, it is the subject of the token the request carries,
  read with the secret of the route's guard, whatever the path, the headers and the body hold; on a
  protected route, no message at all is sent without such a subject.
\<close>

theorem requests_name_own_account_only:
  assumes pp: "passport_ok (ed_passport ed)" and rpc: "ed_rpc ed = logged_rpc rpc"
    and run: "edge_request ed rt rq st = Some (resp, st')"
  shows "\<exists>ms. snd (es_world st') = snd (es_world st) @ ms \<and> length ms \<le> 1
    \<and> (\<forall>m \<in> set ms. \<forall>i. message_account m = Some i \<longrightarrow> bearer_subject ed rt rq = Some i)
    \<and> (is_public rt \<or> ms = [] \<or> bearer_subject ed rt rq \<noteq> None)"
proof -
  obtain g st1 where g: "edge_guards ed rt rq st = (g, st1)" by fastforce
  from edge_guards_state [OF g] have w1: "es_world st1 = es_world st" by auto
  show ?thesis
  proof (cases "\<exists>user dto. g = Inr user \<and> edge_body ed rt rq = Inr dto")
    case False
    with run g have "st' = st1"
      by (auto simp: edge_request_def Let_def split: sum.splits)
    with w1 show ?thesis by (intro exI [of _ "[]"]) simp
  next
    case True
    then obtain user dto where user: "g = Inr user" and dto: "edge_body ed rt rq = Inr dto" by blast
    with run g obtain r where "edge_handler ed rq dto st1 rt user = Some (r, st')"
      by (auto simp: edge_request_def Let_def)
    from sends_handler [OF rpc edge_body_keys [OF dto] this] w1
    have s: "sends (map_option us_userId user) (es_world st) (es_world st')" by simp
    have u: "user = None \<and> is_public rt \<or> (\<exists>u. user = Some u \<and> bearer_subject ed rt rq = Some (us_userId u))"
      using edge_guards_user [OF pp] g user by simp
    from s show ?thesis
      unfolding sends_def
    proof
      assume "snd (es_world st') = snd (es_world st)"
      then show ?thesis by (intro exI [of _ "[]"]) simp
    next
      assume "\<exists>m. snd (es_world st') = snd (es_world st) @ [m] \<and> message_account m \<in> {None, map_option us_userId user}"
      then obtain m where "snd (es_world st') = snd (es_world st) @ [m]"
        and "message_account m \<in> {None, map_option us_userId user}" by blast
      with u show ?thesis by (intro exI [of _ "[m]"]) auto
    qed
  qed
qed

text \<open>Every request is answered, a profile update outside the declared types apart.\<close>

lemma edge_request_answers:
  assumes "rt \<noteq> RUpdateMe"
  obtains resp st' where "edge_request ed rt rq st = Some (resp, st')"
proof -
  have "\<exists>p. edge_handler ed rq dto s rt user = Some p" for dto s user
    using assms by (cases rt; cases user) (auto split: prod.splits)
  then have "edge_request ed rt rq st \<noteq> None"
    by (force simp: edge_request_def Let_def split: prod.splits sum.splits)
  with that show ?thesis by fastforce
qed

theorem requests_name_own_account_only_witness:
  "\<exists>resp st'. edge_request (demo_edge (logged_rpc (user_rpc demo_backend))) RRefresh
       (demo_request ''/v1/auth/refresh'' (Some ''tok'') []) (demo_edge_state (demo_world, [])) = Some (resp, st')
     \<and> length (snd (es_world st')) \<le> 1
     \<and> (\<forall>m \<in> set (snd (es_world st')). message_account m \<in> {None, Some ''u''})"
proof -
  let ?ed = "demo_edge (logged_rpc (user_rpc demo_backend))"
    and ?rq = "demo_request ''/v1/auth/refresh'' (Some ''tok'') []"
  obtain resp st' where run: "edge_request ?ed RRefresh ?rq (demo_edge_state (demo_world, [])) = Some (resp, st')"
    using edge_request_answers [of RRefresh ?ed ?rq "demo_edge_state (demo_world, [])"] by auto
  have pp: "passport_ok (ed_passport ?ed)" and rpc: "ed_rpc ?ed = logged_rpc (user_rpc demo_backend)"
    by (simp_all add: demo_passport_ok)
  have u: "bearer_subject ?ed RRefresh ?rq = Some ''u''"
    by (simp add: bearer_subject_def demo_claims_def)
  from requests_name_own_account_only [OF pp rpc run] obtain ms where
    ms: "snd (es_world st') = snd (es_world (demo_edge_state (demo_world, []))) @ ms" "length ms \<le> 1"
    and own: "\<forall>m \<in> set ms. \<forall>i. message_account m = Some i \<longrightarrow> bearer_subject ?ed RRefresh ?rq = Some i" by blast
  from ms(1) have "snd (es_world st') = ms" by (simp add: demo_edge_state_def)
  moreover from own u have "\<forall>m \<in> set ms. message_account m \<in> {None, Some ''u''}"
    by (metis insertCI not_None_eq)
  ultimately show ?thesis using run ms(2) by blast
qed

subsection \<open>Refusals\<close>

text \<open>
  C24: a request that is refused reaches nothing. When a guard or the validation of the body turns a
  request down, the answer is an error, and accounts, mail, the revocation list and the providers are as
  before: at most the rate limits have counted it. Past the guards, the error names the request by the
  client's trace id, or by a new one.
\<close>

theorem refused_requests_change_nothing:
  assumes run: "edge_request ed rt rq st = Some (resp, st')"
    and refused: "(\<exists>e. fst (edge_guards ed rt rq st) = Inl e) \<or> (\<exists>e. edge_body ed rt rq = Inl e)"
  shows "\<exists>rep t. resp = Failure rep \<and> st' = st\<lparr>es_limits := t\<rparr>
    \<and> ((\<exists>user. fst (edge_guards ed rt rq st) = Inr user) \<longrightarrow>
         rep_status rep = JNum 400
         \<and> map_of (rep_body rep) ''code'' = Some (JStr VALIDATION_ERROR)
         \<and> map_of (rep_body rep) ''requestId'' = Some (JStr (request_trace_id (rq_traceId rq) (ed_traceId ed))))"
proof -
  obtain g st1 where g: "edge_guards ed rt rq st = (g, st1)" by fastforce
  from edge_guards_state [OF g] obtain t where st1: "st1 = st\<lparr>es_limits := t\<rparr>" ..
  show ?thesis
  proof (cases g)
    case (Inl e)
    with run g st1 show ?thesis by (auto simp: edge_request_def)
  next
    case (Inr user)
    with refused g obtain e where e: "edge_body ed rt rq = Inl e" by auto
    then obtain v where "e = bad_request_exn v"
      by (auto simp: edge_body_def split: option.splits sum.splits)
    with run g Inr e st1 show ?thesis
      by (auto simp: edge_request_def Let_def all_exceptions_filter_def classify_exception_def bad_request_exn_def
          extract_rpc_payload_def is_rpc_error_payload_def status_to_code_def)
  qed
qed

theorem refused_requests_change_nothing_witness:
  "\<exists>rep t. edge_request (demo_edge (user_rpc demo_backend)) RForgot
       (demo_request ''/v1/auth/forgot'' None [(''mail'', JStr ''a@b'')]) (demo_edge_state demo_world)
     = Some (Failure rep, (demo_edge_state demo_world)\<lparr>es_limits := t\<rparr>) \<and> rep_status rep = JNum 400"
proof -
  let ?ed = "demo_edge (user_rpc demo_backend)" and ?rq = "demo_request ''/v1/auth/forgot'' None [(''mail'', JStr ''a@b'')]"
  obtain resp st' where run: "edge_request ?ed RForgot ?rq (demo_edge_state demo_world) = Some (resp, st')"
    using edge_request_answers [of RForgot ?ed ?rq "demo_edge_state demo_world"] by auto
  have body: "\<exists>e. edge_body ?ed RForgot ?rq = Inl e"
    by (simp add: edge_body_def validation_pipe_def forgot_password_class_def field_of_def)
  have "prefix ''/v1/auth/'' ''/v1/auth/forgot''" "\<not> suffix ''/auth/autoreg'' ''/v1/auth/forgot''"
    by (simp_all add: suffix_def)
  then have "\<exists>user. fst (edge_guards ?ed RForgot ?rq (demo_edge_state demo_world)) = Inr user"
    by (simp add: edge_guards_def access_guard_public throttler_guard_def applied_limits_def throttlers_def
        auth_throttle_def demo_edge_state_def)
  with refused_requests_change_nothing [OF run] body run show ?thesis by blast
qed

text \<open>
  Who is turned away by a rate limit is told of a server fault. The throttler's exception has no
  code of its own and a string for its response, on which the filter keeps the default: status 429, code
  \<open>internal_error\<close>, not the \<open>rate_limited\<close> of \<open>ERROR_CODES\<close>.
\<close>

theorem rate_limit_reported_as_internal_error:
  assumes "access_guard ed rt rq = Inr user" and "throttler_guard ed rt rq user (es_limits st) = (Inl e, t)"
  shows "\<exists>rep. edge_request ed rt rq st = Some (Failure rep, st\<lparr>es_limits := t\<rparr>) \<and> rep_status rep = JNum 429
    \<and> map_of (rep_body rep) ''code'' = Some (JStr INTERNAL_ERROR)"
proof -
  have "throttle blocked tracker limits x = (Inl e, y) \<Longrightarrow> e = throttler_exn" for blocked tracker limits x y
    by (induction limits arbitrary: x) (auto split: prod.splits bool.splits)
  with assms(2) have "e = throttler_exn" by (simp add: throttler_guard_def)
  with assms show ?thesis
    by (simp add: edge_request_def edge_guards_def all_exceptions_filter_def classify_exception_def
        throttler_exn_def extract_rpc_payload_def is_rpc_error_payload_def)
qed

text \<open>
  The limit of the auth endpoints, at the paths the controllers declare: on every route of
  \<open>auth.controller.ts\<close> and on no other. \<open>skipIf\<close> alone decides: for a path that does not begin with
  \<open>/v1/auth/\<close> the limit is off even when the route's own \<open>Throttle\<close> names it.
\<close>

theorem auth_limit_on_auth_routes:
  "(''auth'' \<in> set (map fst (applied_limits False (route_throttle rt) (Some (route_path rt))))
      \<longleftrightarrow> rt \<notin> {RGetMe, RUpdateMe, RDeleteMe})
   \<and> (''auth'' \<in> set (map fst (applied_limits False overrides (Some path))) \<longleftrightarrow> prefix ''/v1/auth/'' path)"
  by (cases rt) (auto simp: applied_limits_def throttlers_def)

end
