(* ===== verification/Outbox_Properties.thy ===== *)
theory Outbox_Properties
  imports Outbox_Lifecycle Users_Properties
begin

section \<open>What the outbox promises\<close>

text \<open>
  The sweep keeps the collection well formed and leaves settled rows alone; a reachable store is
  drained; what is handed to the bus is a part of the oldest pending rows; the timer never runs two
  sweeps at once; and an event staged by \<open>deleteUser\<close> is what a subscriber parses. The last section
  is about the gap between \<open>sent\<close> and published.
\<close>

subsection \<open>An outbox that can be reached\<close>

text \<open>
  Beyond \<open>driver_ok\<close>: the batch query and the counts answer, and writing back outbox rows with their
  own keys succeeds.
\<close>

definition rewrites_rows :: "change list \<Rightarrow> db \<Rightarrow> bool" where
  "rewrites_rows cs s \<longleftrightarrow>
     (\<forall>c \<in> set cs. \<exists>e. \<exists>e0 \<in> set (outbox s).
        c = PutOutbox e \<and> o_id e = o_id e0 \<and> o_idempotencyKey e = o_idempotencyKey e0)"

definition outbox_up :: "driver \<Rightarrow> bool" where
  "outbox_up drv \<longleftrightarrow>
     driver_ok drv
     \<and> (\<forall>s cs n. \<exists>es. find_outbox_batch drv s cs n = Inr es) \<and> (\<forall>s cs. \<exists>n. count_outbox drv s cs = Inr n)
     \<and> (\<forall>cs s. rewrites_rows cs s \<longrightarrow> db_unique s \<longrightarrow> fst (flush drv cs s) = Inr ())"

lemma rewrite_row:
  assumes "db_unique s" and "e0 \<in> set (outbox s)" and "o_id e = o_id e0" and "o_idempotencyKey e = o_idempotencyKey e0"
  shows "mem_conflict (PutOutbox e) s = None"
  using assms unfolding db_unique_def
  by (auto simp: list_ex_iff dest: unique_indexD [of "\<lambda>e. Some (o_idempotencyKey e)"] split: if_splits)

lemma rewrites_rows_step:
  assumes un: "db_unique s" and "rewrites_rows (PutOutbox e # cs) s"
  shows "rewrites_rows cs (apply_change (PutOutbox e) s)"
  unfolding rewrites_rows_def
proof
  fix c
  assume "c \<in> set cs"
  with assms obtain x x0 where x: "c = PutOutbox x" "x0 \<in> set (outbox s)" "o_id x = o_id x0"
    "o_idempotencyKey x = o_idempotencyKey x0" unfolding rewrites_rows_def by fastforce
  from assms obtain e0 where e0: "e0 \<in> set (outbox s)" "o_id e = o_id e0" "o_idempotencyKey e = o_idempotencyKey e0"
    unfolding rewrites_rows_def by fastforce
  show "\<exists>y. \<exists>y0 \<in> set (outbox (apply_change (PutOutbox e) s)). c = PutOutbox y \<and> o_id y = o_id y0
      \<and> o_idempotencyKey y = o_idempotencyKey y0"
  proof (cases "o_id x0 = o_id e")
    case True
    with un x(2) e0 have "x0 = e0" by (auto simp: db_unique_def dest: inj_onD)
    with x e0 show ?thesis by (intro exI [of _ x] bexI [of _ e]) auto
  next
    case False
    with x show ?thesis by (intro exI [of _ x] bexI [of _ x0]) auto
  qed
qed

lemma rewrites_rows_flush:
  "rewrites_rows cs s \<Longrightarrow> db_unique s \<Longrightarrow> fst (mem_flush cs s) = Inr ()"
proof (induction cs arbitrary: s)
  case (Cons c cs)
  then obtain e e0 where c: "c = PutOutbox e" and e: "e0 \<in> set (outbox s)" "o_id e = o_id e0"
    "o_idempotencyKey e = o_idempotencyKey e0" unfolding rewrites_rows_def by fastforce
  from rewrite_row [OF Cons.prems(2) e] have free: "mem_conflict c s = None" by (simp add: c)
  have "rewrites_rows cs (apply_change c s)"
    using rewrites_rows_step [OF Cons.prems(2)] Cons.prems(1) by (simp add: c)
  with Cons.IH free apply_change_unique [OF Cons.prems(2) free] show ?case by simp
qed simp

lemma mem_outbox_up: "outbox_up mem_driver"
  by (simp add: outbox_up_def mem_driver_ok rewrites_rows_flush)

lemma attempted_rewrites:
  assumes "list_all2 attempted es rows'" and "set es \<subseteq> set (outbox s)"
  shows "rewrites_rows (map PutOutbox (map (touch_outbox now) rows')) s"
  unfolding rewrites_rows_def
proof
  fix c
  assume "c \<in> set (map PutOutbox (map (touch_outbox now) rows'))"
  then obtain e' where e': "e' \<in> set rows'" "c = PutOutbox (touch_outbox now e')" by auto
  from attempted_rows(2) [OF assms(1) e'(1)] obtain e where "e \<in> set es" "attempted e e'" ..
  with assms(2) e' show "\<exists>y. \<exists>y0 \<in> set (outbox s). c = PutOutbox y \<and> o_id y = o_id y0
      \<and> o_idempotencyKey y = o_idempotencyKey y0"
    by (intro exI [of _ "touch_outbox now e'"] bexI [of _ e]) (auto simp: attempted_def)
qed

lemma sweep_answers:
  assumes up: "outbox_up drv" and un: "db_unique s"
  obtains cnt s' bus' dp' where "sweep drv publish now s bus dp = (Inr cnt, s', bus', dp')"
proof (cases "dp_running dp")
  case True
  with that show ?thesis by (simp add: sweep_def)
next
  case running: False
  from up have ok: "driver_ok drv"
    and counts: "\<And>s cs. \<exists>n. count_outbox drv s cs = Inr n" by (simp_all add: outbox_up_def)
  from up obtain es where
    es: "find_outbox_batch drv s [StatusIs Pending, AttemptsBelow MAX_ATTEMPTS] MAX_BATCH = Inr es"
    unfolding outbox_up_def by blast
  let ?v = "sweep_rows publish now es
      \<lparr>sw_rows = [], sw_bus = bus, sw_dispatched = 0, sw_failed = 0, sw_terminal = []\<rparr>"
  have att: "list_all2 attempted es (sw_rows ?v)"
    using sweep_rows_attempts [of publish now es "\<lparr>sw_rows = [], sw_bus = bus,
      sw_dispatched = 0, sw_failed = 0, sw_terminal = []\<rparr>"] by auto
  have "set es \<subseteq> set (outbox s)"
    using oldest_firstD(4) [OF find_outbox_batch_Inr [OF ok es]] by blast
  from attempted_rewrites [OF att this, of now] up un
  have "fst (flush drv (sweep_changes now es (sw_rows ?v)) s) = Inr ()"
    by (simp add: outbox_up_def sweep_changes_puts [OF att])
  then obtain s' where "flush drv (sweep_changes now es (sw_rows ?v)) s = (Inr (), s')"
    by (metis prod.collapse)
  moreover obtain p f where "count_outbox drv s' [StatusIs Pending] = Inr p"
    and "count_outbox drv s' [StatusIs Failed] = Inr f" using counts by meson
  ultimately show ?thesis
    using that es running by (cases es) (auto simp: sweep_def Let_def)
qed

lemma sweeps_answer:
  "outbox_up drv \<Longrightarrow> db_unique s \<Longrightarrow> \<exists>s'. sweeps drv publish ts s bus dp = Some s'"
proof (induction ts arbitrary: s bus dp)
  case (Cons now ts)
  from Cons.prems obtain cnt s1 bus1 dp1 where
    sw: "sweep drv publish now s bus dp = (Inr cnt, s1, bus1, dp1)" by (rule sweep_answers)
  from Cons.prems(1) have "driver_ok drv" by (simp add: outbox_up_def)
  from Cons.IH [OF Cons.prems(1) sweep_unique [OF this sw Cons.prems(2)]] sw show ?case by simp
qed simp

subsection \<open>A store for the witnesses\<close>

definition demo_row :: outbox_event where
  "demo_row = staged_row ''r1'' 3 (user_deleted_stage ''u1'')"

definition outbox_db :: db where
  "outbox_db = empty_db\<lparr>outbox := [demo_row, (staged_row ''r2'' 2 (user_deleted_stage ''u2''))\<lparr>o_status := Sent\<rparr>]\<rparr>"

lemma outbox_db_ok: "db_unique outbox_db" "outbox_wf outbox_db"
  by (auto simp: outbox_db_def empty_db_def demo_row_def db_unique_def unique_index_def outbox_wf_def
      row_wf_def user_deleted_stage_def MAX_ATTEMPTS_def)

lemma outbox_db_pending: "pending_rows outbox_db = {demo_row}"
  by (auto simp: pending_rows_def outbox_db_def empty_db_def demo_row_def)

subsection \<open>Sweeping\<close>

text \<open>
  Whatever the publisher does and however the sweep ends, it leaves the outbox well formed with
  unique keys (a pending row always has attempts left, a failed one none), touches no row that is
  already settled, and leaves users and devices alone.
\<close>

theorem sweep_keeps_outbox_sane:
  assumes ok: "driver_ok drv" and sw: "sweep drv publish now s bus dp = (r, s', bus', dp')"
    and un: "db_unique s" and wf: "outbox_wf s"
  shows "db_unique s' \<and> outbox_wf s' \<and> users s' = users s \<and> devices s' = devices s
    \<and> (\<forall>e \<in> set (outbox s). o_status e \<noteq> Pending \<longrightarrow> e \<in> set (outbox s'))"
proof -
  have "users s' = users s \<and> devices s' = devices s"
    using ok sw
  proof (cases rule: sweep_flushed)
    case (flushed es rows' q)
    show ?thesis
      by (rule flush_preserves [OF ok flushed(3), of "\<lambda>t. users t = users s \<and> devices t = devices s"]) auto
  qed simp
  then show ?thesis
    using sweep_unique [OF ok sw un] sweep_preserves_wf [OF ok sw wf]
      sweep_leaves_settled_rows [OF ok sw un] by blast
qed

lemma new_dispatcher_idle: "\<not> dp_running new_dispatcher"
  by (simp add: new_dispatcher_def)

lemma outbox_db_card: "card (pending_rows outbox_db) \<le> MAX_BATCH"
  by (simp add: outbox_db_pending MAX_BATCH_def)

theorem sweep_keeps_outbox_sane_witness:
  "\<exists>r s' bus' dp'. sweep mem_driver (\<lambda>p v b. (Some (plain_error ''down''), b)) 7 outbox_db () new_dispatcher
       = (r, s', bus', dp') \<and> outbox_wf s' \<and> (\<forall>e \<in> set (outbox outbox_db). o_status e \<noteq> Pending \<longrightarrow> e \<in> set (outbox s'))"
proof -
  obtain r s' bus' dp' where sw: "sweep mem_driver (\<lambda>p v b. (Some (plain_error ''down''), b)) 7 outbox_db ()
      new_dispatcher = (r, s', bus', dp')" by (metis prod.exhaust)
  from sweep_keeps_outbox_sane [OF mem_driver_ok this outbox_db_ok] sw show ?thesis by blast
qed

text \<open>
  With a backlog of more than one batch: the attempts left to the pending rows are a potential, of which
  every sweep uses up one per row of its batch.
\<close>

definition attempts_left :: "db \<Rightarrow> nat" where
  "attempts_left s = (\<Sum>e \<in> pending_rows s. MAX_ATTEMPTS - o_attempts e)"

lemma attempts_left_bound: "attempts_left s \<le> MAX_ATTEMPTS * card (pending_rows s)"
  using sum_bounded_above [of "pending_rows s" "\<lambda>e. MAX_ATTEMPTS - o_attempts e" MAX_ATTEMPTS]
  by (simp add: attempts_left_def mult.commute)

lemma sweep_uses_attempts:
  assumes ok: "driver_ok drv" and sw: "sweep drv publish now s bus dp = (Inr cnt, s', bus', dp')"
    and un: "db_unique s" and wf: "outbox_wf s" and idle: "\<not> dp_running dp"
    and many: "MAX_BATCH \<le> card (pending_rows s)"
  shows "attempts_left s' + MAX_BATCH \<le> attempts_left s" and "\<not> dp_running dp'"
proof -
  from ok sw un wf idle obtain es rows' where
    batch: "oldest_first o_createdAt (\<lambda>e. o_status e = Pending) MAX_BATCH (outbox s) es" and
    att: "list_all2 attempted es rows'" and
    new: "set (outbox s') = touch_outbox now ` set rows' \<union>
       {x \<in> set (outbox s). o_id x \<notin> o_id ` set es}" and
    dp': "\<not> dp_running dp'"
    by (rule sweep_effect)
  show "\<not> dp_running dp'" by (rule dp')
  have sub: "set es \<subseteq> pending_rows s"
    using oldest_firstD(4,5) [OF batch] by (auto simp: pending_rows_def)
  have full: "card (set es) = MAX_BATCH"
  proof (rule ccontr)
    assume "card (set es) \<noteq> MAX_BATCH"
    with oldest_firstD(1,2) [OF batch] have short: "length es < MAX_BATCH" by (simp add: distinct_card)
    then have "set es = pending_rows s"
      using batch by (simp add: oldest_first_def pending_rows_def)
    with short many oldest_firstD(1) [OF batch] show False by (simp add: distinct_card [symmetric])
  qed
  let ?f = "\<lambda>e. MAX_ATTEMPTS - o_attempts e"
  let ?h = "\<lambda>e. ?f e - (if e \<in> set es then 1 else 0)"
  have "\<exists>e0 \<in> pending_rows s. o_id e0 = o_id e \<and> ?f e \<le> ?h e0" if e: "e \<in> pending_rows s'" for e
  proof (cases "e \<in> touch_outbox now ` set rows'")
    case True
    then obtain e' where "e' \<in> set rows'" "e = touch_outbox now e'" by blast
    with attempted_rows(2) [OF att] sub show ?thesis by (fastforce simp: attempted_def)
  next
    case False
    with e new have "e \<in> pending_rows s" "e \<notin> set es" by (auto simp: pending_rows_def)
    then show ?thesis by auto
  qed
  then obtain g where g: "\<And>e. e \<in> pending_rows s' \<Longrightarrow> g e \<in> pending_rows s \<and> o_id (g e) = o_id e \<and> ?f e \<le> ?h (g e)"
    by metis
  have "inj_on o_id (pending_rows s')"
    using sweep_unique [OF ok sw un] by (auto simp: db_unique_def pending_rows_def intro: inj_on_subset)
  then have inj: "inj_on g (pending_rows s')" using g by (metis (no_types, lifting) inj_on_def)
  have "attempts_left s' \<le> (\<Sum>e \<in> pending_rows s'. ?h (g e))"
    unfolding attempts_left_def using g by (intro sum_mono) blast
  also have "\<dots> = sum ?h (g ` pending_rows s')"
    using sum.reindex [OF inj, of ?h] by (simp add: comp_def)
  also have "\<dots> \<le> sum ?h (pending_rows s)"
    using g by (intro sum_mono2) auto
  finally have less: "attempts_left s' \<le> sum ?h (pending_rows s)" .
  have pos: "1 \<le> ?f e" if "e \<in> pending_rows s" for e
    using wf that by (auto simp: outbox_wf_def row_wf_def pending_rows_def)
  have "sum ?h (pending_rows s) + (\<Sum>e \<in> pending_rows s. if e \<in> set es then 1 else 0)
      = (\<Sum>e \<in> pending_rows s. ?h e + (if e \<in> set es then 1 else 0))"
    by (simp only: sum.distrib)
  also have "\<dots> = attempts_left s"
    unfolding attempts_left_def
  proof (intro sum.cong refl)
    fix x
    assume "x \<in> pending_rows s"
    from pos [OF this] show "?h x + (if x \<in> set es then 1 else 0) = ?f x"
      by (cases "x \<in> set es") (simp_all only: if_True if_False le_add_diff_inverse2 diff_zero add_0_right)
  qed
  finally have "sum ?h (pending_rows s) + card (pending_rows s \<inter> set es) = attempts_left s"
    by (simp add: sum.If_cases Int_def)
  with less full sub show "attempts_left s' + MAX_BATCH \<le> attempts_left s"
    by (simp add: Int_absorb1)
qed

definition sweeps_needed :: "nat \<Rightarrow> nat" where
  "sweeps_needed n =
     (if n \<le> MAX_BATCH then MAX_ATTEMPTS else MAX_ATTEMPTS * n div MAX_BATCH + MAX_ATTEMPTS)"

lemma sweeps_drain_batch:
  assumes "driver_ok drv" and "db_unique s" and "outbox_wf s" and "\<not> dp_running dp"
    and "card (pending_rows s) \<le> MAX_BATCH" and "sweeps drv publish ts s bus dp = Some s'"
    and "MAX_ATTEMPTS \<le> length ts"
  shows "pending_rows s' = {} \<and> outbox_wf s'"
proof -
  have "drained_to 0 s" using assms(5) by (simp add: drained_to_def)
  from sweeps_drain [OF assms(1-4) this assms(6)]
  have "outbox_wf s'" and "drained_to (length ts) s'" by simp_all
  with assms(7) show ?thesis
    unfolding outbox_wf_def row_wf_def drained_to_def pending_rows_def by fastforce
qed

lemma sweeps_drain_backlog:
  assumes "driver_ok drv"
  shows "db_unique s \<Longrightarrow> outbox_wf s \<Longrightarrow> \<not> dp_running dp \<Longrightarrow> sweeps drv publish ts s bus dp = Some s' \<Longrightarrow>
    attempts_left s div MAX_BATCH + MAX_ATTEMPTS \<le> length ts \<Longrightarrow> pending_rows s' = {} \<and> outbox_wf s'"
proof (induction ts arbitrary: s bus dp)
  case Nil
  then show ?case by (simp add: MAX_ATTEMPTS_def)
next
  case (Cons now ts)
  show ?case
  proof (cases "card (pending_rows s) \<le> MAX_BATCH")
    case True
    with sweeps_drain_batch [OF assms Cons.prems(1-3) True Cons.prems(4)] Cons.prems(5) show ?thesis by simp
  next
    case False
    from Cons.prems(4) obtain cnt s1 bus1 dp1
      where sw: "sweep drv publish now s bus dp = (Inr cnt, s1, bus1, dp1)"
        and rest: "sweeps drv publish ts s1 bus1 dp1 = Some s'"
      by (auto split: prod.splits sum.splits)
    from False have "MAX_BATCH \<le> card (pending_rows s)" by simp
    note step = sweep_uses_attempts [OF assms sw Cons.prems(1-3) this]
    have "attempts_left s1 div MAX_BATCH + 1 = (attempts_left s1 + MAX_BATCH) div MAX_BATCH"
      by (simp add: MAX_BATCH_def)
    also have "\<dots> \<le> attempts_left s div MAX_BATCH" by (rule div_le_mono [OF step(1)])
    finally have "attempts_left s1 div MAX_BATCH + MAX_ATTEMPTS \<le> length ts" using Cons.prems(5) by simp
    from Cons.IH [OF sweep_unique [OF assms sw Cons.prems(1)] sweep_preserves_wf [OF assms sw Cons.prems(2)]
        step(2) rest this]
    show ?thesis .
  qed
qed

text \<open>
  C26: the outbox is drained. On a store that answers, with no other sweep running and no staging in
  between, enough sweeps in a row all return and leave no row pending, whatever the publisher does: each
  row is by then sent or, after its tenth failure, failed. For a backlog of \<open>n\<close> pending rows,
  \<open>sweeps_needed n\<close> are enough: \<open>MAX_ATTEMPTS\<close> when they fit into one batch, and
  \<open>MAX_ATTEMPTS * n div MAX_BATCH + MAX_ATTEMPTS\<close> otherwise.
\<close>

theorem outbox_drains:
  assumes up: "outbox_up drv" and un: "db_unique s" and wf: "outbox_wf s" and idle: "\<not> dp_running dp"
    and times: "sweeps_needed (card (pending_rows s)) \<le> length ts"
  shows "\<exists>s'. sweeps drv publish ts s bus dp = Some s' \<and> pending_rows s' = {} \<and> outbox_wf s'"
proof -
  from up have ok: "driver_ok drv" by (simp add: outbox_up_def)
  obtain s' where s': "sweeps drv publish ts s bus dp = Some s'"
    using sweeps_answer [OF up un, where publish = publish and ts = ts and bus = bus and dp = dp] by blast
  have "pending_rows s' = {} \<and> outbox_wf s'"
  proof (cases "card (pending_rows s) \<le> MAX_BATCH")
    case True
    with times sweeps_drain_batch [OF ok un wf idle True s'] show ?thesis by (simp add: sweeps_needed_def)
  next
    case False
    have "attempts_left s div MAX_BATCH \<le> MAX_ATTEMPTS * card (pending_rows s) div MAX_BATCH"
      by (rule div_le_mono [OF attempts_left_bound])
    with times False have "attempts_left s div MAX_BATCH + MAX_ATTEMPTS \<le> length ts"
      by (simp add: sweeps_needed_def)
    then show ?thesis by (rule sweeps_drain_backlog [OF ok un wf idle s'])
  qed
  with s' show ?thesis by blast
qed

theorem outbox_drains_witness:
  "\<exists>s'. sweeps mem_driver (\<lambda>p v b. (Some (plain_error ''down''), b)) [1, 2, 3, 4, 5, 6, 7, 8, 9, 10]
      outbox_db () new_dispatcher = Some s' \<and> pending_rows s' = {}"
proof -
  have "sweeps_needed (card (pending_rows outbox_db)) \<le> length [1, 2, 3, 4, 5, 6, 7, 8, 9, 10 :: int]"
    using outbox_db_card by (simp add: sweeps_needed_def MAX_ATTEMPTS_def)
  from outbox_drains [OF mem_outbox_up outbox_db_ok new_dispatcher_idle this,
      where publish = "\<lambda>p v b. (Some (plain_error ''down''), b)" and bus = "()"]
  show ?thesis by blast
qed

text \<open>
  A sweep hands the bus at most one message per row, in the order of the rows, and only for the
  oldest pending rows with attempts left, \<open>MAX_BATCH\<close> of them at most. A sweep that finds another
  one running hands over nothing and changes nothing.
\<close>

theorem sweep_hands_oldest_pending:
  assumes ok: "driver_ok drv"
    and sw: "sweep drv (rpc_publisher env chan tr) now s bus dp = (r, s', bus', dp')"
  shows "(\<exists>es ks. oldest_first o_createdAt
             (sat outbox_matches [StatusIs Pending, AttemptsBelow MAX_ATTEMPTS]) MAX_BATCH (outbox s) es
           \<and> subseq ks (map o_pattern es) \<and> handed_keys bus' = handed_keys bus @ ks
         \<or> handed_keys bus' = handed_keys bus)
    \<and> (dp_running dp \<longrightarrow> s' = s \<and> bus' = bus \<and> dp' = dp)"
  using rpc_pub.sweep_hands [OF ok sw] sw by (auto simp: sweep_def)

theorem sweep_hands_oldest_pending_witness:
  "\<exists>r s' bus' dp'. sweep mem_driver (rpc_publisher (\<lambda>_. None) (\<lambda>_. None) ''t'') 7 outbox_db
      (Some \<lparr>bus_channel = True, bus_handed = []\<rparr>) new_dispatcher = (r, s', bus', dp')
     \<and> set (handed_keys bus') \<subseteq> {''user.deleted''}"
proof -
  obtain r s' bus' dp' where sw: "sweep mem_driver (rpc_publisher (\<lambda>_. None) (\<lambda>_. None) ''t'') 7 outbox_db
      (Some \<lparr>bus_channel = True, bus_handed = []\<rparr>) new_dispatcher = (r, s', bus', dp')"
    by (metis prod.exhaust)
  have "o_pattern e = ''user.deleted''" if "e \<in> set (outbox outbox_db)" for e
    using that by (auto simp: outbox_db_def empty_db_def demo_row_def user_deleted_stage_def)
  then have pat: "o_pattern ` set es \<subseteq> {''user.deleted''}"
    if "oldest_first o_createdAt P n (outbox outbox_db) es" for P n es
    using oldest_firstD(4) [OF that] by blast
  from sweep_hands_oldest_pending [OF mem_driver_ok sw]
  have "set (handed_keys bus') \<subseteq> {''user.deleted''}"
    using pat by (auto simp: handed_keys_def [of "Some _"] dest!: subseq_set_subset) blast
  with sw show ?thesis by blast
qed

subsection \<open>The timer\<close>

text \<open>
  C27: in every reachable state of the dispatcher at most one sweep is past its guard, exactly when
  \<open>running\<close> is set; and from a successful start until the shutdown the next timer sweep is always
  either scheduled or in flight, never both, so the polling neither doubles nor stops.
\<close>

theorem one_sweep_at_a_time:
  assumes "reachable lifecycle_init lifecycle_step l"
  shows "length (lc_bodies l) \<le> 1 \<and> (dp_running (lc_dp l) \<longleftrightarrow> lc_bodies l \<noteq> [])
    \<and> \<not> (dp_timer (lc_dp l) \<and> ByTimer \<in> set (lc_bodies l))
    \<and> (lc_started l \<and> \<not> dp_shuttingDown (lc_dp l) \<longrightarrow>
         dp_timer (lc_dp l) \<or> ByTimer \<in> set (lc_bodies l))"
  using lc.inv_reachable [OF assms] by (auto simp: lifecycle_inv_def)

definition demo_lifecycle :: lifecycle where
  "demo_lifecycle = \<lparr>lc_dp = new_dispatcher\<lparr>dp_timer := True\<rparr>, lc_started = True, lc_bodies = []\<rparr>"

lemma demo_lifecycle_init:
  "lifecycle_step \<lparr>lc_dp = new_dispatcher, lc_started = False, lc_bodies = []\<rparr>
     (ModuleInit mem_driver outbox_db) demo_lifecycle"
proof -
  let ?l = "\<lparr>lc_dp = new_dispatcher, lc_started = False, lc_bodies = []\<rparr>"
  have "on_module_init mem_driver outbox_db (lc_dp ?l) = (Inr (), new_dispatcher\<lparr>dp_timer := True\<rparr>)"
    by (simp add: on_module_init_def schedule_def new_dispatcher_def outbox_db_def empty_db_def demo_row_def)
  from lifecycle_step.init [OF _ this] show ?thesis by (simp add: demo_lifecycle_def)
qed

theorem one_sweep_at_a_time_witness:
  "reachable lifecycle_init lifecycle_step demo_lifecycle \<and> length (lc_bodies demo_lifecycle) \<le> 1"
proof -
  have "reachable lifecycle_init lifecycle_step \<lparr>lc_dp = new_dispatcher, lc_started = False, lc_bodies = []\<rparr>"
    by (rule reachable.start) (simp add: lifecycle_init_def)
  from reachable.next_state [OF this demo_lifecycle_init]
  have r: "reachable lifecycle_init lifecycle_step demo_lifecycle" .
  from one_sweep_at_a_time [OF r] r show ?thesis by blast
qed

text \<open>
  C28: after \<open>onModuleDestroy\<close> the timer never fires again, even when a sweep was in flight and its
  \<open>finally\<close> still asks for the next one.
\<close>

theorem no_timer_sweep_after_shutdown:
  assumes "lifecycle_step l ModuleDestroy l1" and "steps_along lifecycle_step l1 es l2"
  shows "TimerFires \<notin> set es \<and> \<not> dp_timer (lc_dp l2)"
  using stopped_no_timer_sweep [OF assms(2) destroy_stops [OF assms(1)]]
    stop.inv_along [OF assms(2) destroy_stops [OF assms(1)]]
  by (auto simp: stopped_def)

theorem no_timer_sweep_after_shutdown_witness:
  "\<exists>l1 l2 l3. lifecycle_step demo_lifecycle TimerFires l1 \<and> lifecycle_step l1 ModuleDestroy l2
     \<and> steps_along lifecycle_step l2 [SweepSettles ByTimer] l3 \<and> \<not> dp_timer (lc_dp l3)"
proof -
  let ?l1 = "enter_sweep ByTimer (demo_lifecycle\<lparr>lc_dp := (lc_dp demo_lifecycle)\<lparr>dp_timer := False\<rparr>\<rparr>)"
  let ?l2 = "?l1\<lparr>lc_dp := on_module_destroy (lc_dp ?l1)\<rparr>"
  have 1: "lifecycle_step demo_lifecycle TimerFires ?l1"
    by (simp add: demo_lifecycle_def new_dispatcher_def)
  have 2: "lifecycle_step ?l1 ModuleDestroy ?l2" by (rule lifecycle_step.destroy)
  have "ByTimer \<in> set (lc_bodies ?l2)" by (simp add: enter_sweep_def)
  from lifecycle_step.settle [OF this refl] obtain l3 where "lifecycle_step ?l2 (SweepSettles ByTimer) l3" by blast
  then have 3: "steps_along lifecycle_step ?l2 [SweepSettles ByTimer] l3"
    by (intro along_cons [OF _ along_nil])
  from no_timer_sweep_after_shutdown [OF 2 3] 1 2 3 show ?thesis by blast
qed

subsection \<open>Delivery\<close>

lemma sweep_bus:
  assumes "sweep drv publish now s bus dp = (Inr cnt, s', bus', dp')" and "\<not> dp_running dp"
  obtains es where
    "find_outbox_batch drv s [StatusIs Pending, AttemptsBelow MAX_ATTEMPTS] MAX_BATCH = Inr es"
    "bus' = sw_bus (sweep_rows publish now es
       \<lparr>sw_rows = [], sw_bus = bus, sw_dispatched = 0, sw_failed = 0, sw_terminal = []\<rparr>)"
  using assms that
  by (auto simp: sweep_def Let_def split: prod.splits sum.splits unit.splits list.splits)

text \<open>
  C30: \<open>sent\<close> does not mean published. While the bus has no channel (before its bootstrap, after
  its shutdown, or when the connection never came up) \<open>publish\<close> returns \<open>false\<close>, which
  \<open>publishEvent\<close> drops; the sweep marks every row of its batch as sent, nothing reaches the bus,
  and no later sweep retries the row.
\<close>

theorem sweep_marks_undelivered_sent:
  assumes ok: "driver_ok drv"
    and sw: "sweep drv (rpc_publisher env chan tr) now s (Some bus) dp = (Inr cnt, s', bus', dp')"
    and un: "db_unique s" and wf: "outbox_wf s" and idle: "\<not> dp_running dp"
    and few: "card (pending_rows s) \<le> MAX_BATCH" and e: "e \<in> pending_rows s"
    and down: "\<not> bus_channel bus"
  shows "bus' = Some bus \<and> (\<exists>e' \<in> set (outbox s'). o_id e' = o_id e \<and> o_status e' = Sent)"
proof -
  have row: "sw_bus (sweep_row (rpc_publisher env chan tr) now row v) = Some bus"
    if "sw_bus v = Some bus" for row v
    using that down by (auto simp: sweep_row_def rpc_publisher_def publish_event_no_channel)
  have rows: "sw_bus (sweep_rows (rpc_publisher env chan tr) now rows v) = Some bus"
    if "sw_bus v = Some bus" for rows v
    using that by (induction rows arbitrary: v) (simp_all add: row)
  from sw idle rows have "bus' = Some bus" by (auto elim: sweep_bus)
  with rpc_pub.sweep_marks_sent [OF ok sw un wf idle few e] show ?thesis by blast
qed

theorem sweep_marks_undelivered_sent_witness:
  "\<exists>cnt s' dp'. sweep mem_driver (rpc_publisher (\<lambda>_. None) (\<lambda>_. None) ''t'') 7 outbox_db
       (Some \<lparr>bus_channel = False, bus_handed = []\<rparr>) new_dispatcher
     = (Inr cnt, s', Some \<lparr>bus_channel = False, bus_handed = []\<rparr>, dp')
     \<and> (\<exists>e' \<in> set (outbox s'). o_id e' = ''r1'' \<and> o_status e' = Sent)"
proof -
  obtain cnt s' bus' dp' where sw: "sweep mem_driver (rpc_publisher (\<lambda>_. None) (\<lambda>_. None) ''t'') 7 outbox_db
      (Some \<lparr>bus_channel = False, bus_handed = []\<rparr>) new_dispatcher = (Inr cnt, s', bus', dp')"
    using mem_outbox_up outbox_db_ok(1) by (rule sweep_answers)
  have "demo_row \<in> pending_rows outbox_db" by (simp add: outbox_db_pending)
  from sweep_marks_undelivered_sent [OF mem_driver_ok sw outbox_db_ok new_dispatcher_idle outbox_db_card this] sw
  show ?thesis by (auto simp: demo_row_def)
qed

text \<open>What a message carries for a row, up to the trace id the bus adds to the payload.\<close>

definition announces :: "environment \<Rightarrow> outbox_event \<Rightarrow> bus_message \<Rightarrow> bool" where
  "announces env row m \<longleftrightarrow>
     m_exchange m = events_exchange_name env \<and> m_routingKey m = o_pattern row
     \<and> js_get (m_body m) ''pattern'' = JStr (o_pattern row)
     \<and> (\<forall>k. k \<noteq> ''__traceId'' \<longrightarrow> js_get (js_get (m_body m) ''data'') k = js_get (o_payload row) k)"

lemma sweep_row_announces:
  assumes "sw_bus v = Some b" and "bus_channel b"
  shows "\<exists>m. sw_bus (sweep_row (rpc_publisher env (\<lambda>_. None) tr) now row v)
      = Some (b\<lparr>bus_handed := bus_handed b @ [m]\<rparr>) \<and> announces env row m"
proof -
  let ?data = "if js_truthy (o_payload row) \<and> is_object (o_payload row) \<and> \<not> has_key ''__traceId'' (o_payload row)
      then with_key (o_payload row) ''__traceId'' (JStr tr) else o_payload row"
  let ?m = "\<lparr>m_exchange = events_exchange_name env, m_routingKey = o_pattern row,
      m_body = JObj [(''pattern'', JStr (o_pattern row)), (''data'', ?data)]\<rparr>"
  have "sw_bus (sweep_row (rpc_publisher env (\<lambda>_. None) tr) now row v) = Some (b\<lparr>bus_handed := bus_handed b @ [?m]\<rparr>)"
    using assms by (simp add: sweep_row_def rpc_publisher_def publish_event_def bus_publish_def Let_def)
  moreover have "announces env row ?m" by (simp add: announces_def with_key_other)
  ultimately show ?thesis by blast
qed

lemma sweep_rows_announce:
  "sw_bus v = Some b \<Longrightarrow> bus_channel b \<Longrightarrow>
     \<exists>ms. sw_bus (sweep_rows (rpc_publisher env (\<lambda>_. None) tr) now rows v)
       = Some (b\<lparr>bus_handed := bus_handed b @ ms\<rparr>) \<and> list_all2 (announces env) rows ms"
proof (induction rows arbitrary: v b)
  case (Cons row rows)
  from sweep_row_announces [OF Cons.prems, of env tr now row] obtain m where
    m: "sw_bus (sweep_row (rpc_publisher env (\<lambda>_. None) tr) now row v)
        = Some (b\<lparr>bus_handed := bus_handed b @ [m]\<rparr>)" and a: "announces env row m" by blast
  from Cons.IH [OF m] Cons.prems(2) obtain ms where
    "sw_bus (sweep_rows (rpc_publisher env (\<lambda>_. None) tr) now (row # rows) v)
       = Some (b\<lparr>bus_handed := bus_handed b @ m # ms\<rparr>)" and "list_all2 (announces env) rows ms"
    by auto
  with a show ?case by (intro exI [of _ "m # ms"]) simp
qed (auto intro: exI [of _ "[]"])

lemma sweep_announces:
  assumes ok: "driver_ok drv" and "bus_channel b" and idle: "\<not> dp_running dp"
    and sw: "sweep drv (rpc_publisher env (\<lambda>_. None) tr) now s (Some b) dp = (Inr cnt, s', bus', dp')"
    and few: "card (pending_rows s) \<le> MAX_BATCH"
    and row: "row \<in> pending_rows s" "o_attempts row < MAX_ATTEMPTS"
  shows "\<exists>m \<in> set (bus_handed (the bus')). announces env row m"
proof -
  let ?P = "sat outbox_matches [StatusIs Pending, AttemptsBelow MAX_ATTEMPTS]"
  let ?v = "\<lparr>sw_rows = [], sw_bus = Some b, sw_dispatched = 0, sw_failed = 0, sw_terminal = []\<rparr>"
  from sw idle obtain es where
    es: "find_outbox_batch drv s [StatusIs Pending, AttemptsBelow MAX_ATTEMPTS] MAX_BATCH = Inr es" and
    bus': "bus' = sw_bus (sweep_rows (rpc_publisher env (\<lambda>_. None) tr) now es ?v)" by (rule sweep_bus)
  have "card {d \<in> set (outbox s). ?P d} \<le> card (pending_rows s)"
    by (rule card_mono) (auto simp: pending_rows_def)
  with few have all: "set es = {d \<in> set (outbox s). ?P d}"
    by (intro batch_takes_all [OF find_outbox_batch_Inr [OF ok es]]) simp
  from row all have "row \<in> set es" by (simp add: pending_rows_def)
  from sweep_rows_announce [of ?v b env tr now es] assms(2) obtain ms where
    "sw_bus (sweep_rows (rpc_publisher env (\<lambda>_. None) tr) now es ?v) = Some (b\<lparr>bus_handed := bus_handed b @ ms\<rparr>)"
    and ms: "list_all2 (announces env) es ms" by auto
  with bus' have "the bus' = b\<lparr>bus_handed := bus_handed b @ ms\<rparr>" by simp
  moreover from ms \<open>row \<in> set es\<close> obtain m where "m \<in> set ms" "announces env row m"
    by (metis in_set_conv_nth list_all2_conv_all_nth)
  ultimately show ?thesis by auto
qed

text \<open>
  C29: the announcement of a deletion arrives. After a successful \<open>deleteUser\<close> of an account that has no
  \<open>user.deleted\<close> row yet, one sweep that succeeds on a bus that takes the message, with no other sweep
  running and at most \<open>MAX_BATCH\<close> rows pending, hands over a message on the events exchange with routing
  key \<open>user.deleted\<close>, whose data a subscriber's \<open>parseUserDeletedEvent\<close> accepts as the event of that very
  account. (With a larger backlog the sweep takes the oldest rows first, and later sweeps the rest.)
\<close>

theorem user_deleted_reaches_subscriber:
  assumes ok: "driver_ok drv" and un: "db_unique s"
    and op: "delete_user drv ce userId s = (Inr (), s1)"
    and i: "to_object_id ce userId = Inr i" "i \<noteq> []"
    and new: "\<forall>e \<in> set (outbox s). o_idempotencyKey e \<noteq> ''user.deleted:'' @ i"
    and few: "card (pending_rows s1) \<le> MAX_BATCH"
    and b: "bus_channel b" "\<not> dp_running dp"
    and sw: "sweep drv (rpc_publisher env (\<lambda>_. None) tr) now s1 (Some b) dp = (Inr cnt, s2, bus', dp')"
  shows "\<exists>m \<in> set (bus_handed (the bus')). m_exchange m = events_exchange_name env
    \<and> m_routingKey m = ''user.deleted''
    \<and> parse_user_deleted (js_get (m_body m) ''data'') = Some \<lparr>ev_userId = i\<rparr>"
proof -
  from ok un op obtain u row created staged where u: "find_by_id drv ce userId s = Inr u" and
    st: "stage_outbox_event drv s (ce_now ce) (ce_outboxId ce) (user_deleted_stage (u_id u))
      = Inr (row, created, staged)" and
    s1: "s1 = apply_changes staged
      (apply_change (PutUser (touch_user (ce_now ce) (deleted_user (ce_now ce) u))) s)"
    by (rule delete_user_writes) blast
  from find_by_id_Inr [OF ok u] i(1) have id: "u_id u = i" by simp
  have row: "row \<in> set (outbox s1)" "row = staged_row (ce_outboxId ce) (ce_now ce) (user_deleted_stage i)"
    using ok st by (cases rule: stage_outbox_cases; use new id s1 in \<open>auto simp: user_deleted_stage_def\<close>)+
  then have "row \<in> pending_rows s1" "o_attempts row < MAX_ATTEMPTS"
    by (simp_all add: pending_rows_def MAX_ATTEMPTS_def)
  from sweep_announces [OF ok b sw few this] obtain m where
    m: "m \<in> set (bus_handed (the bus'))" "announces env row m" ..
  then have "js_get (js_get (m_body m) ''data'') ''userId'' = JStr i"
    using row(2) by (simp add: announces_def user_deleted_stage_def)
  with m row(2) i(2) show ?thesis
    by (intro bexI [of _ m]) (auto simp: parse_user_deleted_Some_iff announces_def user_deleted_stage_def)
qed

theorem user_deleted_reaches_subscriber_witness:
  "\<exists>s1 cnt s2 bus' dp'. delete_user mem_driver (demo_env ''x'' 5) ''n'' demo_db = (Inr (), s1)
     \<and> sweep mem_driver (rpc_publisher (\<lambda>_. None) (\<lambda>_. None) ''t'') 7 s1
         (Some \<lparr>bus_channel = True, bus_handed = []\<rparr>) new_dispatcher = (Inr cnt, s2, bus', dp')
     \<and> (\<exists>m \<in> set (bus_handed (the bus')).
          parse_user_deleted (js_get (m_body m) ''data'') = Some \<lparr>ev_userId = ''n''\<rparr>)"
proof -
  let ?s1 = "demo_db\<lparr>users := [demo_user, touch_user 5 (deleted_user 5 demo_anon)],
         outbox := [staged_row ''ox'' 5 (user_deleted_stage ''n'')]\<rparr>"
  have un: "db_unique ?s1"
    by (auto simp: db_unique_def unique_index_def demo_defs new_user_def new_device_def)
  obtain cnt s2 bus' dp' where sw: "sweep mem_driver (rpc_publisher (\<lambda>_. None) (\<lambda>_. None) ''t'') 7 ?s1
         (Some \<lparr>bus_channel = True, bus_handed = []\<rparr>) new_dispatcher = (Inr cnt, s2, bus', dp')"
    using mem_outbox_up un by (rule sweep_answers)
  have "pending_rows ?s1 \<subseteq> {staged_row ''ox'' 5 (user_deleted_stage ''n'')}"
    by (auto simp: pending_rows_def)
  from card_mono [OF _ this] have "card (pending_rows ?s1) \<le> MAX_BATCH" by (simp add: MAX_BATCH_def)
  from user_deleted_reaches_subscriber [OF mem_driver_ok service_invD(4) [OF demo_db_inv] demo_delete _ _ _ this
      _ new_dispatcher_idle sw, of "''n''"] demo_delete sw
  show ?thesis by (auto simp: demo_db_def)
qed

end
