(* ===== verification/Outbox_Ledger.thy ===== *)
theory Outbox_Ledger
  imports Outbox_Properties "HOL-Library.Product_Lexorder"
begin

section \<open>The outbox as a ledger of deliveries\<close>

text \<open>
  The abstract specification of the outbox: a map from idempotency keys to a status and a number of
  attempts. Staging an event opens its key, or reopens it when delivery had been given up, and is
  otherwise no operation; a sweep attempts at most a batch of open keys, each of which is settled,
  stays open with one attempt more, or is given up at the last one. \<open>stageOutboxEvent\<close> with its
  flush and \<open>OutboxDispatcher.sweep\<close> are shown to refine it, failed sweeps and partial flushes
  included.
\<close>

subsection \<open>The specification\<close>

type_synonym ledger = "string \<Rightarrow> (outbox_status \<times> nat) option"

datatype delivery_event = Staged string | Swept

definition ledger_stage :: "string \<Rightarrow> ledger \<Rightarrow> ledger" where
  "ledger_stage k L =
     (case L k of
        None \<Rightarrow> L(k \<mapsto> (Pending, 0))
      | Some (Failed, _) \<Rightarrow> L(k \<mapsto> (Pending, 0))
      | Some _ \<Rightarrow> L)"

definition attempt_results :: "nat \<Rightarrow> (outbox_status \<times> nat) set" where
  "attempt_results n = {(Sent, n + 1), (if MAX_ATTEMPTS \<le> n + 1 then Failed else Pending, n + 1)}"

inductive ledger_step :: "ledger \<Rightarrow> delivery_event \<Rightarrow> ledger \<Rightarrow> bool" where
  staged: "ledger_step L (Staged k) (ledger_stage k L)"
| swept: "finite K \<Longrightarrow> card K \<le> MAX_BATCH \<Longrightarrow>
    \<forall>k \<in> K. \<exists>n < MAX_ATTEMPTS. L k = Some (Pending, n) \<and> (\<exists>v \<in> attempt_results n. L' k = Some v) \<Longrightarrow>
    \<forall>k. k \<notin> K \<longrightarrow> L' k = L k \<Longrightarrow> ledger_step L Swept L'"

inductive_cases ledger_step_StagedE: "ledger_step L (Staged k) L'"
inductive_cases ledger_step_SweptE: "ledger_step L Swept L'"

subsection \<open>Progress\<close>

text \<open>Statuses in the order a delivery goes through them; sweeps only move forward.\<close>

instantiation outbox_status :: linorder
begin

fun rank_status :: "outbox_status \<Rightarrow> nat" where
  "rank_status Pending = 0"
| "rank_status Failed = 1"
| "rank_status Sent = 2"

definition less_eq_outbox_status :: "outbox_status \<Rightarrow> outbox_status \<Rightarrow> bool" where
  "less_eq_outbox_status a b \<longleftrightarrow> rank_status a \<le> rank_status b"

definition less_outbox_status :: "outbox_status \<Rightarrow> outbox_status \<Rightarrow> bool" where
  "less_outbox_status a b \<longleftrightarrow> rank_status a < rank_status b"

instance
proof
  fix a b :: outbox_status
  show "a \<le> b \<Longrightarrow> b \<le> a \<Longrightarrow> a = b"
    by (cases a; cases b) (simp_all add: less_eq_outbox_status_def)
qed (auto simp: less_eq_outbox_status_def less_outbox_status_def)

end

lemma attempt_forward: "v \<in> attempt_results n \<Longrightarrow> (Pending, n) < v"
  by (auto simp: attempt_results_def less_outbox_status_def less_eq_outbox_status_def)

lemma swept_forward:
  assumes "ledger_step L Swept L'" and "L k = Some v"
  shows "\<exists>v'. L' k = Some v' \<and> v \<le> v'"
proof -
  from assms(1) obtain K where
    moved: "\<forall>k \<in> K. \<exists>n < MAX_ATTEMPTS. L k = Some (Pending, n) \<and> (\<exists>v \<in> attempt_results n. L' k = Some v)"
    and kept: "\<forall>k. k \<notin> K \<longrightarrow> L' k = L k" by (rule ledger_step_SweptE)
  show ?thesis
  proof (cases "k \<in> K")
    case True
    with moved assms(2) obtain n v' where "v = (Pending, n)" "v' \<in> attempt_results n" "L' k = Some v'"
      by fastforce
    with attempt_forward [of v' n] show ?thesis by (intro exI [of _ v']) simp
  qed (use kept assms(2) in auto)
qed

lemma settled_stays:
  assumes "ledger_step L e L'" and "L k = Some (Sent, n)"
  shows "L' k = Some (Sent, n)"
  using assms
proof (cases rule: ledger_step.cases)
  case (swept K)
  then have "k \<notin> K" using assms(2) by fastforce
  with swept assms(2) show ?thesis by simp
qed (auto simp: ledger_stage_def split: option.splits outbox_status.splits)

lemma settled_stays_along:
  "steps_along ledger_step L es L' \<Longrightarrow> L k = Some (Sent, n) \<Longrightarrow> L' k = Some (Sent, n)"
  by (induction rule: steps_along.induct) (auto dest: settled_stays)

subsection \<open>The implementation's steps\<close>

definition ledger_of :: "db \<Rightarrow> ledger" where
  "ledger_of s k = map_option (\<lambda>e. (o_status e, o_attempts e)) (find (\<lambda>e. o_idempotencyKey e = k) (outbox s))"

lemma ledger_of_row:
  assumes "db_unique s" and "e \<in> set (outbox s)"
  shows "ledger_of s (o_idempotencyKey e) = Some (o_status e, o_attempts e)"
proof -
  from assms(2) obtain x where x: "find (\<lambda>x. o_idempotencyKey x = o_idempotencyKey e) (outbox s) = Some x"
    by (cases "find (\<lambda>x. o_idempotencyKey x = o_idempotencyKey e) (outbox s)") (auto simp: find_None_iff)
  then have "x \<in> set (outbox s)" and "o_idempotencyKey x = o_idempotencyKey e"
    by (auto simp: find_Some_iff)
  with assms have "x = e"
    by (auto simp: db_unique_def dest: unique_indexD [of "\<lambda>e. Some (o_idempotencyKey e)"])
  with x show ?thesis by (simp add: ledger_of_def)
qed

lemma ledger_of_None: "\<forall>e \<in> set (outbox s). o_idempotencyKey e \<noteq> k \<Longrightarrow> ledger_of s k = None"
  by (auto simp: ledger_of_def find_None_iff)

text \<open>Two stores whose rows with a key agree have the same entry for it.\<close>

lemma ledger_of_cong:
  assumes un: "db_unique s" "db_unique s'"
    and rows: "\<And>e. o_idempotencyKey e = k \<Longrightarrow> e \<in> set (outbox s) \<longleftrightarrow> e \<in> set (outbox s')"
  shows "ledger_of s k = ledger_of s' k"
proof (cases "\<exists>e \<in> set (outbox s). o_idempotencyKey e = k")
  case True
  then obtain e where "e \<in> set (outbox s)" "o_idempotencyKey e = k" by blast
  with rows [of e] un show ?thesis using ledger_of_row by metis
next
  case False
  with rows show ?thesis by (metis ledger_of_None)
qed

text \<open>
  A store under stagings, each with its flush, and sweeps however they end. The new row's ObjectId
  is fresh, and so the key is the only thing that can collide.
\<close>

type_synonym 'b outbox_state = "db \<times> 'b \<times> dispatcher"

inductive delivery_step ::
  "driver \<Rightarrow> 'b publisher \<Rightarrow> 'b outbox_state \<Rightarrow> delivery_event \<Rightarrow> 'b outbox_state \<Rightarrow> bool"
  for drv publish where
  stage: "stage_outbox_event drv s now newId p = Inr (row, created, cs) \<Longrightarrow>
    newId \<notin> o_id ` set (outbox s) \<Longrightarrow> flush drv cs s = (Inr (), s') \<Longrightarrow>
    delivery_step drv publish (s, b, dp) (Staged (st_idempotencyKey p)) (s', b, dp)"
| swept: "sweep drv publish now s b dp = (r, s', b', dp') \<Longrightarrow>
    delivery_step drv publish (s, b, dp) Swept (s', b', dp')"

lemma stage_refines:
  assumes ok: "driver_ok drv" and un: "db_unique s" and st: "stage_outbox_event drv s now newId p = Inr (row, created, cs)"
    and fresh: "newId \<notin> o_id ` set (outbox s)" and fl: "flush drv cs s = (Inr (), s')"
  shows "ledger_of s' = ledger_stage (st_idempotencyKey p) (ledger_of s)"
proof -
  let ?k = "st_idempotencyKey p"
  have un': "db_unique s'" using flush_unique [OF ok fl un] .
  have s': "s' = apply_changes cs s" using flush_Inr [OF ok fl] .
  from ok st show ?thesis
  proof (cases rule: stage_outbox_cases)
    case new
    have "ledger_of s' k = (if k = ?k then Some (Pending, 0) else ledger_of s k)" for k
    proof (cases "k = ?k")
      case True
      from ledger_of_row [OF un', of row] show ?thesis using new True s' by simp
    next
      case False
      with new fresh s' ledger_of_cong [OF un' un, of k] show ?thesis by force
    qed
    with ledger_of_None [OF new(4)] show ?thesis by (auto simp: ledger_stage_def)
  next
    case kept
    with ledger_of_row [OF un kept(2)] s' show ?thesis
      by (cases "o_status row") (auto simp: ledger_stage_def)
  next
    case (revived e)
    let ?row = "touch_outbox now row"
    have row: "o_idempotencyKey ?row = ?k" "o_id ?row = o_id e" "o_status ?row = Pending" "o_attempts ?row = 0"
      using revived by (simp_all add: revive_row_def)
    have "ledger_of s' k = (if k = ?k then Some (Pending, 0) else ledger_of s k)" for k
    proof (cases "k = ?k")
      case True
      from ledger_of_row [OF un', of ?row] row show ?thesis using revived True s' by simp
    next
      case False
      have "x = e" if "x \<in> set (outbox s)" "o_id x = o_id e" for x
        using that revived(2) un by (auto simp: db_unique_def dest: inj_onD)
      with False row revived s' ledger_of_cong [OF un' un, of k] show ?thesis by force
    qed
    with ledger_of_row [OF un revived(2)] revived(3,4) show ?thesis by (auto simp: ledger_stage_def)
  qed
qed

text \<open>What a sweep wrote, also when its flush stopped half way: some of the rows it attempted.\<close>

lemma sweep_written:
  assumes ok: "driver_ok drv" and sw: "sweep drv publish now s b dp = (r, s', b', dp')" and un: "db_unique s"
  obtains ws where "length ws \<le> MAX_BATCH"
    "\<forall>w \<in> set ws. \<exists>e \<in> set (outbox s). o_status e = Pending \<and> o_attempts e < MAX_ATTEMPTS \<and> attempted e w"
    "set (outbox s') = set ws \<union> {x \<in> set (outbox s). o_id x \<notin> o_id ` set ws}"
  using ok sw
proof (cases rule: sweep_flushed)
  case idle
  with that [of "[]"] show ?thesis by simp
next
  case (flushed es rows' q)
  let ?rows = "map (touch_outbox now) rows'"
  from flush_any [OF ok flushed(3)] obtain cs' where sub: "subseq cs' (map PutOutbox ?rows)"
    and s': "s' = apply_changes cs' s" by blast
  from sub obtain N where "cs' = map PutOutbox (nths ?rows N)"
    by (auto simp: subseq_conv_nths nths_map)
  moreover define ws where "ws = nths ?rows N"
  ultimately have cs': "cs' = map PutOutbox ws" by simp
  have ws: "subseq ws ?rows" by (auto simp: ws_def subseq_conv_nths)
  have "distinct (map o_id es)"
    using oldest_firstD(1,4) [OF flushed(1)] un
    by (auto simp: distinct_map db_unique_def intro: inj_on_subset)
  then have "distinct (map o_id ?rows)"
    using attempted_rows(1) [OF flushed(2)] by (simp add: comp_def)
  moreover have "subseq (map o_id ws) (map o_id ?rows)" using ws by (rule subseq_map)
  ultimately have "distinct (map o_id ws)" by (metis distinct_nthsI subseq_conv_nths)
  from apply_outbox_set [OF this, of s] s' cs'
  have "set (outbox s') = set ws \<union> {x \<in> set (outbox s). o_id x \<notin> o_id ` set ws}" by simp
  moreover have "length ws \<le> MAX_BATCH"
    using list_emb_length [OF ws] list_all2_lengthD [OF flushed(2)] oldest_firstD(2) [OF flushed(1)] by simp
  moreover have "\<exists>e \<in> set (outbox s). o_status e = Pending \<and> o_attempts e < MAX_ATTEMPTS \<and> attempted e w"
    if w: "w \<in> set ws" for w
  proof -
    from w subseq_set_subset [OF ws] obtain r' where "r' \<in> set rows'" "w = touch_outbox now r'" by auto
    moreover from attempted_rows(2) [OF flushed(2) this(1)] obtain e where "e \<in> set es" "attempted e r'" ..
    ultimately show ?thesis
      using oldest_firstD(4,5) [OF flushed(1), of e] by (intro bexI [of _ e]) (auto simp: attempted_def touch_outbox_def)
  qed
  ultimately show ?thesis by (intro that) auto
qed

lemma sweep_refines:
  assumes ok: "driver_ok drv" and un: "db_unique s" and sw: "sweep drv publish now s b dp = (r, s', b', dp')"
  shows "ledger_step (ledger_of s) Swept (ledger_of s')"
proof -
  have un': "db_unique s'" using sweep_unique [OF ok sw un] .
  from ok sw un obtain ws where few: "length ws \<le> MAX_BATCH" and
    ws: "\<forall>w \<in> set ws. \<exists>e \<in> set (outbox s). o_status e = Pending \<and> o_attempts e < MAX_ATTEMPTS \<and> attempted e w" and
    new: "set (outbox s') = set ws \<union> {x \<in> set (outbox s). o_id x \<notin> o_id ` set ws}" by (rule sweep_written)
  let ?K = "o_idempotencyKey ` set ws"
  have "card ?K \<le> MAX_BATCH"
    using few card_image_le [of "set ws" o_idempotencyKey] card_length [of ws] by simp
  moreover have "\<exists>n < MAX_ATTEMPTS. ledger_of s (o_idempotencyKey w) = Some (Pending, n)
      \<and> (\<exists>v \<in> attempt_results n. ledger_of s' (o_idempotencyKey w) = Some v)" if w: "w \<in> set ws" for w
  proof -
    from w ws obtain e where e: "e \<in> set (outbox s)" "o_status e = Pending" "o_attempts e < MAX_ATTEMPTS"
      "attempted e w" by blast
    have "w \<in> set (outbox s')" using new w by simp
    from ledger_of_row [OF un' this] ledger_of_row [OF un e(1)] e(2-) show ?thesis
      by (auto simp: attempted_def attempt_results_def)
  qed
  moreover have "ledger_of s' k = ledger_of s k" if k: "k \<notin> ?K" for k
  proof (rule ledger_of_cong [OF un' un])
    fix e :: outbox_event
    assume e: "o_idempotencyKey e = k"
    show "e \<in> set (outbox s') \<longleftrightarrow> e \<in> set (outbox s)"
    proof
      assume "e \<in> set (outbox s)"
      moreover have "o_id e \<notin> o_id ` set ws"
      proof
        assume "o_id e \<in> o_id ` set ws"
        then obtain w where w: "w \<in> set ws" "o_id e = o_id w" by blast
        with ws obtain e0 where "e0 \<in> set (outbox s)" "attempted e0 w" by blast
        with w \<open>e \<in> set (outbox s)\<close> un have "e0 = e"
          by (auto simp: db_unique_def attempted_def dest: inj_onD)
        with \<open>attempted e0 w\<close> e have "o_idempotencyKey w = k" by (simp add: attempted_def)
        with w(1) k show False by blast
      qed
      ultimately show "e \<in> set (outbox s')" using new by simp
    qed (use new e k in auto)
  qed
  ultimately show ?thesis
    by (intro ledger_step.swept [of ?K]) auto
qed

definition ledger_view :: "'b outbox_state \<Rightarrow> ledger" where
  "ledger_view st = ledger_of (fst st)"

interpretation outbox_ledger: simulation "delivery_step drv publish" ledger_step ledger_view
    "\<lambda>st. driver_ok drv \<and> db_unique (fst st)"
  for drv :: driver and publish :: "'b publisher"
proof unfold_locales
  fix st e st'
  assume step: "delivery_step drv publish st e st'" and inv: "driver_ok drv \<and> db_unique (fst st)"
  from step inv show "driver_ok drv \<and> db_unique (fst st')"
    by (cases rule: delivery_step.cases) (auto intro: flush_unique sweep_unique)
  from step inv show "ledger_step (ledger_view st) e (ledger_view st')"
    by (cases rule: delivery_step.cases)
      (auto simp: ledger_view_def stage_refines intro: ledger_step.staged sweep_refines)
qed

subsection \<open>What follows for the outbox\<close>

text \<open>
  C25: the outbox refines its specification. Every run of stagings, with their flushes, and of
  sweeps, failed ones and partial flushes included, is a run of the ledger: a sweep attempts at most
  \<open>MAX_BATCH\<close> open keys, counts exactly one attempt on each, gives a key up at the tenth and at no
  other, and changes no other key; staging opens a key that is new or given up and nothing else.
\<close>

theorem outbox_refines_ledger:
  assumes "driver_ok drv" and "db_unique s"
    and "steps_along (delivery_step drv publish) (s, b, dp) es (s', b', dp')"
  shows "steps_along ledger_step (ledger_of s) es (ledger_of s') \<and> db_unique s'"
  using outbox_ledger.simulates_along [OF assms(3)] outbox_ledger.keeps_along [OF assms(3)] assms(1,2)
  by (simp add: ledger_view_def)

definition demo_stage :: stage_params where
  "demo_stage = user_deleted_stage ''u3''"

lemma demo_delivery:
  "\<exists>s' b' dp'. steps_along (delivery_step mem_driver (\<lambda>p v b. (None, b))) (outbox_db, (), new_dispatcher)
     [Staged ''user.deleted:u3'', Swept] (s', b', dp')"
proof -
  let ?s1 = "apply_change (PutOutbox (staged_row ''r3'' 4 demo_stage)) outbox_db"
  have st: "stage_outbox_event mem_driver outbox_db 4 ''r3'' demo_stage
      = Inr (staged_row ''r3'' 4 demo_stage, True, [PutOutbox (staged_row ''r3'' 4 demo_stage)])"
    by (simp add: stage_outbox_event_def outbox_db_def empty_db_def demo_row_def demo_stage_def
        user_deleted_stage_def Let_def)
  have fl: "flush mem_driver [PutOutbox (staged_row ''r3'' 4 demo_stage)] outbox_db = (Inr (), ?s1)"
    by (simp add: outbox_db_def empty_db_def demo_row_def demo_stage_def user_deleted_stage_def)
  have key: "st_idempotencyKey demo_stage = ''user.deleted:u3''"
    by (simp add: demo_stage_def user_deleted_stage_def)
  have "''r3'' \<notin> o_id ` set (outbox outbox_db)"
    by (simp add: outbox_db_def empty_db_def demo_row_def)
  from delivery_step.stage [OF st this fl, of "\<lambda>p v b. (None, b)" "()" new_dispatcher] key
  have 1: "delivery_step mem_driver (\<lambda>p v b. (None, b)) (outbox_db, (), new_dispatcher) (Staged ''user.deleted:u3'')
      (?s1, (), new_dispatcher)" by simp
  obtain r s' b' dp' where "sweep mem_driver (\<lambda>p v b. (None, b)) 7 ?s1 () new_dispatcher = (r, s', b', dp')"
    by (metis prod.exhaust)
  from delivery_step.swept [OF this] 1 show ?thesis by (blast intro: along_cons along_nil)
qed

theorem outbox_refines_ledger_witness:
  "\<exists>s'. steps_along ledger_step (ledger_of outbox_db) [Staged ''user.deleted:u3'', Swept] (ledger_of s')"
proof -
  from demo_delivery obtain s' b' dp' where "steps_along (delivery_step mem_driver (\<lambda>p v b. (None, b)))
    (outbox_db, (), new_dispatcher) [Staged ''user.deleted:u3'', Swept] (s', b', dp')" by blast
  from outbox_refines_ledger [OF mem_driver_ok outbox_db_ok(1) this] show ?thesis by blast
qed

text \<open>
  An event is settled once. When the row of an idempotency key is marked as sent, no staging
  of the same key and no sweep, however often and in whatever order, changes its status or counts
  another attempt on it.
\<close>

theorem sent_event_is_final:
  assumes "driver_ok drv" and "db_unique s" and "e \<in> set (outbox s)" and "o_status e = Sent"
    and "steps_along (delivery_step drv publish) (s, b, dp) es (s', b', dp')"
  shows "ledger_of s' (o_idempotencyKey e) = Some (Sent, o_attempts e)"
  using settled_stays_along [of "ledger_of s" es "ledger_of s'" "o_idempotencyKey e" "o_attempts e"]
    outbox_ledger.simulates_along [OF assms(5)] ledger_of_row [OF assms(2,3)] assms(1,2,4)
  by (simp add: ledger_view_def)

theorem sent_event_is_final_witness:
  "\<exists>s' b' dp'. steps_along (delivery_step mem_driver (\<lambda>p v b. (None, b))) (outbox_db, (), new_dispatcher)
       [Staged ''user.deleted:u3'', Swept] (s', b', dp')
     \<and> ledger_of s' ''user.deleted:u2'' = Some (Sent, 0)"
proof -
  let ?e = "(staged_row ''r2'' 2 (user_deleted_stage ''u2''))\<lparr>o_status := Sent\<rparr>"
  have "?e \<in> set (outbox outbox_db)" "o_status ?e = Sent" by (simp_all add: outbox_db_def)
  moreover from demo_delivery obtain s' b' dp' where run: "steps_along (delivery_step mem_driver (\<lambda>p v b. (None, b)))
    (outbox_db, (), new_dispatcher) [Staged ''user.deleted:u3'', Swept] (s', b', dp')" by blast
  ultimately have "ledger_of s' (o_idempotencyKey ?e) = Some (Sent, o_attempts ?e)"
    by (intro sent_event_is_final [OF mem_driver_ok outbox_db_ok(1)])
  with run show ?thesis by (auto simp: user_deleted_stage_def)
qed

end
