(* ===== verification/Gateway_Properties.thy ===== *)
theory Gateway_Properties
  imports Gateway_Demo
begin

section \<open>Properties of the gateway and the user service together\<close>

text \<open>
  What holds of the composition \<open>user_rpc\<close> whatever messages are sent: the accounts stay sane, an
  error keeps its status, code and details on its way to the HTTP client, and what a session is
  worth. The sections on sessions rest on the interpretation \<open>users\<close> of \<open>identity_service\<close>.
\<close>

subsection \<open>Any sequence of messages\<close>

definition after_messages :: "'m backend \<Rightarrow> user_message list \<Rightarrow> 'm world \<Rightarrow> 'm world" where
  "after_messages bk ms w = identity_service.deliver (user_rpc bk) ms w"

lemma after_messages_simps [simp]:
  "after_messages bk [] w = w"
  "after_messages bk (m # ms) w = after_messages bk ms (snd (user_rpc bk m w))"
  by (simp_all add: after_messages_def)

lemma after_messages_keeps:
  "backend_ok bk \<Longrightarrow> world_ok bk w \<Longrightarrow>
     world_ok bk (after_messages bk ms w) \<and> evolves (w_db w) (w_db (after_messages bk ms w))"
proof (induction ms arbitrary: w)
  case (Cons m ms)
  obtain r w1 where op: "user_rpc bk m w = (r, w1)" by (rule prod.exhaust)
  note step = user_rpc_step [OF Cons.prems op]
  from Cons.IH [OF Cons.prems(1) step(1)] step(2) op show ?case
    by (auto intro: evolves_trans)
qed simp

text \<open>
  C12: whatever messages the gateway sends, and however the store, the mail server and the wire fail,
  the accounts stay well formed (an anonymous account has no credentials, addresses and provider
  links of live accounts are unique, outbox rows are within their attempt budget), no account
  disappears, and every account's token version only grows.
\<close>

theorem messages_keep_accounts_sane:
  assumes "backend_ok bk" and "world_ok bk w"
  shows "service_inv (w_db (after_messages bk ms w))
    \<and> (\<forall>u \<in> set (users (w_db w)). \<exists>u' \<in> set (users (w_db (after_messages bk ms w))).
         u_id u' = u_id u \<and> token_version u \<le> token_version u'
         \<and> (u_deletedAt u \<noteq> None \<longrightarrow> u' = u))"
  using after_messages_keeps [OF assms, of ms]
  by (auto simp: world_ok_def evolves_def advances_def live_def)

theorem messages_keep_accounts_sane_witness:
  "service_inv (w_db (after_messages demo_backend [DeleteUser ''n'', LoginUser ''a@b'' ''pw''] demo_world))"
  using messages_keep_accounts_sane [OF demo_backend_ok demo_world_ok] by blast

subsection \<open>Errors on their way to the client\<close>

lemma serve_error:
  "handle_message drv ce mail msg s m = (Inl (MicroserviceExn st c msg' d t), s', m') \<Longrightarrow>
     serve drv ce mail tr msg s m = (Inl (MicroserviceExn st c msg' d t), s', m')"
  by (simp add: serve_def)

lemma payload_at_the_edge:
  "fst (all_exceptions_filter reqId traceId (http_from_payload (rpc_error_payload (JNum st) (JStr c) (JStr m) d t)))
    = \<lparr>rep_status = JNum st,
       rep_body = [(''statusCode'', JNum st), (''code'', JStr c), (''message'', JStr m)]
         @ (if js_truthy d then [(''details'', d)] else [])
         @ [(''requestId'', JStr (nullish (or_else reqId traceId) ''unknown''))]\<rparr>"
  by (simp add: all_exceptions_filter_def classify_exception_def extract_rpc_payload_def Let_def
      http_from_payload_def rpc_error_payload_def is_rpc_error_payload_def)

text \<open>
  C13: an exception a handler of the user service throws reaches the HTTP client with its status,
  code, message and details unchanged: through the service's filter, the RPC envelope, the gateway's
  unwrapping and the gateway's filter.
\<close>

theorem error_reaches_client:
  assumes up: "wire_up bk"
    and exn: "handle_message (bk_driver bk) (bk_env bk (w_calls w)) (bk_mailer bk) msg (w_db w) (w_mail w)
      = (Inl (microservice_exn st c m d), s', m')"
  shows "\<exists>e w'. user_rpc bk msg w = (Inl e, w') \<and> w_db w' = s'
    \<and> fst (all_exceptions_filter reqId traceId e) =
        \<lparr>rep_status = JNum st,
         rep_body = [(''statusCode'', JNum st), (''code'', JStr c), (''message'', JStr m)]
           @ (if js_truthy d then [(''details'', d)] else [])
           @ [(''requestId'', JStr (nullish (or_else reqId traceId) ''unknown''))]\<rparr>"
proof -
  from exn have "serve (bk_driver bk) (bk_env bk (w_calls w)) (bk_mailer bk) (bk_trace bk) msg
      (w_db w) (w_mail w) = (Inl (microservice_exn st c m d), s', m')"
    by (simp add: microservice_exn_def serve_error)
  then have "user_rpc bk msg w =
      (rpc_send ''user'' (bk_wire bk (w_calls w) (Inl (microservice_exn st c m d))),
       w\<lparr>w_db := s', w_mail := m', w_calls := w_calls w + 1\<rparr>)"
    by (simp add: user_rpc_def)
  then show ?thesis
    by (simp add: microservice_exn_def wire_error_roundtrip [OF up] payload_at_the_edge)
qed

theorem error_reaches_client_witness:
  "\<exists>e w'. user_rpc demo_backend (UpgradeUserAccount ''u'' None None None None None) demo_world = (Inl e, w')
     \<and> rep_status (fst (all_exceptions_filter None None e)) = JNum 409"
proof -
  have "handle_message (bk_driver demo_backend) (bk_env demo_backend (w_calls demo_world))
      (bk_mailer demo_backend) (UpgradeUserAccount ''u'' None None None None None)
      (w_db demo_world) (w_mail demo_world)
    = (Inl (microservice_exn 409 CONFLICT ''Account already upgraded'' JUndef), demo_db, ())"
    by (simp add: lift_reply_def upgrade_account_def find_by_id_def demo_defs new_user_def microservice_exns)
  from error_reaches_client [OF demo_wire_up this, of None None] show ?thesis by auto
qed

text \<open>
  C14: a password reset that succeeds is reported as a failure. The handler of \<open>reset_password\<close>
  returns nothing, the transport drops an undefined reply, and the gateway answers a 503 although
  the user service has committed the new password.
\<close>

theorem successful_reset_reported_as_503:
  assumes up: "wire_up bk"
    and op: "reset_password (bk_driver bk) (bk_env bk (w_calls w)) token pw (w_db w) = (Inr (), s')"
  shows "\<exists>w' m. gw_reset_password (user_rpc bk) token pw w = (Inl (service_unavailable INTERNAL_ERROR m), w')
    \<and> w_db w' = s'"
proof -
  from up obtain e where e: "bk_wire bk (w_calls w) (Inr NoReply) = CallError (ErrorExn e)"
    unfolding wire_up_def by blast
  from op have "user_rpc bk (ResetPassword token pw) w =
      (rpc_send ''user'' (CallError (ErrorExn e)),
       w\<lparr>w_db := s', w_mail := w_mail w, w_calls := w_calls w + 1\<rparr>)"
    by (simp add: user_rpc_def serve_def lift_reply_def e)
  then show ?thesis
    by (auto simp: gw_reset_password_def ask_def rethrow_or_unwrap_def unwrap_error_def Let_def
        is_rpc_error_payload_def)
qed

definition demo_reset_world :: "unit world" where
  "demo_reset_world =
     demo_world\<lparr>w_db := demo_db\<lparr>users := [demo_user\<lparr>u_resetPasswordToken := Some ''#t'',
       u_resetPasswordExpiry := Some 9\<rparr>]\<rparr>\<rparr>"

theorem successful_reset_reported_as_503_witness:
  "\<exists>w' m. gw_reset_password (user_rpc demo_backend) ''t'' ''new'' demo_reset_world
      = (Inl (service_unavailable INTERNAL_ERROR m), w')
     \<and> map u_passwordHash (users (w_db w')) = [Some ''$new'']"
proof -
  let ?u = "demo_user\<lparr>u_resetPasswordToken := Some ''#t'', u_resetPasswordExpiry := Some 9\<rparr>"
  have "reset_password (bk_driver demo_backend) (bk_env demo_backend (w_calls demo_reset_world)) ''t'' ''new''
      (w_db demo_reset_world)
    = (Inr (), demo_db\<lparr>users := [touch_user 5 (with_new_password ''$new'' ?u)]\<rparr>)"
    by (simp add: reset_password_def hash_reset_token_def demo_user_def save_user_def put_by_def
        with_new_password_changes demo_reset_world_def)
  from successful_reset_reported_as_503 [OF demo_wire_up this] show ?thesis
    by (auto simp: with_new_password_def)
qed

end
