(* ===== verification/Session_Properties.thy ===== *)
theory Session_Properties
  imports Gateway_Properties
begin

section \<open>What a session is worth\<close>

text \<open>
  The life of a token pair: issued at a log-in, rotated by \<open>/auth/refresh\<close>, revoked by a log-out or
  by a bump of the account's token version. The theorems combine the gateway's guard and handler,
  the blacklist (through the interpretation \<open>blacklist\<close>) and the user service's answers (through
  the interpretation \<open>users\<close>).
\<close>

subsection \<open>Issuing\<close>

text \<open>The session of a response: a pair that says what the account is in the world \<open>w\<close>.\<close>

definition current_session :: "gw_env \<Rightarrow> string \<Rightarrow> 'm world \<Rightarrow> auth_response \<Rightarrow> bool" where
  "current_session gw deviceId w resp \<longleftrightarrow>
     (\<exists>a n. standing w (au_userId resp) a n \<and> au_accountType resp = account_type_str a
        \<and> au_tokens resp = issue_token_pair gw (au_userId resp) (Some (account_type_str a)) deviceId (Some n))"

lemma ask_Inr:
  assumes "ask rpc read msg w = (Inr x, w')"
  obtains v where "rpc msg w = (Inr v, w')" "read v = Inr x"
  using assms by (auto simp: ask_def split: prod.splits sum.splits)

lemma as_reply_Inr:
  "as_autoreg v = Inr a \<longleftrightarrow> v = AutoregReply a" "as_grant v = Inr g \<longleftrightarrow> v = GrantReply g"
  "as_user v = Inr u \<longleftrightarrow> v = UserReply u" "as_version v = Inr n \<longleftrightarrow> v = VersionReply n"
  by (cases v; auto simp: reply_type_error_def)+

lemma ask_reply:
  "ask rpc as_autoreg msg w = (Inr a, w') \<Longrightarrow> rpc msg w = (Inr (AutoregReply a), w')"
  "ask rpc as_grant msg w = (Inr g, w') \<Longrightarrow> rpc msg w = (Inr (GrantReply g), w')"
  "ask rpc as_user msg w = (Inr u, w') \<Longrightarrow> rpc msg w = (Inr (UserReply u), w')"
  "ask rpc as_version msg w = (Inr n, w') \<Longrightarrow> rpc msg w = (Inr (VersionReply n), w')"
  by (auto elim!: ask_Inr simp: as_reply_Inr)

lemma issued_session:
  "standing w i a n \<Longrightarrow> current_session gw d w
     \<lparr>au_tokens = issue_token_pair gw i (Some (account_type_str a)) d (Some n), au_userId = i,
      au_accountType = account_type_str a\<rparr>"
  unfolding current_session_def by (intro exI [of _ a] exI [of _ n]) simp

lemma grant_session:
  "g_accountType g = Registered \<and> standing w (g_id g) Registered (g_tokenVersion g) \<Longrightarrow>
     current_session gw d w (grant_response gw d g)"
  using issued_session [of w "g_id g" Registered "g_tokenVersion g" gw d] by (simp add: grant_response_def)

text \<open>
  C15: what the gateway issues is what the user service knows. A pair handed out by \<open>/auth/autoreg\<close>,
  \<open>/auth/login\<close> or \<open>/auth/oauth/:provider\<close> carries the account's type and token version at that
  moment and the device of the request's header, which the request must have.
\<close>

theorem issued_session_is_current:
  assumes ok: "backend_ok bk" and w: "world_ok bk w"
    and op: "autoreg_endpoint gw (user_rpc bk) fp pl header ip w = (Inr resp, w')
      \<or> login_endpoint gw (user_rpc bk) email pw header w = (Inr resp, w')
      \<or> oauth_endpoint gw (user_rpc bk) verify provider dto header ua w n = (Inr resp, w', n')"
  shows "\<exists>d. require_device_id header = Inr d \<and> current_session gw d w' resp"
proof -
  from op consider
    (autoreg) d a msg where "require_device_id header = Inr d"
      "ask (user_rpc bk) as_autoreg (CreateAutoregUser (Some fp) pl msg) w = (Inr a, w')"
      "resp = \<lparr>au_tokens = issue_token_pair gw (ar_id a) (Some (account_type_str Autoreg)) d
                 (Some (ar_tokenVersion a)), au_userId = ar_id a, au_accountType = account_type_str Autoreg\<rparr>"
  | (login) d g where "require_device_id header = Inr d"
      "ask (user_rpc bk) as_grant (LoginUser email pw) w = (Inr g, w')" "resp = grant_response gw d g"
  | (oauth) d i g where "require_device_id header = Inr d"
      "ask (user_rpc bk) as_grant (oauth_message provider i dto) w = (Inr g, w')" "resp = grant_response gw d g"
    by (auto simp: autoreg_endpoint_def gw_autoreg_def login_endpoint_def gw_login_def
        oauth_endpoint_def gw_oauth_login_def Let_def split: sum.splits prod.splits)
  then show ?thesis
  proof cases
    case autoreg
    from issued_session [OF users.autoreg_reply [OF ok w ask_reply(1) [OF autoreg(2)]]] autoreg(1,3)
    show ?thesis by blast
  next
    case login
    from users.login_reply [OF ok w ask_reply(2) [OF login(2)]] login(1,3) grant_session
    show ?thesis by blast
  next
    case oauth
    from users.oauth_reply [OF ok w ask_reply(2) [OF oauth(2) [unfolded oauth_message_def]]] oauth(1,3)
      grant_session
    show ?thesis by blast
  qed
qed

theorem issued_session_is_current_witness:
  "\<exists>resp w'. login_endpoint (demo_gateway ''j1'' 5) (user_rpc demo_backend) ''a@b'' ''pw'' (Some '' dev '')
       demo_world = (Inr resp, w') \<and> current_session (demo_gateway ''j1'' 5) ''dev'' w' resp"
proof -
  have dev: "require_device_id (Some '' dev '') = Inr ''dev''" by code_simp
  have lg: "login mem_driver (demo_env ''x'' 5) ''a@b'' ''pw'' demo_db = Inr (grant_of demo_user)"
    by (simp add: login_def demo_defs Let_def)
  have "\<exists>resp w'. login_endpoint (demo_gateway ''j1'' 5) (user_rpc demo_backend) ''a@b'' ''pw'' (Some '' dev '')
       demo_world = (Inr resp, w')"
    by (simp add: login_endpoint_def dev gw_login_def ask_def user_rpc_def serve_def lg demo_wire_def)
  then obtain resp w' where op: "login_endpoint (demo_gateway ''j1'' 5) (user_rpc demo_backend) ''a@b'' ''pw''
      (Some '' dev '') demo_world = (Inr resp, w')" by blast
  from issued_session_is_current [OF demo_backend_ok demo_world_ok disjI2 [OF disjI1 [OF op]]] dev op
  show ?thesis by auto
qed

subsection \<open>Refreshing\<close>

text \<open>What a refresh that succeeds has passed.\<close>

lemma gw_refresh_Inr:
  assumes "gw_refresh gw rpc bl i j e d ty tv w r = (Inr pair, w', r')"
  obtains n where "ask rpc as_version (GetUserTokenVersion i) w = (Inr n, w')" "nullish tv 0 = n"
    "bl (gw_now gw) j e r = (Inr (), r')" "pair = issue_token_pair gw i ty d (Some n)"
  using assms by (auto simp: gw_refresh_def split: prod.splits sum.splits if_splits)

lemma refresh_endpoint_Inr:
  assumes pp: "passport_ok pp"
    and op: "refresh_endpoint gw pp rpc isbl bl token header w r = (Inr pair, w', r')"
  obtains p i j e d where "jwt_verify (gw_jwt gw) (gw_now gw) (gw_refreshSecret gw) token = Inr p"
    "jp_sub p = Some i" "jp_jti p = Some j" "jp_exp p = Some e" "jp_deviceId p = Some d"
    "require_device_id header = Inr d" "isbl (gw_now gw) j r = Inr False"
    "gw_refresh gw rpc bl i j e d (jp_type p) (jp_tv p) w r = (Inr pair, w', r')"
proof -
  from op obtain u where
    g: "can_activate_refresh pp (gw_jwt gw) (gw_refreshSecret gw) (isbl (gw_now gw)) (gw_now gw) token r = Inr u"
    and h: "refresh_handler gw rpc bl u header w r = (Inr pair, w', r')"
    by (auto simp: refresh_endpoint_def split: sum.splits)
  from pp g obtain p j where
    p: "jwt_verify (gw_jwt gw) (gw_now gw) (gw_refreshSecret gw) token = Inr p" "us_payload u = p"
      "jp_sub p = Some (us_userId u)" "jp_jti p = Some j" "isbl (gw_now gw) j r = Inr False"
    by (rule refresh_guard_Inr)
  from h p(2,4) obtain e d where "jp_exp p = Some e" "require_device_id header = Inr d" "jp_deviceId p = Some d"
    "gw_refresh gw rpc bl (us_userId u) j e d (jp_type p) (jp_tv p) w r = (Inr pair, w', r')"
    by (auto simp: refresh_handler_def Let_def split: if_splits sum.splits)
  with p that show ?thesis by blast
qed

text \<open>
  C16: a refresh token is bound to the device that received it. Whoever refreshes must present, in
  the header, the device of the token's own claims, and the new pair is for that device and the
  token's subject.
\<close>

theorem refresh_needs_bound_device:
  assumes "passport_ok pp"
    and "refresh_endpoint gw pp rpc isbl bl token header w r = (Inr pair, w', r')"
  shows "\<exists>p i d ty n. jwt_verify (gw_jwt gw) (gw_now gw) (gw_refreshSecret gw) token = Inr p
    \<and> jp_sub p = Some i \<and> jp_deviceId p = Some d \<and> require_device_id header = Inr d
    \<and> pair = issue_token_pair gw i ty d n"
proof -
  from assms obtain p i j e d where p: "jwt_verify (gw_jwt gw) (gw_now gw) (gw_refreshSecret gw) token = Inr p"
    "jp_sub p = Some i" "jp_jti p = Some j" "jp_exp p = Some e" "jp_deviceId p = Some d"
    "require_device_id header = Inr d" "isbl (gw_now gw) j r = Inr False"
    and rf: "gw_refresh gw rpc bl i j e d (jp_type p) (jp_tv p) w r = (Inr pair, w', r')"
    by (rule refresh_endpoint_Inr)
  from rf obtain n where "pair = issue_token_pair gw i (jp_type p) d (Some n)" by (rule gw_refresh_Inr)
  with p show ?thesis by blast
qed

text \<open>The first refresh of the witnesses.\<close>

abbreviation demo_refresh :: "string \<Rightarrow> millis \<Rightarrow> unit world \<Rightarrow> (string \<Rightarrow> (string \<times> millis) option)
    \<Rightarrow> (exn + token_pair) \<times> unit world \<times> (string \<Rightarrow> (string \<times> millis) option)" where
  "demo_refresh j t \<equiv> refresh_endpoint (demo_gateway j t) demo_passport (user_rpc demo_backend)
     (is_blacklisted demo_redis) (blacklist_refresh_token demo_redis) ''tok'' (Some ''dev'')"

lemma demo_device: "require_device_id (Some ''dev'') = Inr ''dev''"
  by code_simp

lemma demo_version:
  "ask (user_rpc demo_backend) as_version (GetUserTokenVersion ''u'') (demo_world\<lparr>w_calls := k\<rparr>)
    = (Inr 0, demo_world\<lparr>w_calls := Suc k\<rparr>)"
  by (simp add: ask_def user_rpc_def serve_def find_by_id_def demo_defs demo_wire_def demo_world_def
      new_user_def token_version_def)

lemma demo_handler:
  "refresh_handler (demo_gateway j t) (user_rpc demo_backend) (blacklist_refresh_token demo_redis)
      \<lparr>us_payload = demo_claims, us_userId = ''u''\<rparr> (Some ''dev'') (demo_world\<lparr>w_calls := k\<rparr>) r
    = (Inr (issue_token_pair (demo_gateway j t) ''u'' (Some ''user'') ''dev'' (Some 0)),
       demo_world\<lparr>w_calls := Suc k\<rparr>, snd (blacklist_refresh_token demo_redis t ''j1'' 100 r))"
  by (simp add: refresh_handler_def demo_claims_def demo_device gw_refresh_def demo_version
      blacklist_refresh_token_def Let_def)

lemma demo_guard:
  "t < 100000 \<Longrightarrow> can_activate_refresh demo_passport demo_jwt ''R'' (is_blacklisted demo_redis t) t ''tok'' Map.empty
    = Inr \<lparr>us_payload = demo_claims, us_userId = ''u''\<rparr>"
  by (simp add: can_activate_refresh_def demo_passport_def jwt_refresh_validate_def demo_claims_def
      is_blacklisted_def refresh_handle_request_def)

lemma demo_world_calls [simp]: "demo_world\<lparr>w_calls := 0\<rparr> = demo_world"
  by (simp add: demo_world_def)

lemma demo_first_refresh:
  "t < 100000 \<Longrightarrow> demo_refresh j t demo_world Map.empty
    = (Inr (issue_token_pair (demo_gateway j t) ''u'' (Some ''user'') ''dev'' (Some 0)),
       demo_world\<lparr>w_calls := 1\<rparr>, snd (blacklist_refresh_token demo_redis t ''j1'' 100 Map.empty))"
  using demo_handler [of j t 0 Map.empty] by (simp add: refresh_endpoint_def demo_guard)

theorem refresh_needs_bound_device_witness:
  "\<exists>pair w' r' ty n. demo_refresh ''j2'' 10 demo_world Map.empty = (Inr pair, w', r')
     \<and> pair = issue_token_pair (demo_gateway ''j2'' 10) ''u'' ty ''dev'' n"
proof -
  note op = demo_first_refresh [of 10 "''j2''"]
  from refresh_needs_bound_device [OF demo_passport_ok op] show ?thesis
    using op by (auto simp: demo_claims_def)
qed

text \<open>
  Claims that were true of the account when they were signed and may have been overtaken since.
\<close>

definition true_claims :: "'m world \<Rightarrow> jwt_payload \<Rightarrow> bool" where
  "true_claims w p \<longleftrightarrow>
     (\<exists>i a n b k. jp_sub p = Some i \<and> jp_type p = Some (account_type_str a) \<and> jp_tv p = Some n
        \<and> standing w i b k \<and> (n < k \<or> n = k \<and> a = b))"

lemma true_claims_honest: "true_claims w p = identity_service.honest standing w p"
  by (simp add: true_claims_def users.honest_def)

text \<open>
  C17: a rotated session is up to date. Refreshing with a token whose claims were true when they
  were signed yields, if it succeeds, a pair with the type and token version the account has now,
  however many messages the user service has answered in between.
\<close>

theorem refreshed_session_is_current:
  assumes ok: "backend_ok bk" and w: "world_ok bk w" and pp: "passport_ok pp"
    and tok: "jwt_verify (gw_jwt gw) (gw_now gw) (gw_refreshSecret gw) token = Inr p"
    and true: "true_claims w p"
    and op: "refresh_endpoint gw pp (user_rpc bk) isbl bl token header (after_messages bk ms w) r
      = (Inr pair, w', r')"
  shows "\<exists>i a n d. jp_sub p = Some i \<and> require_device_id header = Inr d \<and> standing w' i a n
    \<and> pair = issue_token_pair gw i (Some (account_type_str a)) d (Some n)"
proof -
  from pp op obtain q i j e d where
    q: "jwt_verify (gw_jwt gw) (gw_now gw) (gw_refreshSecret gw) token = Inr q" "jp_sub q = Some i"
      "jp_jti q = Some j" "jp_exp q = Some e" "jp_deviceId q = Some d" "require_device_id header = Inr d" and
    rf: "gw_refresh gw (user_rpc bk) bl i j e d (jp_type q) (jp_tv q) (after_messages bk ms w) r
      = (Inr pair, w', r')"
    by (rule refresh_endpoint_Inr)
  from tok q(1) have "q = p" by simp
  have "world_ok bk (after_messages bk ms w)" using after_messages_keeps [OF ok w] by blast
  moreover have "identity_service.honest standing (after_messages bk ms w) p"
    using users.honest_deliver [OF ok w] true by (simp add: true_claims_honest after_messages_def)
  ultimately obtain a n where "standing w' i a n"
    "pair = issue_token_pair gw i (Some (account_type_str a)) d (Some n)"
    using users.refresh_honest [OF ok _ _ q(2) rf] \<open>q = p\<close> by blast
  with q \<open>q = p\<close> show ?thesis by blast
qed

theorem refreshed_session_is_current_witness:
  "\<exists>pair w' r' a n. demo_refresh ''j2'' 10 (after_messages demo_backend [] demo_world) Map.empty
       = (Inr pair, w', r') \<and> standing w' ''u'' a n
     \<and> pair = issue_token_pair (demo_gateway ''j2'' 10) ''u'' (Some (account_type_str a)) ''dev'' (Some n)"
proof -
  have true: "true_claims demo_world demo_claims"
    unfolding true_claims_def
    by (intro exI [of _ "''u''"] exI [of _ Registered] exI [of _ 0])
      (simp add: demo_claims_def standing_def demo_defs new_user_def token_version_def)
  have op: "demo_refresh ''j2'' 10 (after_messages demo_backend [] demo_world) Map.empty
    = (Inr (issue_token_pair (demo_gateway ''j2'' 10) ''u'' (Some ''user'') ''dev'' (Some 0)),
       demo_world\<lparr>w_calls := 1\<rparr>, snd (blacklist_refresh_token demo_redis 10 ''j1'' 100 Map.empty))"
    by (simp add: demo_first_refresh)
  from refreshed_session_is_current [OF demo_backend_ok demo_world_ok demo_passport_ok _ true op] op
  show ?thesis by (auto simp: demo_claims_def demo_device)
qed

text \<open>
  C18: a refresh token works once. After a refresh that succeeded, no later request with the same
  token succeeds, from whatever device, however the user service's data has changed, and whatever
  other tokens have been blacklisted in between, for as long as the token would have verified.
\<close>

theorem refresh_token_single_use:
  assumes rd: "redis_ok rd" and jwt: "jwt_ok (gw_jwt gw)" and pp: "passport_ok pp"
    and first: "refresh_endpoint gw pp rpc (is_blacklisted rd) (blacklist_refresh_token rd) token header w r
      = (Inr pair, w1, r1)"
    and later: "gw_now gw \<le> gw_now gw2" "gw_jwt gw2 = gw_jwt gw" "gw_refreshSecret gw2 = gw_refreshSecret gw"
    and others: "\<forall>(t, k, e2) \<in> set rs. \<forall>p. jwt_verify (gw_jwt gw) (gw_now gw) (gw_refreshSecret gw) token = Inr p
      \<longrightarrow> jp_jti p = Some k \<longrightarrow> jp_exp p = Some e2"
  shows "\<exists>err. fst (refresh_endpoint gw2 pp rpc2 (is_blacklisted rd) (blacklist_refresh_token rd) token header2 w2
      (revocation_list.revocations (blacklist_refresh_token rd) rs r1)) = Inl err"
proof (rule ccontr)
  assume "\<not> ?thesis"
  then obtain pair2 w3 r3 where second:
    "refresh_endpoint gw2 pp rpc2 (is_blacklisted rd) (blacklist_refresh_token rd) token header2 w2
      (revocation_list.revocations (blacklist_refresh_token rd) rs r1) = (Inr pair2, w3, r3)"
    by (metis obj_sumE prod.collapse)
  from pp first obtain p i j e d where
    p: "jwt_verify (gw_jwt gw) (gw_now gw) (gw_refreshSecret gw) token = Inr p"
      "jp_jti p = Some j" "jp_exp p = Some e" and
    rf: "gw_refresh gw rpc (blacklist_refresh_token rd) i j e d (jp_type p) (jp_tv p) w r = (Inr pair, w1, r1)"
    by (rule refresh_endpoint_Inr) blast
  from rf have bl: "blacklist_refresh_token rd (gw_now gw) j e r = (Inr (), r1)"
    by (rule gw_refresh_Inr)
  have "gw_now gw < e * 1000" by (rule jwt_okD(2) [OF jwt p(1,3)])
  from blacklist.revoke_covered [OF rd bl this] have "blacklist.covered rd j e r1" .
  then have "blacklist.covered rd j e (revocation_list.revocations (blacklist_refresh_token rd) rs r1)"
    using others p by (intro blacklist.covered_along [OF rd]) auto
  from blacklist.covered_refuses [OF rd this] have
    no: "refuses (is_blacklisted rd) t j e (revocation_list.revocations (blacklist_refresh_token rd) rs r1)" for t .
  from pp second obtain p2 i2 j2 e2 d2 where
    p2: "jwt_verify (gw_jwt gw2) (gw_now gw2) (gw_refreshSecret gw2) token = Inr p2" "jp_jti p2 = Some j2"
      "jp_exp p2 = Some e2"
      "is_blacklisted rd (gw_now gw2) j2 (revocation_list.revocations (blacklist_refresh_token rd) rs r1) = Inr False"
    by (rule refresh_endpoint_Inr) blast
  have "p2 = p" using jwt_okD(3) [OF jwt p(1)] p2(1) later by simp
  moreover have "gw_now gw2 < e * 1000"
    using jwt_okD(2) [OF jwt] p2(1,3) later p(3) \<open>p2 = p\<close> by simp
  ultimately show False
    using no [of "gw_now gw2"] p2 p(2) by (auto simp: refuses_def)
qed

theorem refresh_token_single_use_witness:
  "\<exists>w1 r1 err. fst (demo_refresh ''j2'' 10 demo_world Map.empty) \<in> range Inr
     \<and> snd (demo_refresh ''j2'' 10 demo_world Map.empty) = (w1, r1)
     \<and> fst (demo_refresh ''j3'' 20 w1 r1) = Inl err"
proof -
  let ?r1 = "snd (blacklist_refresh_token demo_redis 10 ''j1'' 100 Map.empty)"
  have op: "demo_refresh ''j2'' 10 demo_world Map.empty
    = (Inr (issue_token_pair (demo_gateway ''j2'' 10) ''u'' (Some ''user'') ''dev'' (Some 0)),
       demo_world\<lparr>w_calls := 1\<rparr>, ?r1)"
    by (simp add: demo_first_refresh)
  have jwt: "jwt_ok (gw_jwt (demo_gateway ''j2'' 10))" by (simp add: demo_jwt_ok)
  have "\<exists>err. fst (demo_refresh ''j3'' 20 (demo_world\<lparr>w_calls := 1\<rparr>)
      (revocation_list.revocations (blacklist_refresh_token demo_redis) [] ?r1)) = Inl err"
    by (rule refresh_token_single_use [OF demo_redis_ok jwt demo_passport_ok op]) simp_all
  then show ?thesis using op by (auto simp: blacklist.revocations.simps)
qed

text \<open>
  Two requests at the same time defeat it. The blacklist is read by the guard and written by the
  handler, with nothing in between: when both requests have passed their guards before either handler
  runs, both are given a new pair for the one token.
\<close>

theorem concurrent_refreshes_both_succeed:
  "\<exists>u1 u2 pair1 pair2 w1 r1 w2 r2.
     can_activate_refresh demo_passport demo_jwt ''R'' (is_blacklisted demo_redis 10) 10 ''tok'' Map.empty = Inr u1
     \<and> can_activate_refresh demo_passport demo_jwt ''R'' (is_blacklisted demo_redis 11) 11 ''tok'' Map.empty = Inr u2
     \<and> refresh_handler (demo_gateway ''j2'' 12) (user_rpc demo_backend) (blacklist_refresh_token demo_redis)
         u1 (Some ''dev'') demo_world Map.empty = (Inr pair1, w1, r1)
     \<and> refresh_handler (demo_gateway ''j3'' 13) (user_rpc demo_backend) (blacklist_refresh_token demo_redis)
         u2 (Some ''dev'') w1 r1 = (Inr pair2, w2, r2)
     \<and> is_blacklisted demo_redis 13 ''j1'' r1 = Inr True"
proof -
  let ?u = "\<lparr>us_payload = demo_claims, us_userId = ''u''\<rparr>"
  let ?r1 = "snd (blacklist_refresh_token demo_redis 12 ''j1'' 100 Map.empty)"
  have "is_blacklisted demo_redis 13 ''j1'' ?r1 = Inr True"
    by (simp add: is_blacklisted_def blacklist_refresh_token_def Let_def)
  then show ?thesis
    using demo_guard [of 10] demo_guard [of 11] demo_handler [of "''j2''" 12 0 Map.empty]
      demo_handler [of "''j3''" 13 "Suc 0" ?r1]
    by auto
qed

subsection \<open>Revoking\<close>

text \<open>
  C19: an upgrade revokes the anonymous sessions of the account. After it, every refresh with a token
  version up to the one the account had is refused without touching the blacklist, whatever messages
  the user service has handled since; and the response's own pair is the account's current one.
\<close>

theorem upgrade_revokes_old_sessions:
  assumes ok: "backend_ok bk" and w: "world_ok bk w" and st: "standing w i a n"
    and op: "upgrade_endpoint gw (user_rpc bk) verify i dto header ua w net = (Inr resp, w', net')"
    and tv: "m \<le> n"
  shows "(\<exists>d. require_device_id header = Inr d \<and> current_session gw d w' resp)
    \<and> (\<exists>err w2. gw_refresh gw2 (user_rpc bk) bl i j e d ty (Some m) (after_messages bk ms w') r = (Inl err, w2, r))"
proof -
  from op obtain dev pid u where
    dev: "require_device_id header = Inr dev" and
    up: "ask (user_rpc bk) as_user (UpgradeUserAccount i (Some (method_of (ud_method dto))) (ud_email dto)
           (ud_password dto) (ud_name dto) pid) w = (Inr u, w')" and
    resp: "resp = \<lparr>au_tokens = issue_token_pair gw i (Some (account_type_str Registered)) dev (u_tokenVersion u),
             au_userId = i, au_accountType = account_type_str Registered\<rparr>"
    by (auto simp: upgrade_endpoint_def gw_upgrade_def split: sum.splits prod.splits if_splits)
  note rpc = ask_reply(3) [OF up]
  from users.upgrade_reply [OF ok w st rpc] obtain k where
    k: "u_tokenVersion u = Some k" "n < k" "standing w' i Registered k" by blast
  have "world_ok bk w'" by (rule user_rpc_step(1) [OF ok w rpc])
  with users.overtaken_refresh_fails [OF ok _ k(3), of m] k(2) tv
  have "\<exists>err w2. gw_refresh gw2 (user_rpc bk) bl i j e d ty (Some m) (after_messages bk ms w') r = (Inl err, w2, r)"
    by (simp add: after_messages_def)
  moreover have "current_session gw dev w' resp"
    using issued_session [OF k(3), of gw dev] resp k(1) by simp
  ultimately show ?thesis using dev by blast
qed

definition demo_upgrade_dto :: upgrade_dto where
  "demo_upgrade_dto =
     \<lparr>ud_method = ''email'', ud_email = Some ''n@b'', ud_password = Some ''pw2'', ud_name = None,
      ud_oauthToken = None\<rparr>"

lemma demo_anon_standing: "standing demo_world ''n'' Autoreg 0"
  by (simp add: standing_def demo_defs new_user_def token_version_def)

theorem upgrade_revokes_old_sessions_witness:
  "\<exists>resp w'. upgrade_endpoint (demo_gateway ''j1'' 5) (user_rpc demo_backend)
       (run_verifier (\<lambda>q k. (Inl [], k)) (\<lambda>_. False) (\<lambda>_. None) \<lparr>vk_androidId = None, vk_iosId = None, vk_publicInfoUrl = None,
          vk_userInfoUrl = None\<rparr> None) ''n'' demo_upgrade_dto (Some ''dev'') None demo_world () = (Inr resp, w', ())
     \<and> (\<exists>err w2. gw_refresh (demo_gateway ''j2'' 10) (user_rpc demo_backend) (blacklist_refresh_token demo_redis)
          ''n'' ''j0'' 100 ''dev'' (Some ''autoreg'') (Some 0) w' Map.empty = (Inl err, w2, Map.empty))"
proof -
  let ?vf = "run_verifier (\<lambda>q k. (Inl [], k)) (\<lambda>_. False) (\<lambda>_. None) \<lparr>vk_androidId = None, vk_iosId = None,
      vk_publicInfoUrl = None, vk_userInfoUrl = None\<rparr> None"
  have "\<exists>resp w'. upgrade_endpoint (demo_gateway ''j1'' 5) (user_rpc demo_backend) ?vf ''n'' demo_upgrade_dto
      (Some ''dev'') None demo_world () = (Inr resp, w', ())"
    by (simp add: upgrade_endpoint_def demo_device gw_upgrade_def demo_upgrade_dto_def ask_def user_rpc_def
        serve_def lift_reply_def method_of_def upgrade_account_def find_by_id_def attach_identity_def
        attach_email_def demo_defs new_user_def put_by_def demo_wire_def Let_def)
  then obtain resp w' where op: "upgrade_endpoint (demo_gateway ''j1'' 5) (user_rpc demo_backend) ?vf ''n''
      demo_upgrade_dto (Some ''dev'') None demo_world () = (Inr resp, w', ())" by blast
  from upgrade_revokes_old_sessions [OF demo_backend_ok demo_world_ok demo_anon_standing op order_refl,
      of "demo_gateway ''j2'' 10" "blacklist_refresh_token demo_redis" "''j0''" 100 "''dev''" "Some ''autoreg''"
      "[]" Map.empty] op
  show ?thesis by auto
qed

text \<open>A deleted account stays deleted, and the user service tells nobody its token version.\<close>

lemma deleted_stays:
  assumes "evolves s s'" and "u \<in> set (users s)" and "u_deletedAt u \<noteq> None"
  shows "u \<in> set (users s')"
  using assms by (fastforce simp: evolves_def advances_def live_def)

lemma deleted_refresh_fails:
  assumes ok: "backend_ok bk" and w: "world_ok bk w" and u: "u \<in> set (users (w_db w))" "u_deletedAt u \<noteq> None"
  shows "\<exists>err w'. gw_refresh gw (user_rpc bk) bl (u_id u) j e d ty tv w r = (Inl err, w', r)"
proof -
  obtain q w' where ask: "ask (user_rpc bk) as_version (GetUserTokenVersion (u_id u)) w = (q, w')"
    by (rule prod.exhaust)
  show ?thesis
  proof (cases q)
    case (Inl e)
    with ask show ?thesis by (simp add: gw_refresh_def)
  next
    case (Inr n)
    have drv: "driver_ok (bk_driver bk)" using ok by (simp add: backend_ok_def)
    from user_rpc_reply [OF ok ask_reply(4) [OF ask [unfolded Inr]]] obtain v where
      v: "find_by_id (bk_driver bk) (bk_env bk (w_calls w)) (u_id u) (w_db w) = Inr v" by auto
    note byid = find_by_id_Inr [OF drv v]
    have "u_id v = u_id u"
      using byid(3) world_okD(2) [OF w] u(1) by (auto simp: fresh_ids_def)
    then have "v = u" by (rule user_by_id [OF world_okD(3) [OF w] byid(1) u(1)])
    with byid(2) u(2) show ?thesis by (simp add: live_def)
  qed
qed

text \<open>
  C20: deleting an account ends its sessions for good. Once \<open>DELETE /v1/users/me\<close> has been answered
  with success, no refresh for the account succeeds any more, with any token version and after any
  later messages.
\<close>

theorem deleted_account_cannot_refresh:
  assumes ok: "backend_ok bk" and w: "world_ok bk w" and st: "standing w i a n"
    and op: "user_rpc bk (DeleteUser i) w = (Inr SuccessReply, w')"
  shows "\<exists>err w2. gw_refresh gw (user_rpc bk) bl i j e d ty tv (after_messages bk ms w') r = (Inl err, w2, r)"
proof -
  have drv: "driver_ok (bk_driver bk)" using ok by (simp add: backend_ok_def)
  from user_rpc_reply [OF ok op] have
    "delete_user (bk_driver bk) (bk_env bk (w_calls w)) i (w_db w) = (Inr (), w_db w')"
    by (auto dest!: lift_reply_state)
  from drv world_okD(3) [OF w] this obtain u where
    u: "find_by_id (bk_driver bk) (bk_env bk (w_calls w)) i (w_db w) = Inr u" and
    s': "set (users (w_db w')) = insert (touch_user (ce_now (bk_env bk (w_calls w)))
      (deleted_user (ce_now (bk_env bk (w_calls w))) u)) (set (users (w_db w)) - {u})"
    by (rule delete_user_writes) blast
  let ?dead = "touch_user (ce_now (bk_env bk (w_calls w))) (deleted_user (ce_now (bk_env bk (w_calls w))) u)"
  have "u_id u = i"
    using find_by_id_Inr(3) [OF drv u] st world_okD(2) [OF w] by (auto simp: standing_def fresh_ids_def)
  then have dead: "?dead \<in> set (users (w_db w'))" "u_id ?dead = i" "u_deletedAt ?dead \<noteq> None"
    using s' by simp_all
  have w': "world_ok bk w'" by (rule user_rpc_step(1) [OF ok w op])
  note later = after_messages_keeps [OF ok w', of ms]
  have "?dead \<in> set (users (w_db (after_messages bk ms w')))"
    using later dead by (blast intro: deleted_stays)
  from deleted_refresh_fails [OF ok _ this dead(3)] later dead(2) show ?thesis by simp
qed

theorem deleted_account_cannot_refresh_witness:
  "\<exists>w' err w2. user_rpc demo_backend (DeleteUser ''n'') demo_world = (Inr SuccessReply, w')
     \<and> gw_refresh (demo_gateway ''j2'' 10) (user_rpc demo_backend) (blacklist_refresh_token demo_redis)
          ''n'' ''j0'' 100 ''dev'' (Some ''autoreg'') (Some 0) (after_messages demo_backend [] w') Map.empty
        = (Inl err, w2, Map.empty)"
proof -
  have "\<exists>w'. user_rpc demo_backend (DeleteUser ''n'') demo_world = (Inr SuccessReply, w')"
    using demo_delete by (simp add: user_rpc_def serve_def lift_reply_def demo_wire_def)
  then obtain w' where op: "user_rpc demo_backend (DeleteUser ''n'') demo_world = (Inr SuccessReply, w')" by blast
  from deleted_account_cannot_refresh [OF demo_backend_ok demo_world_ok demo_anon_standing op,
      of "demo_gateway ''j2'' 10" "blacklist_refresh_token demo_redis" "''j0''" 100 "''dev''" "Some ''autoreg''"
      "Some 0" "[]" Map.empty] op
  show ?thesis by auto
qed

text \<open>
  A log-out that reports success need not have revoked anything. The handler swallows a failure
  of the blacklist: the request is answered with success, and the token is accepted by the next
  refresh guard as before.
\<close>

theorem logout_success_is_not_revocation:
  assumes down: "blacklist_refresh_token rd (gw_now gw) j e r = (Inl err, r)"
    and tok: "jwt_verify (gw_jwt gw) (gw_now gw) (gw_refreshSecret gw) token = Inr p"
      "jp_jti p = Some j" "jp_exp p = Some e"
    and before: "can_activate_refresh pp (gw_jwt gw) (gw_refreshSecret gw) (is_blacklisted rd t) t token r = Inr u"
  shows "\<exists>r'. gw_logout gw (blacklist_refresh_token rd) token r = (Inr (), r')
    \<and> can_activate_refresh pp (gw_jwt gw) (gw_refreshSecret gw) (is_blacklisted rd t) t token r' = Inr u"
  using assms by (auto simp: gw_logout_def)

definition failing_redis :: "(string \<Rightarrow> (string \<times> millis) option) redis" where
  "failing_redis = demo_redis\<lparr>rd_set := (\<lambda>now k v ttl r. (Inl (plain_error ''ETIMEDOUT''), r))\<rparr>"

theorem logout_success_is_not_revocation_witness:
  "\<exists>r' u. gw_logout (demo_gateway ''j1'' 5) (blacklist_refresh_token failing_redis) ''tok'' Map.empty = (Inr (), r')
     \<and> can_activate_refresh demo_passport demo_jwt ''R'' (is_blacklisted failing_redis 6) 6 ''tok'' r' = Inr u"
proof -
  let ?gw = "demo_gateway ''j1'' 5"
  have get: "is_blacklisted failing_redis 6 = is_blacklisted demo_redis 6"
    by (simp add: fun_eq_iff is_blacklisted_def failing_redis_def demo_redis_def)
  have down: "blacklist_refresh_token failing_redis (gw_now ?gw) ''j1'' 100 Map.empty
    = (Inl (plain_error ''ETIMEDOUT''), Map.empty)"
    by (simp add: blacklist_refresh_token_def failing_redis_def)
  have tok: "jwt_verify (gw_jwt ?gw) (gw_now ?gw) (gw_refreshSecret ?gw) ''tok'' = Inr demo_claims"
    "jp_jti demo_claims = Some ''j1''" "jp_exp demo_claims = Some 100"
    by (simp_all add: demo_claims_def)
  have "can_activate_refresh demo_passport (gw_jwt ?gw) (gw_refreshSecret ?gw) (is_blacklisted failing_redis 6) 6
      ''tok'' Map.empty = Inr \<lparr>us_payload = demo_claims, us_userId = ''u''\<rparr>"
    using demo_guard [of 6] by (simp add: get)
  from logout_success_is_not_revocation [OF down tok this] show ?thesis by auto
qed

text \<open>
  An outage of the blacklist looks like a bad token. The store fails closed with a 503 that its
  comment promises to the client, but the refresh guard turns every error into the 401
  \<open>token_invalid\<close> on which the client throws its tokens away.
\<close>

theorem blacklist_outage_masked_as_401:
  assumes pp: "passport_ok pp"
    and tok: "jwt_verify (gw_jwt gw) (gw_now gw) (gw_refreshSecret gw) token = Inr p"
      "truthy (jp_sub p)" "jp_jti p = Some j" "j \<noteq> []" "truthy (jp_deviceId p)"
    and down: "rd_get rd (gw_now gw) (KEY_PREFIX @ j) r = Inl err"
  shows "is_blacklisted rd (gw_now gw) j r = Inl auth_store_unavailable
    \<and> http_status auth_store_unavailable = Some (JNum 503)
    \<and> (\<exists>e. refresh_endpoint gw pp rpc (is_blacklisted rd) bl token header w r = (Inl e, w, r)
         \<and> http_status e = Some (JNum 401))"
proof -
  have bl: "is_blacklisted rd (gw_now gw) j r = Inl auth_store_unavailable"
    using down by (simp add: is_blacklisted_def)
  then have "can_activate_refresh pp (gw_jwt gw) (gw_refreshSecret gw) (is_blacklisted rd (gw_now gw))
      (gw_now gw) token r = Inl (unauthorized TOKEN_INVALID ''Invalid or expired refresh token'')"
    using pp tok
    by (auto simp: can_activate_refresh_def passport_ok_def jwt_refresh_validate_def
        refresh_handle_request_def)
  with bl show ?thesis
    by (simp add: refresh_endpoint_def auth_store_unavailable_def http_exns)
qed

definition silent_redis :: "(string \<Rightarrow> (string \<times> millis) option) redis" where
  "silent_redis = demo_redis\<lparr>rd_get := (\<lambda>now k r. Inl (plain_error ''ECONNREFUSED''))\<rparr>"

theorem blacklist_outage_masked_as_401_witness:
  "\<exists>e. refresh_endpoint (demo_gateway ''j2'' 10) demo_passport (user_rpc demo_backend) (is_blacklisted silent_redis)
       (blacklist_refresh_token silent_redis) ''tok'' (Some ''dev'') demo_world Map.empty
     = (Inl e, demo_world, Map.empty) \<and> http_status e = Some (JNum 401)"
proof -
  have tok: "jwt_verify (gw_jwt (demo_gateway ''j2'' 10)) (gw_now (demo_gateway ''j2'' 10))
      (gw_refreshSecret (demo_gateway ''j2'' 10)) ''tok'' = Inr demo_claims" by simp
  have down: "rd_get silent_redis (gw_now (demo_gateway ''j2'' 10)) (KEY_PREFIX @ ''j1'') Map.empty
      = Inl (plain_error ''ECONNREFUSED'')"
    by (simp add: silent_redis_def)
  have c: "truthy (jp_sub demo_claims)" "jp_jti demo_claims = Some ''j1''" "''j1'' \<noteq> []"
    "truthy (jp_deviceId demo_claims)"
    by (simp_all add: demo_claims_def)
  show ?thesis
    by (rule blacklist_outage_masked_as_401 [OF demo_passport_ok tok c down, THEN conjunct2, THEN conjunct2])
qed

text \<open>
  C21: what tells the two kinds of token apart. An access token never opens the refresh guard, under
  whatever secret it verifies: its claims name no token id. A refresh token opens the access guard only
  under the secret it was signed with, and then for its own account; but there it does open it as soon as
  the library verifies it, since it carries the same account type. So only different secrets, which
  nothing in the configuration demands, keep refresh tokens out. What the access guard lets through is a
  verified token for some account, of one of the two account types.
\<close>

theorem token_kinds_told_apart:
  assumes jwt: "jwt_ok (gw_jwt gw)" and pp: "passport_ok pp" and i: "i \<noteq> []"
    and pair: "pair = issue_token_pair gw i (Some (account_type_str a)) d n"
  shows "can_activate_refresh pp (gw_jwt gw) secret isbl t (tp_accessToken pair) r \<noteq> Inr u
    \<and> (can_activate_access pp (gw_jwt gw) secret t False (tp_refreshToken pair) = Inr (Some u) \<longrightarrow>
         secret = gw_refreshSecret gw \<and> us_userId u = i)
    \<and> (jwt_verify (gw_jwt gw) t secret (tp_refreshToken pair) = Inr p \<longrightarrow>
         can_activate_access pp (gw_jwt gw) secret t False (tp_refreshToken pair)
           = Inr (Some \<lparr>us_payload = p, us_userId = i\<rparr>))
    \<and> (can_activate_access pp (gw_jwt gw) secret t False token = Inr (Some u) \<longrightarrow>
         (\<exists>p a. jwt_verify (gw_jwt gw) t secret token = Inr p \<and> us_payload u = p
            \<and> jp_sub p = Some (us_userId u) \<and> jp_type p = Some (account_type_str a)))"
proof (intro conjI notI impI)
  assume "can_activate_refresh pp (gw_jwt gw) secret isbl t (tp_accessToken pair) r = Inr u"
  with pp obtain p j where "jwt_verify (gw_jwt gw) t secret (tp_accessToken pair) = Inr p" "jp_jti p = Some j"
    by (rule refresh_guard_Inr)
  with jwt_okD(1) [OF jwt] pair show False
    by (fastforce simp: issue_token_pair_def same_claims_def access_claims_def)
next
  assume "can_activate_access pp (gw_jwt gw) secret t False (tp_refreshToken pair) = Inr (Some u)"
  with pp obtain p where p: "jwt_verify (gw_jwt gw) t secret (tp_refreshToken pair) = Inr p"
    "jp_sub p = Some (us_userId u)" by (rule access_guard_Inr)
  with jwt_okD(1) [OF jwt] pair show "secret = gw_refreshSecret gw" and "us_userId u = i"
    by (fastforce simp: issue_token_pair_def same_claims_def refresh_claims_def)+
next
  assume p: "jwt_verify (gw_jwt gw) t secret (tp_refreshToken pair) = Inr p"
  with jwt_okD(1) [OF jwt] pair have "jp_sub p = Some i" "jp_type p = Some (account_type_str a)"
    by (fastforce simp: issue_token_pair_def same_claims_def refresh_claims_def)+
  then have "jwt_access_validate p = Inr \<lparr>us_payload = p, us_userId = i\<rparr>"
    using i by (cases a) (simp_all add: jwt_access_validate_def)
  with p pp show "can_activate_access pp (gw_jwt gw) secret t False (tp_refreshToken pair)
      = Inr (Some \<lparr>us_payload = p, us_userId = i\<rparr>)"
    by (simp add: can_activate_access_def passport_ok_def access_handle_request_def)
next
  assume "can_activate_access pp (gw_jwt gw) secret t False token = Inr (Some u)"
  with pp show "\<exists>p a. jwt_verify (gw_jwt gw) t secret token = Inr p \<and> us_payload u = p
      \<and> jp_sub p = Some (us_userId u) \<and> jp_type p = Some (account_type_str a)"
    by (rule access_guard_Inr) blast
qed

theorem token_kinds_told_apart_witness:
  "tp_refreshToken (issue_token_pair (demo_gateway ''j1'' 5) ''u'' (Some ''user'') ''dev'' (Some 0)) = ''tok''
   \<and> (\<forall>u. can_activate_access demo_passport demo_jwt ''A'' 6 False ''tok'' \<noteq> Inr (Some u))
   \<and> can_activate_access demo_passport demo_jwt ''R'' 6 False ''tok''
       = Inr (Some \<lparr>us_payload = demo_claims, us_userId = ''u''\<rparr>)"
proof -
  let ?gw = "demo_gateway ''j1'' 5" and ?pair = "issue_token_pair (demo_gateway ''j1'' 5) ''u'' (Some (account_type_str Registered)) ''dev'' (Some 0)"
  have tok: "tp_refreshToken ?pair = ''tok''"
    by (simp add: issue_token_pair_def same_claims_def demo_claims_def refresh_claims_def)
  have "jwt_ok (gw_jwt ?gw)" "''u'' \<noteq> []" by (simp_all add: demo_jwt_ok)
  note apart = token_kinds_told_apart [OF this(1) demo_passport_ok this(2) refl, where a = Registered and d = "''dev''"
      and n = "Some 0" and t = 6]
  have "can_activate_access demo_passport demo_jwt ''A'' 6 False ''tok'' \<noteq> Inr (Some u)" for u
    using apart [where secret = "''A''", THEN conjunct2, THEN conjunct1] tok by auto
  moreover have "can_activate_access demo_passport demo_jwt ''R'' 6 False ''tok''
      = Inr (Some \<lparr>us_payload = demo_claims, us_userId = ''u''\<rparr>)"
    using apart [where secret = "''R''" and p = demo_claims, THEN conjunct2, THEN conjunct2, THEN conjunct1] tok by simp
  ultimately show ?thesis using tok by simp
qed

end
