(* ===== verification/User_Purge.thy ===== *)
theory User_Purge
  imports Mem_Store Users_Properties
begin

section \<open>The purge of soft-deleted users\<close>

text \<open>
  \<open>tasks/user-purge/src/task.service.ts\<close>: the daily sweep that removes accounts past the grace
  window, devices first. \<open>sub_days\<close> stands for \<open>subDays\<close> of date-fns, which is not part of the
  repository. The exception of a victim is caught by the loop, so the loop threads the store through.
\<close>

definition GRACE_DAYS :: int where "GRACE_DAYS = 30"

definition purge_user :: "driver \<Rightarrow> oid \<Rightarrow> db \<Rightarrow> (exn + unit) \<times> db" where
  "purge_user drv userId s =
     (case delete_devices drv [DeviceUserIs userId] s of
        (Inl e, s1) \<Rightarrow> (Inl e, s1)
      | (Inr (), s1) \<Rightarrow> delete_users drv [UserIdIs userId] s1)"

fun purge_victims :: "driver \<Rightarrow> user list \<Rightarrow> nat \<Rightarrow> db \<Rightarrow> nat \<times> db" where
  "purge_victims drv [] purged s = (purged, s)"
| "purge_victims drv (victim # victims) purged s =
     (case purge_user drv (u_id victim) s of
        (Inr (), s1) \<Rightarrow> purge_victims drv victims (purged + 1) s1
      | (Inl err, s1) \<Rightarrow> purge_victims drv victims purged s1)"

definition run_purge :: "(millis \<Rightarrow> int \<Rightarrow> millis) \<Rightarrow> driver \<Rightarrow> millis \<Rightarrow> db \<Rightarrow> (exn + nat) \<times> db" where
  "run_purge sub_days drv now s =
     (let cutoff = sub_days now GRACE_DAYS in
      case find_users drv s [DeletedBefore cutoff] of
        Inl e \<Rightarrow> (Inl e, s)
      | Inr victims \<Rightarrow>
          if victims = [] then (Inr 0, s)
          else let (purged, s') = purge_victims drv victims 0 s in (Inr purged, s'))"

subsection \<open>What a purge may remove\<close>

text \<open>
  From \<open>s\<close> to \<open>s'\<close> only users and devices went, only those \<open>V\<close> allows, and a user only when
  no device of it is left.
\<close>

definition purged_within :: "oid set \<Rightarrow> db \<Rightarrow> db \<Rightarrow> bool" where
  "purged_within V s s' \<longleftrightarrow>
     set (users s') \<subseteq> set (users s) \<and> set (devices s') \<subseteq> set (devices s) \<and> outbox s' = outbox s
     \<and> (\<forall>u \<in> set (users s). u_id u \<notin> V \<longrightarrow> u \<in> set (users s'))
     \<and> (\<forall>d \<in> set (devices s). d_userId d \<notin> V \<longrightarrow> d \<in> set (devices s'))
     \<and> (\<forall>u \<in> set (users s) - set (users s'). \<forall>d \<in> set (devices s'). d_userId d \<noteq> u_id u)"

lemma purged_withinD:
  assumes "purged_within V s s'"
  shows "set (users s') \<subseteq> set (users s)" and "set (devices s') \<subseteq> set (devices s)" and "outbox s' = outbox s"
    and "u \<in> set (users s) \<Longrightarrow> u_id u \<notin> V \<Longrightarrow> u \<in> set (users s')"
    and "d \<in> set (devices s) \<Longrightarrow> d_userId d \<notin> V \<Longrightarrow> d \<in> set (devices s')"
    and "u \<in> set (users s) \<Longrightarrow> u \<notin> set (users s') \<Longrightarrow> d \<in> set (devices s') \<Longrightarrow> d_userId d \<noteq> u_id u"
  using assms by (simp_all add: purged_within_def)

lemma purged_withinI:
  assumes "set (users s') \<subseteq> set (users s)" and "set (devices s') \<subseteq> set (devices s)" and "outbox s' = outbox s"
    and "\<And>u. u \<in> set (users s) \<Longrightarrow> u_id u \<notin> V \<Longrightarrow> u \<in> set (users s')"
    and "\<And>d. d \<in> set (devices s) \<Longrightarrow> d_userId d \<notin> V \<Longrightarrow> d \<in> set (devices s')"
    and "\<And>u d. u \<in> set (users s) \<Longrightarrow> u \<notin> set (users s') \<Longrightarrow> d \<in> set (devices s') \<Longrightarrow> d_userId d \<noteq> u_id u"
  shows "purged_within V s s'"
  using assms by (simp add: purged_within_def)

lemma purged_within_refl: "purged_within V s s"
  by (simp add: purged_within_def)

lemma purged_within_trans:
  assumes "purged_within V s t" and "purged_within W t r" and "V \<subseteq> U" and "W \<subseteq> U"
  shows "purged_within U s r"
proof -
  note D = purged_withinD [OF assms(1)] and E = purged_withinD [OF assms(2)]
  show ?thesis
  proof (rule purged_withinI)
    show "set (users r) \<subseteq> set (users s)" "set (devices r) \<subseteq> set (devices s)" "outbox r = outbox s"
      using D(1-3) E(1-3) by auto
  next
    fix u
    assume "u \<in> set (users s)" and "u_id u \<notin> U"
    then show "u \<in> set (users r)" using D(4) E(4) assms(3,4) by blast
  next
    fix d
    assume "d \<in> set (devices s)" and "d_userId d \<notin> U"
    then show "d \<in> set (devices r)" using D(5) E(5) assms(3,4) by blast
  next
    fix u d
    assume u: "u \<in> set (users s)" "u \<notin> set (users r)" and d: "d \<in> set (devices r)"
    show "d_userId d \<noteq> u_id u"
    proof (cases "u \<in> set (users t)")
      case True
      with E(6) u d show ?thesis by blast
    next
      case False
      with D(6) E(2) u d show ?thesis by blast
    qed
  qed
qed

lemma purge_user_within:
  assumes ok: "driver_ok drv" and op: "purge_user drv i s = (r, s')"
  shows "purged_within {i} s s'"
    and "r = Inr () \<Longrightarrow> (\<forall>u \<in> set (users s'). u_id u \<noteq> i) \<and> (\<forall>d \<in> set (devices s'). d_userId d \<noteq> i)"
proof -
  obtain q s1 where d: "delete_devices drv [DeviceUserIs i] s = (q, s1)" by fastforce
  from delete_devices_any [OF ok d] obtain ds where s1: "s1 = s\<lparr>devices := ds\<rparr>"
    and ds: "prunes (sat device_matches [DeviceUserIs i]) (q = Inr ()) (devices s) ds" by blast
  have "purged_within {i} s s' \<and> (r = Inr () \<longrightarrow>
      (\<forall>u \<in> set (users s'). u_id u \<noteq> i) \<and> (\<forall>d \<in> set (devices s'). d_userId d \<noteq> i))"
  proof (cases q)
    case (Inl e)
    with op d s1 prunes_subset [OF ds] prunes_keeps [OF ds] show ?thesis
      by (auto simp: purge_user_def purged_within_def)
  next
    case (Inr x)
    with op d have u: "delete_users drv [UserIdIs i] s1 = (r, s')" by (simp add: purge_user_def)
    from delete_users_any [OF ok u] obtain us where s': "s' = s1\<lparr>users := us\<rparr>"
      and us: "prunes (sat user_matches [UserIdIs i]) (r = Inr ()) (users s1) us" by blast
    from ds Inr have gone: "\<forall>d \<in> set ds. d_userId d \<noteq> i"
      using prunes_all [of "sat device_matches [DeviceUserIs i]" "devices s" ds] by auto
    have "purged_within {i} s s'"
      using s1 s' prunes_subset [OF ds] prunes_keeps [OF ds] prunes_subset [OF us] prunes_keeps [OF us] gone
      by (auto simp: purged_within_def)
    moreover have "\<forall>u \<in> set (users s'). u_id u \<noteq> i" if "r = Inr ()"
      using us that s' s1 prunes_all [of "sat user_matches [UserIdIs i]" "users s" us] by auto
    ultimately show ?thesis using gone s' s1 by auto
  qed
  then show "purged_within {i} s s'"
    and "r = Inr () \<Longrightarrow> (\<forall>u \<in> set (users s'). u_id u \<noteq> i) \<and> (\<forall>d \<in> set (devices s'). d_userId d \<noteq> i)"
    by blast+
qed

lemma purge_victims_within:
  assumes ok: "driver_ok drv"
  shows "purge_victims drv vs n s = (m, s') \<Longrightarrow>
     purged_within (u_id ` set vs) s s' \<and> n \<le> m \<and> m \<le> n + length vs
     \<and> (m = n + length vs \<longrightarrow> (\<forall>u \<in> set (users s'). u_id u \<notin> u_id ` set vs))"
proof (induction vs arbitrary: n s)
  case (Cons v vs)
  obtain r s1 where p: "purge_user drv (u_id v) s = (r, s1)" by fastforce
  let ?n = "if r = Inr () then n + 1 else n"
  from Cons.prems p have "purge_victims drv vs ?n s1 = (m, s')" by (cases r) auto
  note IH = Cons.IH [OF this]
  note head = purge_user_within [OF ok p]
  have "purged_within (u_id ` set (v # vs)) s s'"
    by (rule purged_within_trans [OF head(1) conjunct1 [OF IH]]) auto
  moreover have "u_id u \<notin> u_id ` set (v # vs)"
    if "m = n + length (v # vs)" "u \<in> set (users s')" for u
  proof -
    from that(1) IH have "r = Inr ()" by (cases "r = Inr ()") auto
    with that IH head(2) show ?thesis by (auto simp: purged_within_def)
  qed
  ultimately show ?case using IH by (auto split: if_splits)
qed (simp add: purged_within_refl)

definition past_grace :: "millis \<Rightarrow> user \<Rightarrow> bool" where
  "past_grace cutoff u \<longleftrightarrow> (\<exists>t. u_deletedAt u = Some t \<and> t < cutoff)"

lemma run_purge_effect:
  assumes ok: "driver_ok drv" and un: "db_unique s" and op: "run_purge sub_days drv now s = (r, s')"
  shows "set (users s') \<subseteq> set (users s) \<and> set (devices s') \<subseteq> set (devices s) \<and> outbox s' = outbox s
    \<and> (\<forall>u \<in> set (users s). \<not> past_grace (sub_days now GRACE_DAYS) u \<longrightarrow> u \<in> set (users s')
         \<and> (\<forall>d \<in> set (devices s). d_userId d = u_id u \<longrightarrow> d \<in> set (devices s')))
    \<and> (\<forall>u \<in> set (users s) - set (users s'). \<forall>d \<in> set (devices s'). d_userId d \<noteq> u_id u)
    \<and> (r = Inr (card {u \<in> set (users s). past_grace (sub_days now GRACE_DAYS) u}) \<longrightarrow>
         (\<forall>u \<in> set (users s'). \<not> past_grace (sub_days now GRACE_DAYS) u))"
proof (cases "find_users drv s [DeletedBefore (sub_days now GRACE_DAYS)]")
  case (Inl e)
  with op show ?thesis by (auto simp: run_purge_def)
next
  case (Inr vs)
  let ?P = "past_grace (sub_days now GRACE_DAYS)"
  from find_users_Inr [OF ok Inr] have vs: "distinct vs" "set vs = {u \<in> set (users s). ?P u}"
    by (auto simp: past_grace_def split: option.splits)
  then have len: "length vs = card {u \<in> set (users s). ?P u}" by (metis distinct_card)
  from Inr op obtain m where m: "purge_victims drv vs 0 s = (m, s')" and r: "r = Inr m"
    by (cases "vs = []") (auto simp: run_purge_def split: prod.splits)
  note W = purge_victims_within [OF ok m]
  have other: "u_id u \<notin> u_id ` set vs" if "u \<in> set (users s)" "\<not> ?P u" for u
    using that vs(2) un by (auto simp: db_unique_def dest: inj_onD)
  have all: "\<not> ?P u" if "m = length vs" "u \<in> set (users s')" for u
  proof
    assume "?P u"
    moreover from W that have "u \<in> set (users s)" and "u_id u \<notin> u_id ` set vs"
      by (auto simp: purged_within_def)
    ultimately show False using vs(2) by blast
  qed
  note D = purged_withinD [OF conjunct1 [OF W]]
  have kept: "u \<in> set (users s') \<and> (\<forall>d \<in> set (devices s). d_userId d = u_id u \<longrightarrow> d \<in> set (devices s'))"
    if "u \<in> set (users s)" "\<not> ?P u" for u
    using D(4) [OF that(1) other [OF that]] D(5) other [OF that] by simp
  have none: "r = Inr (card {u \<in> set (users s). ?P u}) \<longrightarrow> (\<forall>u \<in> set (users s'). \<not> ?P u)"
  proof (intro impI ballI)
    fix u
    assume "r = Inr (card {u \<in> set (users s). ?P u})" and u: "u \<in> set (users s')"
    with r len have "m = length vs" by simp
    then show "\<not> ?P u" using u by (rule all)
  qed
  have "\<forall>u \<in> set (users s) - set (users s'). \<forall>d \<in> set (devices s'). d_userId d \<noteq> u_id u"
    using D(6) by blast
  moreover have "\<forall>u \<in> set (users s). \<not> ?P u \<longrightarrow> u \<in> set (users s')
      \<and> (\<forall>d \<in> set (devices s). d_userId d = u_id u \<longrightarrow> d \<in> set (devices s'))"
    using kept by simp
  ultimately show ?thesis using D(1-3) none by (intro conjI)
qed

text \<open>
  C31: whatever fails on the way, a purge removes nothing but accounts deleted before the cutoff and
  their devices: every other user and device stays, the outbox is untouched, and no removed account
  leaves a device behind. When the reported number is the number of such accounts, none is left.
\<close>

theorem purge_only_past_grace:
  assumes ok: "driver_ok drv" and un: "db_unique s" and op: "run_purge sub_days drv now s = (r, s')"
  shows "set (users s') \<subseteq> set (users s) \<and> set (devices s') \<subseteq> set (devices s) \<and> outbox s' = outbox s
    \<and> (\<forall>u \<in> set (users s). \<not> past_grace (sub_days now GRACE_DAYS) u \<longrightarrow> u \<in> set (users s')
         \<and> (\<forall>d \<in> set (devices s). d_userId d = u_id u \<longrightarrow> d \<in> set (devices s')))
    \<and> (\<forall>u \<in> set (users s) - set (users s'). \<forall>d \<in> set (devices s'). d_userId d \<noteq> u_id u)
    \<and> (r = Inr (card {u \<in> set (users s). past_grace (sub_days now GRACE_DAYS) u}) \<longrightarrow>
         (\<forall>u \<in> set (users s'). \<not> past_grace (sub_days now GRACE_DAYS) u))"
  by (rule run_purge_effect [OF assms])

definition purge_db :: db where
  "purge_db = demo_db\<lparr>users := [demo_user, demo_anon\<lparr>u_deletedAt := Some 5\<rparr>]\<rparr>"

lemma purge_db_unique: "db_unique purge_db"
  by (auto simp: purge_db_def db_unique_def unique_index_def demo_defs new_user_def new_device_def)

lemma purge_db_victims:
  "{u \<in> set (users purge_db). past_grace (2592000009 - GRACE_DAYS * 86400000) u}
     = {demo_anon\<lparr>u_deletedAt := Some 5\<rparr>}"
  by (auto simp: purge_db_def demo_defs new_user_def past_grace_def GRACE_DAYS_def)

theorem purge_only_past_grace_witness:
  "\<exists>r s'. run_purge (\<lambda>t d. t - d * 86400000) mem_driver 2592000009 purge_db = (r, s')
     \<and> demo_user \<in> set (users s')"
proof -
  obtain r s' where op: "run_purge (\<lambda>t d. t - d * 86400000) mem_driver 2592000009 purge_db = (r, s')"
    by fastforce
  have "demo_user \<in> set (users purge_db)" by (simp add: purge_db_def)
  moreover have "\<not> past_grace (2592000009 - GRACE_DAYS * 86400000) demo_user"
    by (simp add: past_grace_def demo_defs new_user_def)
  ultimately have "demo_user \<in> set (users s')"
    using purge_only_past_grace [OF mem_driver_ok purge_db_unique op] by blast
  with op show ?thesis by blast
qed

subsection \<open>The purge converges\<close>

definition purge_up :: "driver \<Rightarrow> bool" where
  "purge_up drv \<longleftrightarrow>
     driver_ok drv \<and> (\<forall>s cs. \<exists>us. find_users drv s cs = Inr us)
     \<and> (\<forall>cs s. fst (delete_users drv cs s) = Inr ()) \<and> (\<forall>cs s. fst (delete_devices drv cs s) = Inr ())"

lemma mem_purge_up: "purge_up mem_driver"
  by (simp add: purge_up_def mem_driver_ok)

lemma purge_user_up: "purge_up drv \<Longrightarrow> fst (purge_user drv i s) = Inr ()"
  unfolding purge_up_def purge_user_def
  by (metis (no_types, lifting) case_unit_any old.prod.case old.sum.simps(6) prod.collapse)

lemma purge_victims_up: "purge_up drv \<Longrightarrow> fst (purge_victims drv vs n s) = n + length vs"
proof (induction vs arbitrary: n s)
  case (Cons v vs)
  obtain s1 where "purge_user drv (u_id v) s = (Inr (), s1)"
    using purge_user_up [OF Cons.prems] by (metis prod.collapse)
  with Cons show ?case by simp
qed simp

text \<open>When every victim was purged, nothing but the victims and their devices is gone.\<close>

lemma purge_victims_exact:
  assumes ok: "driver_ok drv" and un: "db_unique s" and p: "purge_victims drv vs 0 s = (length vs, s')"
    and vs: "set vs = {u \<in> set (users s). P u}"
  shows "set (users s') = {u \<in> set (users s). \<not> P u}"
    and "set (devices s') = {d \<in> set (devices s). \<forall>u \<in> set (users s). P u \<longrightarrow> d_userId d \<noteq> u_id u}"
    and "outbox s' = outbox s"
proof -
  note W = purge_victims_within [OF ok p]
  note D = purged_withinD [OF conjunct1 [OF W]]
  from W have gone: "\<forall>u \<in> set (users s'). u_id u \<notin> u_id ` set vs" by simp
  have other: "u_id u \<notin> u_id ` set vs" if "u \<in> set (users s)" "\<not> P u" for u
    using that vs un by (auto simp: db_unique_def dest: inj_onD)
  show users: "set (users s') = {u \<in> set (users s). \<not> P u}"
  proof (intro set_eqI iffI)
    fix u
    assume "u \<in> set (users s')"
    with D(1) gone vs show "u \<in> {u \<in> set (users s). \<not> P u}" by blast
  next
    fix u
    assume "u \<in> {u \<in> set (users s). \<not> P u}"
    with D(4) other show "u \<in> set (users s')" by blast
  qed
  show "set (devices s') = {d \<in> set (devices s). \<forall>u \<in> set (users s). P u \<longrightarrow> d_userId d \<noteq> u_id u}"
  proof (intro set_eqI iffI)
    fix d
    assume d: "d \<in> set (devices s')"
    have "d_userId d \<noteq> u_id u" if "u \<in> set (users s)" "P u" for u
      using D(6) [OF that(1) _ d] users that(2) by blast
    with d D(2) show "d \<in> {d \<in> set (devices s). \<forall>u \<in> set (users s). P u \<longrightarrow> d_userId d \<noteq> u_id u}" by blast
  next
    fix d
    assume "d \<in> {d \<in> set (devices s). \<forall>u \<in> set (users s). P u \<longrightarrow> d_userId d \<noteq> u_id u}"
    with D(5) vs show "d \<in> set (devices s')" by blast
  qed
  show "outbox s' = outbox s" by (rule D(3))
qed

text \<open>
  C32: the purge converges. On a store that answers every query and deletion, a run removes exactly the
  accounts past the grace window and exactly their devices, keeps every other account, every other
  device and the outbox, and reports the number of accounts removed; the next run with the same cutoff
  finds nothing to do and leaves the store as it is.
\<close>

theorem purge_converges:
  assumes up: "purge_up drv" and un: "db_unique s"
  shows "\<exists>s'. run_purge sub_days drv now s
        = (Inr (card {u \<in> set (users s). past_grace (sub_days now GRACE_DAYS) u}), s')
      \<and> set (users s') = {u \<in> set (users s). \<not> past_grace (sub_days now GRACE_DAYS) u}
      \<and> set (devices s') = {d \<in> set (devices s).
            \<forall>u \<in> set (users s). past_grace (sub_days now GRACE_DAYS) u \<longrightarrow> d_userId d \<noteq> u_id u}
      \<and> outbox s' = outbox s
      \<and> run_purge sub_days drv now s' = (Inr 0, s')"
proof -
  let ?c = "sub_days now GRACE_DAYS"
  from up have ok: "driver_ok drv" by (simp add: purge_up_def)
  have found: "\<exists>us. find_users drv t [DeletedBefore ?c] = Inr us
      \<and> distinct us \<and> set us = {u \<in> set (users t). past_grace ?c u}" for t
  proof -
    obtain us where us: "find_users drv t [DeletedBefore ?c] = Inr us"
      using up unfolding purge_up_def by blast
    with find_users_Inr [OF ok us] show ?thesis
      by (auto simp: past_grace_def split: option.splits)
  qed
  from found [of s] obtain vs where vs: "find_users drv s [DeletedBefore ?c] = Inr vs"
    "set vs = {u \<in> set (users s). past_grace ?c u}" "length vs = card {u \<in> set (users s). past_grace ?c u}"
    by (metis distinct_card)
  obtain s' where p: "purge_victims drv vs 0 s = (length vs, s')"
    using purge_victims_up [OF up, of vs 0 s] by (metis add_0 prod.collapse)
  then have s': "run_purge sub_days drv now s = (Inr (length vs), s')"
    using vs by (cases "vs = []") (simp_all add: run_purge_def)
  note exact = purge_victims_exact [OF ok un p vs(2)]
  from found [of s'] obtain ws where ws: "find_users drv s' [DeletedBefore ?c] = Inr ws"
    "set ws = {u \<in> set (users s'). past_grace ?c u}" by blast
  with exact(1) have "ws = []" by (cases ws) auto
  with s' ws(1) vs(3) exact show ?thesis by (simp add: run_purge_def)
qed

theorem purge_converges_witness:
  "\<exists>s'. run_purge (\<lambda>t d. t - d * 86400000) mem_driver 2592000009 purge_db = (Inr 1, s')
     \<and> set (users s') = {demo_user}
     \<and> run_purge (\<lambda>t d. t - d * 86400000) mem_driver 2592000009 s' = (Inr 0, s')"
proof -
  have "card {u \<in> set (users purge_db). past_grace (2592000009 - GRACE_DAYS * 86400000) u} = 1"
    unfolding purge_db_victims by simp
  moreover have "{u \<in> set (users purge_db). \<not> past_grace (2592000009 - GRACE_DAYS * 86400000) u} = {demo_user}"
    by (auto simp: purge_db_def demo_defs new_user_def past_grace_def GRACE_DAYS_def)
  ultimately show ?thesis
    using purge_converges [OF mem_purge_up purge_db_unique, of "\<lambda>t d. t - d * 86400000" 2592000009] by auto
qed

end
