(* ===== verification/Db_Migrate.thy ===== *)
theory Db_Migrate
  imports Rpc_Errors "HOL-Library.List_Lexorder" "HOL-Library.Char_ord"
begin

section \<open>The migration runner\<close>

text \<open>
  \<open>tasks/db-migrate/src/task.service.ts\<close>: which files are migrations, in which order they are
  loaded, and how the pending ones are applied and recorded. A path is the list of its segments; the
  file system (\<open>existsSync\<close>, \<open>readdirSync\<close>), Node's \<open>require\<close> and the two calls of the
  mongodb driver on \<open>_migrations\<close> are parameters. \<open>'d\<close> is the rest of the database, which a
  migration may change at will.
\<close>

record 'd mongo =
  mongo_applied :: "string list"  \<comment> \<open>the \<open>id\<close>s of the rows of \<open>_migrations\<close>\<close>
  mongo_data :: 'd

type_synonym 'd script = "'d mongo \<Rightarrow> (exn + unit) \<times> 'd mongo"

record 'd migration =
  mg_id :: string
  mg_up :: "'d script"
  mg_down :: "'d script option"

text \<open>What \<open>require\<close> returns: any of the exports may be missing.\<close>

record 'd migration_module =
  mod_id :: "string option"
  mod_up :: "'d script option"
  mod_down :: "'d script option"

record 'd migrate_env =
  me_cwd :: path
  me_dirname :: path
  me_exists :: "path \<Rightarrow> bool"
  me_readdir :: "path \<Rightarrow> exn + string list"
  me_require :: "path \<Rightarrow> exn + 'd migration_module"
  me_find_ids :: "'d mongo \<Rightarrow> exn + string list"
  me_insert_id :: "string \<Rightarrow> 'd mongo \<Rightarrow> (exn + unit) \<times> 'd mongo"

subsection \<open>Loading\<close>

text \<open>\<open>path.resolve\<close> of an absolute path and a relative one.\<close>

fun path_resolve :: "path \<Rightarrow> path \<Rightarrow> path" where
  "path_resolve base [] = base"
| "path_resolve base (seg # segs) =
     path_resolve (if seg = ''..'' then butlast base else base @ [seg]) segs"

definition migration_dirs :: "'d migrate_env \<Rightarrow> path list" where
  "migration_dirs e =
     [path_resolve (me_cwd e) [''tools'', ''migrations''],
      path_resolve (me_dirname e) [''..'', ''..'', ''tools'', ''migrations''],
      path_resolve (me_dirname e) [''..'', ''..'', ''..'', ''tools'', ''migrations'']]"

fun first_existing :: "(path \<Rightarrow> bool) \<Rightarrow> path list \<Rightarrow> path option" where
  "first_existing exists [] = None"
| "first_existing exists (c # cs) = (if exists c then Some c else first_existing exists cs)"

definition is_digit :: "char \<Rightarrow> bool" where
  "is_digit c \<longleftrightarrow> (let n = (of_char c :: nat) in 48 \<le> n \<and> n \<le> 57)"

definition line_break :: "char \<Rightarrow> bool" where
  "line_break c \<longleftrightarrow> (of_char c :: nat) \<in> {10, 13}"

text \<open>\<open>/.+\.ext$/\<close> on the part after the underscore.\<close>

definition names_extension :: "string \<Rightarrow> string \<Rightarrow> bool" where
  "names_extension body ext \<longleftrightarrow>
     suffix ext body \<and> length ext < length body
     \<and> (\<forall>c \<in> set (take (length body - length ext) body). \<not> line_break c)"

text \<open>\<open>/^\d{3,}_.+\.(cjs|js)$/.test(f) && !f.endsWith('.d.ts')\<close>\<close>

definition migration_file :: "string \<Rightarrow> bool" where
  "migration_file f \<longleftrightarrow>
     3 \<le> length (takeWhile is_digit f)
     \<and> (case dropWhile is_digit f of
          [] \<Rightarrow> False
        | c # body \<Rightarrow> c = CHR ''_'' \<and> (names_extension body ''.cjs'' \<or> names_extension body ''.js''))
     \<and> \<not> suffix ''.d.ts'' f"

fun load_modules ::
  "(path \<Rightarrow> exn + 'd migration_module) \<Rightarrow> path \<Rightarrow> string list \<Rightarrow> 'd migration list \<Rightarrow> exn + 'd migration list" where
  "load_modules require dir [] out = Inr out"
| "load_modules require dir (file # files) out =
     (case require (dir @ [file]) of
        Inl err \<Rightarrow> Inl err
      | Inr m \<Rightarrow>
          (case (mod_id m, mod_up m) of
             (Some i, Some up) \<Rightarrow>
               if i = [] then load_modules require dir files out
               else load_modules require dir files
                      (out @ [\<lparr>mg_id = i, mg_up = up, mg_down = mod_down m\<rparr>])
           | _ \<Rightarrow> load_modules require dir files out))"

definition load_migrations :: "'d migrate_env \<Rightarrow> exn + 'd migration list" where
  "load_migrations e =
     (case first_existing (me_exists e) (migration_dirs e) of
        None \<Rightarrow> Inr []
      | Some dir \<Rightarrow>
          (case me_readdir e dir of
             Inl err \<Rightarrow> Inl err
           | Inr names \<Rightarrow> load_modules (me_require e) dir (sort (filter migration_file names)) []))"

subsection \<open>Applying\<close>

fun apply_pending ::
  "'d migrate_env \<Rightarrow> string list \<Rightarrow> 'd migration list \<Rightarrow> nat \<Rightarrow> nat \<Rightarrow> 'd mongo
     \<Rightarrow> (exn + nat \<times> nat) \<times> 'd mongo" where
  "apply_pending e applied [] a k s = (Inr (a, k), s)"
| "apply_pending e applied (m # ms) a k s =
     (if mg_id m \<in> set applied then apply_pending e applied ms a (k + 1) s
      else case mg_up m s of
        (Inl err, s1) \<Rightarrow> (Inl err, s1)
      | (Inr (), s1) \<Rightarrow>
          (case me_insert_id e (mg_id m) s1 of
             (Inl err, s2) \<Rightarrow> (Inl err, s2)
           | (Inr (), s2) \<Rightarrow> apply_pending e applied ms (a + 1) k s2))"

definition run_migrations :: "'d migrate_env \<Rightarrow> 'd mongo \<Rightarrow> (exn + nat \<times> nat) \<times> 'd mongo" where
  "run_migrations e s =
     (case me_find_ids e s of
        Inl err \<Rightarrow> (Inl err, s)
      | Inr applied \<Rightarrow>
          (case load_migrations e of
             Inl err \<Rightarrow> (Inl err, s)
           | Inr all \<Rightarrow> apply_pending e applied all 0 0 s))"

subsection \<open>What the runner relies on\<close>

text \<open>
  \<open>find\<close> reads the recorded ids; \<open>insertOne\<close> adds one row, or fails with or without having
  written it; migrations leave \<open>_migrations\<close> alone.
\<close>

definition ledger_ok :: "'d migrate_env \<Rightarrow> bool" where
  "ledger_ok e \<longleftrightarrow>
     (\<forall>s. me_find_ids e s = Inr (mongo_applied s))
     \<and> (\<forall>i s s'. me_insert_id e i s = (Inr (), s') \<longrightarrow> s' = s\<lparr>mongo_applied := mongo_applied s @ [i]\<rparr>)
     \<and> (\<forall>i s err s'. me_insert_id e i s = (Inl err, s') \<longrightarrow>
          s' = s \<or> s' = s\<lparr>mongo_applied := mongo_applied s @ [i]\<rparr>)"

definition keeps_ledger :: "'d migration \<Rightarrow> bool" where
  "keeps_ledger m \<longleftrightarrow> (\<forall>s. mongo_applied (snd (mg_up m s)) = mongo_applied s)"

text \<open>
  The reference: the pending migrations one after the other, each recorded once it succeeded, until
  one fails.
\<close>

fun up_in_order :: "'d migrate_env \<Rightarrow> 'd migration list \<Rightarrow> 'd mongo \<Rightarrow> exn option \<times> 'd mongo" where
  "up_in_order e [] s = (None, s)"
| "up_in_order e (m # ms) s =
     (case mg_up m s of
        (Inl err, s1) \<Rightarrow> (Some err, s1)
      | (Inr (), s1) \<Rightarrow>
          (case me_insert_id e (mg_id m) s1 of
             (Inl err, s2) \<Rightarrow> (Some err, s2)
           | (Inr (), s2) \<Rightarrow> up_in_order e ms s2))"

definition pending_of :: "'d mongo \<Rightarrow> 'd migration list \<Rightarrow> 'd migration list" where
  "pending_of s ms = filter (\<lambda>m. mg_id m \<notin> set (mongo_applied s)) ms"

lemma apply_pending_reference:
  "apply_pending e applied ms a k s =
     (let todo = filter (\<lambda>m. mg_id m \<notin> set applied) ms in
      case up_in_order e todo s of
        (Some err, s') \<Rightarrow> (Inl err, s')
      | (None, s') \<Rightarrow> (Inr (a + length todo, k + (length ms - length todo)), s'))"
proof (induction ms arbitrary: a k s)
  case (Cons m ms)
  have "length (filter (\<lambda>m. mg_id m \<notin> set applied) ms) \<le> length ms" by (rule length_filter_le)
  with Cons show ?case by (auto simp: Let_def Suc_diff_le split: prod.splits sum.splits unit.splits option.splits)
qed simp

lemma run_migrations_reference:
  assumes "ledger_ok e" and "load_migrations e = Inr ms"
  shows "run_migrations e s =
    (case up_in_order e (pending_of s ms) s of
       (Some err, s') \<Rightarrow> (Inl err, s')
     | (None, s') \<Rightarrow> (Inr (length (pending_of s ms), length ms - length (pending_of s ms)), s'))"
  using assms
  by (auto simp: run_migrations_def apply_pending_reference pending_of_def ledger_ok_def Let_def
      split: prod.splits option.splits)

lemma up_in_order_ledger:
  assumes "ledger_ok e"
  shows "\<forall>m \<in> set ms. keeps_ledger m \<Longrightarrow> up_in_order e ms s = (r, s') \<Longrightarrow>
     (case r of
        None \<Rightarrow> mongo_applied s' = mongo_applied s @ map mg_id ms
      | Some err \<Rightarrow> \<exists>before m rest. ms = before @ m # rest
          \<and> mongo_applied s' \<in> {mongo_applied s @ map mg_id before, mongo_applied s @ map mg_id (before @ [m])})"
proof (induction ms arbitrary: s)
  case (Cons m ms)
  obtain q s1 where up: "mg_up m s = (q, s1)" by fastforce
  with Cons.prems(1) have s1: "mongo_applied s1 = mongo_applied s"
    unfolding keeps_ledger_def by (metis list.set_intros(1) snd_conv)
  obtain i s2 where ins: "me_insert_id e (mg_id m) s1 = (i, s2)" by fastforce
  show ?case
  proof (cases q)
    case (Inl err)
    with Cons.prems(2) up s1 show ?thesis
      by (auto intro!: exI [of _ "[]"])
  next
    case ok: (Inr u)
    show ?thesis
    proof (cases i)
      case (Inl err)
      with assms ins have "mongo_applied s2 \<in> {mongo_applied s, mongo_applied s @ [mg_id m]}"
        using s1 unfolding ledger_ok_def by fastforce
      with Cons.prems(2) up ok ins Inl show ?thesis
        by (auto intro!: exI [of _ "[]"])
    next
      case (Inr u')
      with assms ins s1 have s2: "mongo_applied s2 = mongo_applied s @ [mg_id m]"
        unfolding ledger_ok_def by fastforce
      from Cons.prems(2) up ok ins Inr have "up_in_order e ms s2 = (r, s')" by simp
      from Cons.IH [OF _ this] Cons.prems(1) have IH: "case r of
          None \<Rightarrow> mongo_applied s' = mongo_applied s2 @ map mg_id ms
        | Some err \<Rightarrow> \<exists>before x rest. ms = before @ x # rest
            \<and> mongo_applied s' \<in> {mongo_applied s2 @ map mg_id before, mongo_applied s2 @ map mg_id (before @ [x])}"
        by simp
      show ?thesis
      proof (cases r)
        case None
        with IH s2 show ?thesis by simp
      next
        case (Some err)
        with IH obtain before x rest where "ms = before @ x # rest"
          "mongo_applied s' \<in> {mongo_applied s2 @ map mg_id before, mongo_applied s2 @ map mg_id (before @ [x])}"
          by auto
        with s2 have "m # ms = (m # before) @ x # rest \<and> mongo_applied s' \<in>
            {mongo_applied s @ map mg_id (m # before), mongo_applied s @ map mg_id ((m # before) @ [x])}"
          by auto
        with Some show ?thesis by (simp only: option.case) blast
      qed
    qed
  qed
qed simp

subsection \<open>Properties of a run\<close>

text \<open>
  C33: re-running is idempotent. A successful run accounts for every loaded migration, each once, as
  applied or skipped; the next run on the same files skips them all and leaves the database as it is.
\<close>

theorem migrate_rerun_is_noop:
  assumes ok: "ledger_ok e" and ms: "load_migrations e = Inr ms" and keep: "\<forall>m \<in> set ms. keeps_ledger m"
    and run: "run_migrations e s = (Inr (a, k), s')"
  shows "a = length (pending_of s ms) \<and> a + k = length ms
    \<and> run_migrations e s' = (Inr (0, length ms), s')"
proof -
  from run obtain t where up: "up_in_order e (pending_of s ms) s = (None, t)" and t: "t = s'"
    and a: "a = length (pending_of s ms)" "k = length ms - a"
    by (auto simp: run_migrations_reference [OF ok ms] split: prod.splits option.splits)
  have "\<forall>m \<in> set (pending_of s ms). keeps_ledger m" using keep by (simp add: pending_of_def)
  from up_in_order_ledger [OF ok this up]
  have "mongo_applied s' = mongo_applied s @ map mg_id (pending_of s ms)" by (simp add: t)
  then have "pending_of s' ms = []" by (auto simp: pending_of_def filter_empty_conv)
  with a show ?thesis
    by (auto simp: run_migrations_reference [OF ok ms] pending_of_def length_filter_le)
qed

text \<open>A folder with two migrations, a file that is none, and a ledger that records the first.\<close>

definition demo_module :: "string \<Rightarrow> nat script \<Rightarrow> nat migration_module" where
  "demo_module i up = \<lparr>mod_id = Some i, mod_up = Some up, mod_down = None\<rparr>"

definition demo_migrate :: "nat script \<Rightarrow> nat migrate_env" where
  "demo_migrate up2 =
     \<lparr>me_cwd = [''app''], me_dirname = [''app'', ''dist'', ''tasks''],
      me_exists = (\<lambda>p. p = [''app'', ''tools'', ''migrations'']),
      me_readdir = (\<lambda>_. Inr [''005_b.cjs'', ''README.md'', ''001_a.cjs'']),
      me_require = (\<lambda>p. Inr (if last p = ''001_a.cjs'' then demo_module ''001_a'' (\<lambda>s. (Inr (), s))
                              else demo_module ''005_b'' up2)),
      me_find_ids = (\<lambda>s. Inr (mongo_applied s)),
      me_insert_id = (\<lambda>i s. (Inr (), s\<lparr>mongo_applied := mongo_applied s @ [i]\<rparr>))\<rparr>"

lemma demo_migrate_ok: "ledger_ok (demo_migrate up2)"
  by (auto simp: ledger_ok_def demo_migrate_def)

lemma demo_files: "sort (filter migration_file [''005_b.cjs'', ''README.md'', ''001_a.cjs'']) = [''001_a.cjs'', ''005_b.cjs'']"
  by code_simp

lemma demo_load:
  "load_migrations (demo_migrate up2) =
     Inr [\<lparr>mg_id = ''001_a'', mg_up = \<lambda>s. (Inr (), s), mg_down = None\<rparr>,
          \<lparr>mg_id = ''005_b'', mg_up = up2, mg_down = None\<rparr>]"
  by (simp add: load_migrations_def demo_migrate_def migration_dirs_def demo_files demo_module_def
      del: filter.simps)

definition demo_mongo :: "nat mongo" where
  "demo_mongo = \<lparr>mongo_applied = [''001_a''], mongo_data = 0\<rparr>"

theorem migrate_rerun_is_noop_witness:
  "\<exists>s'. run_migrations (demo_migrate (\<lambda>s. (Inr (), s\<lparr>mongo_data := 7\<rparr>))) demo_mongo = (Inr (1, 1), s')
     \<and> run_migrations (demo_migrate (\<lambda>s. (Inr (), s\<lparr>mongo_data := 7\<rparr>))) s' = (Inr (0, 2), s')"
proof -
  let ?e = "demo_migrate (\<lambda>s. (Inr (), s\<lparr>mongo_data := 7\<rparr>))"
  have run: "run_migrations ?e demo_mongo
      = (Inr (1, 1), \<lparr>mongo_applied = [''001_a'', ''005_b''], mongo_data = 7\<rparr>)"
    unfolding run_migrations_reference [OF demo_migrate_ok demo_load]
    by (simp add: pending_of_def demo_mongo_def demo_migrate_def)
  have "run_migrations ?e \<lparr>mongo_applied = [''001_a'', ''005_b''], mongo_data = 7\<rparr>
      = (Inr (0, 2), \<lparr>mongo_applied = [''001_a'', ''005_b''], mongo_data = 7\<rparr>)"
    using migrate_rerun_is_noop [OF demo_migrate_ok demo_load _ run] by (simp add: keeps_ledger_def)
  with run show ?thesis by blast
qed

text \<open>
  A failed run resumes where it stopped. When a migration fails, or its row cannot be written, the
  ones before it are recorded and none after it has been tried: what the next run finds pending starts
  with the failed migration itself, unless only the confirmation of its row was lost, and then with the
  one after it.
\<close>

theorem migrate_failure_resumes:
  assumes ok: "ledger_ok e" and ms: "load_migrations e = Inr ms" and keep: "\<forall>m \<in> set ms. keeps_ledger m"
    and dist: "distinct (map mg_id ms)" and run: "run_migrations e s = (Inl err, s')"
  shows "\<exists>before m rest. pending_of s ms = before @ m # rest \<and> pending_of s' ms \<in> {m # rest, rest}"
proof -
  let ?todo = "pending_of s ms"
  from run have up: "up_in_order e ?todo s = (Some err, s')"
    by (auto simp: run_migrations_reference [OF ok ms] split: prod.splits option.splits)
  have "\<forall>m \<in> set ?todo. keeps_ledger m" using keep by (simp add: pending_of_def)
  from up_in_order_ledger [OF ok this up] obtain before m rest where todo: "?todo = before @ m # rest"
    and led: "mongo_applied s' \<in> {mongo_applied s @ map mg_id before, mongo_applied s @ map mg_id (before @ [m])}"
    by auto
  have "distinct (map mg_id ?todo)"
    using dist by (simp add: pending_of_def distinct_map_filter)
  then have d: "distinct (map mg_id (before @ m # rest))" using todo by simp
  have pend: "pending_of s' ms = filter (\<lambda>x. mg_id x \<notin> set (map mg_id done')) ?todo"
    if "mongo_applied s' = mongo_applied s @ map mg_id done'" for done'
    using that by (auto simp: pending_of_def intro!: filter_cong)
  have keep_rest: "filter (\<lambda>x. mg_id x \<notin> mg_id ` set before) rest = rest"
    "filter (\<lambda>x. mg_id x \<notin> mg_id ` set (before @ [m])) rest = rest"
    using d by (auto simp: filter_id_conv image_iff)
  have drop_before: "filter (\<lambda>x. mg_id x \<notin> mg_id ` set before) before = []"
    "filter (\<lambda>x. mg_id x \<notin> mg_id ` set (before @ [m])) before = []"
    by (auto simp: filter_empty_conv)
  have "mg_id m \<notin> mg_id ` set before" using d by auto
  with led pend [of before] pend [of "before @ [m]"] keep_rest drop_before
  have "pending_of s' ms \<in> {m # rest, rest}" by (auto simp: todo)
  with todo show ?thesis by blast
qed

theorem migrate_failure_resumes_witness:
  "\<exists>err s'. run_migrations (demo_migrate (\<lambda>s. (Inl (plain_error ''dup''), s))) demo_mongo = (Inl err, s')
     \<and> (\<forall>ms. load_migrations (demo_migrate (\<lambda>s. (Inl (plain_error ''dup''), s))) = Inr ms \<longrightarrow>
          (\<exists>before m rest. pending_of demo_mongo ms = before @ m # rest \<and> pending_of s' ms \<in> {m # rest, rest}))"
proof -
  let ?e = "demo_migrate (\<lambda>s. (Inl (plain_error ''dup''), s))"
  have run: "run_migrations ?e demo_mongo = (Inl (plain_error ''dup''), demo_mongo)"
    unfolding run_migrations_reference [OF demo_migrate_ok demo_load]
    by (simp add: pending_of_def demo_mongo_def demo_migrate_def)
  from migrate_failure_resumes [OF demo_migrate_ok demo_load _ _ run] run demo_load
  show ?thesis by (auto simp: keeps_ledger_def)
qed

end
