(* ===== verification/Migrations.thy ===== *)
theory Migrations
  imports Db_Migrate Entities
begin

section \<open>The migration scripts\<close>

text \<open>
  \<open>tools/migrations/001_initial_indexes.cjs\<close> and \<open>005_user_email_unique.cjs\<close>, the scripts the
  runner of \<open>Db_Migrate\<close> loads. They work on the raw \<open>users\<close> collection, so a document is what the
  server holds, not an entity. The four calls on the collection (\<open>aggregate\<close> up to its \<open>$group\<close>,
  \<open>indexes\<close>, \<open>dropIndex\<close>, \<open>createIndex\<close>) are the fields of \<open>users_api\<close>, a parameter; what the
  server documents about them is \<open>api_ok\<close>, and \<open>server_answers\<close> adds that it does not fail without a
  reason.
\<close>

text \<open>\<open>email\<close> as it is stored; nothing writes a value of another type.\<close>

datatype email_field = NoEmail | NullEmail | Email string

record raw_user =
  ru_id :: oid
  ru_email :: email_field
  ru_deletedAt :: "millis option"  \<comment> \<open>\<open>None\<close>: null or missing, which a filter \<open>null\<close> matches alike\<close>

text \<open>An index description, as \<open>indexes()\<close> lists it and \<open>createIndex\<close> takes it.\<close>

record index_spec =
  ix_name :: string
  ix_key :: "(string \<times> int) list option"
  ix_unique :: bool
  ix_sparse :: bool

text \<open>What \<open>{$group: {_id: '$email', count: {$sum: 1}, ids: {$push: '$_id'}}}\<close> yields.\<close>

record email_group =
  eg_id :: string
  eg_count :: nat
  eg_ids :: "oid list"

record 'd users_api =
  ua_match_group :: "(raw_user \<Rightarrow> bool) \<Rightarrow> 'd \<Rightarrow> exn + email_group list"
  ua_indexes :: "'d \<Rightarrow> exn + index_spec list"
  ua_dropIndex :: "string \<Rightarrow> 'd \<Rightarrow> (exn + unit) \<times> 'd"
  ua_createIndex :: "index_spec \<Rightarrow> 'd \<Rightarrow> (exn + unit) \<times> 'd"

subsection \<open>001: the baseline\<close>

definition baseline_up :: "'d \<Rightarrow> (exn + unit) \<times> 'd" where
  "baseline_up db = (Inr (), db)"

definition baseline_down :: "'d \<Rightarrow> (exn + unit) \<times> 'd" where
  "baseline_down db = (Inr (), db)"

subsection \<open>005: the unique index on the address\<close>

text \<open>\<open>{email: {$type: 'string'}, deletedAt: null}\<close>\<close>

definition active_with_email :: "raw_user \<Rightarrow> bool" where
  "active_with_email u \<longleftrightarrow>
     (case ru_email u of Email _ \<Rightarrow> True | _ \<Rightarrow> False) \<and> ru_deletedAt u = None"

definition group_summary :: "email_group \<Rightarrow> string" where
  "group_summary d =
     eg_id d @ '' ('' @ show_digits (eg_count d) @ '' accounts: '' @ join_with '', '' (eg_ids d) @ '')''"

definition duplicates_error :: "email_group list \<Rightarrow> exn" where
  "duplicates_error dups =
     plain_error (''Cannot create unique index on users.email - '' @ show_digits (length dups)
       @ '' duplicate(s) found: '' @ join_with ''; '' (map group_summary dups)
       @ ''. Resolve manually (merge or delete duplicates) before re-running this migration.'')"

definition legacy_email_index :: "index_spec \<Rightarrow> bool" where
  "legacy_email_index ix \<longleftrightarrow>
     (case ix_key ix of
        None \<Rightarrow> False
      | Some ks \<Rightarrow> length ks = 1 \<and> map_of ks ''email'' = Some 1 \<and> \<not> ix_unique ix)"

text \<open>\<open>await users.dropIndex(ix.name).catch(() => undefined)\<close>\<close>

fun drop_legacy :: "'d users_api \<Rightarrow> index_spec list \<Rightarrow> 'd \<Rightarrow> 'd" where
  "drop_legacy api [] db = db"
| "drop_legacy api (ix # existing) db =
     drop_legacy api existing
       (if legacy_email_index ix then snd (ua_dropIndex api (ix_name ix) db) else db)"

definition email_unique_index :: index_spec where
  "email_unique_index =
     \<lparr>ix_name = ''users_email_unique'', ix_key = Some [(''email'', 1)], ix_unique = True, ix_sparse = True\<rparr>"

definition email_sparse_index :: index_spec where
  "email_sparse_index =
     \<lparr>ix_name = ''users_email_sparse'', ix_key = Some [(''email'', 1)], ix_unique = False, ix_sparse = True\<rparr>"

definition email_unique_up :: "'d users_api \<Rightarrow> 'd \<Rightarrow> (exn + unit) \<times> 'd" where
  "email_unique_up api db =
     (case ua_match_group api active_with_email db of
        Inl err \<Rightarrow> (Inl err, db)
      | Inr groups \<Rightarrow>
          (let dups = take 20 (filter (\<lambda>d. 1 < eg_count d) groups) in
           if 0 < length dups then (Inl (duplicates_error dups), db)
           else case ua_indexes api db of
             Inl err \<Rightarrow> (Inl err, db)
           | Inr existing \<Rightarrow> ua_createIndex api email_unique_index (drop_legacy api existing db)))"

definition email_unique_down :: "'d users_api \<Rightarrow> 'd \<Rightarrow> (exn + unit) \<times> 'd" where
  "email_unique_down api db =
     ua_createIndex api email_sparse_index (snd (ua_dropIndex api ''users_email_unique'' db))"

subsection \<open>The scripts as modules of the runner\<close>

definition on_data :: "('d \<Rightarrow> (exn + unit) \<times> 'd) \<Rightarrow> 'd script" where
  "on_data f s = (case f (mongo_data s) of (r, d) \<Rightarrow> (r, s\<lparr>mongo_data := d\<rparr>))"

definition initial_indexes_module :: "'d migration_module" where
  "initial_indexes_module =
     \<lparr>mod_id = Some ''001_initial_indexes'', mod_up = Some (on_data baseline_up),
      mod_down = Some (on_data baseline_down)\<rparr>"

definition user_email_unique_module :: "'d users_api \<Rightarrow> 'd migration_module" where
  "user_email_unique_module api =
     \<lparr>mod_id = Some ''005_user_email_unique'', mod_up = Some (on_data (email_unique_up api)),
      mod_down = Some (on_data (email_unique_down api))\<rparr>"

subsection \<open>What the scripts rely on\<close>

text \<open>Two documents clash in a unique index on the address; a sparse one leaves out missing fields.\<close>

definition indexed_emails :: "bool \<Rightarrow> raw_user list \<Rightarrow> email_field list" where
  "indexed_emails sparse ds = filter (\<lambda>e. sparse \<longrightarrow> e \<noteq> NoEmail) (map ru_email ds)"

definition index_fits :: "index_spec \<Rightarrow> raw_user list \<Rightarrow> bool" where
  "index_fits ix ds \<longleftrightarrow> (ix_unique ix \<longrightarrow> distinct (indexed_emails (ix_sparse ix) ds))"

definition on_email :: "index_spec \<Rightarrow> bool" where
  "on_email ix \<longleftrightarrow> ix_key ix = Some [(''email'', 1)]"

definition groups_ok :: "(raw_user \<Rightarrow> bool) \<Rightarrow> raw_user list \<Rightarrow> email_group list \<Rightarrow> bool" where
  "groups_ok P ds gs \<longleftrightarrow>
     (\<forall>g \<in> set gs. eg_count g = length (filter (\<lambda>u. P u \<and> ru_email u = Email (eg_id g)) ds))
     \<and> (\<forall>u \<in> set ds. \<forall>e. P u \<longrightarrow> ru_email u = Email e \<longrightarrow> e \<in> eg_id ` set gs)"

text \<open>\<open>docs\<close> and \<open>ixs\<close> read the documents and the index list out of a state of the server.\<close>

definition api_ok :: "'d users_api \<Rightarrow> ('d \<Rightarrow> raw_user list) \<Rightarrow> ('d \<Rightarrow> index_spec list) \<Rightarrow> bool" where
  "api_ok api docs ixs \<longleftrightarrow>
     (\<forall>P db gs. ua_match_group api P db = Inr gs \<longrightarrow> groups_ok P (docs db) gs)
     \<and> (\<forall>db l. ua_indexes api db = Inr l \<longrightarrow> l = ixs db)
     \<and> (\<forall>n db r db'. ua_dropIndex api n db = (r, db') \<longrightarrow>
          docs db' = docs db
          \<and> (ixs db' = filter (\<lambda>i. ix_name i \<noteq> n) (ixs db) \<or> (\<exists>err. r = Inl err) \<and> ixs db' = ixs db))
     \<and> (\<forall>ix db r db'. ua_createIndex api ix db = (r, db') \<longrightarrow>
          docs db' = docs db
          \<and> (on_email ix \<longrightarrow> ix \<in> set (ixs db') \<longrightarrow> ix \<in> set (ixs db) \<or> index_fits ix (docs db))
          \<and> (ixs db' = ixs db \<or> ix_name ix \<notin> ix_name ` set (ixs db) \<and> ixs db' = ixs db @ [ix])
          \<and> (r = Inr () \<longrightarrow> ix \<in> set (ixs db')))"

definition server_answers :: "'d users_api \<Rightarrow> ('d \<Rightarrow> raw_user list) \<Rightarrow> ('d \<Rightarrow> index_spec list) \<Rightarrow> bool" where
  "server_answers api docs ixs \<longleftrightarrow>
     (\<forall>P db. \<exists>gs. ua_match_group api P db = Inr gs)
     \<and> (\<forall>db. \<exists>l. ua_indexes api db = Inr l)
     \<and> (\<forall>n db. n \<in> ix_name ` set (ixs db) \<longrightarrow> fst (ua_dropIndex api n db) = Inr ())
     \<and> (\<forall>ix db. on_email ix \<longrightarrow> index_fits ix (docs db) \<longrightarrow>
          (\<forall>i \<in> set (ixs db). ix_name i = ix_name ix \<or> ix_key i = ix_key ix \<longrightarrow> i = ix) \<longrightarrow>
          fst (ua_createIndex api ix db) = Inr ())"

text \<open>
  The indexes on the address the repository ever made: plain ones, which the migration drops, and the
  one it creates. Names are unique in a collection.
\<close>

definition known_indexes :: "index_spec list \<Rightarrow> bool" where
  "known_indexes is \<longleftrightarrow>
     distinct (map ix_name is)
     \<and> (\<forall>i \<in> set is. ix_name i = ''users_email_unique'' \<or> on_email i \<longrightarrow>
          legacy_email_index i \<or> i = email_unique_index)"

lemma server_answersD:
  assumes "server_answers api docs ixs"
  shows "\<exists>gs. ua_match_group api P db = Inr gs"
    and "\<exists>l. ua_indexes api db = Inr l"
    and "n \<in> ix_name ` set (ixs db) \<Longrightarrow> fst (ua_dropIndex api n db) = Inr ()"
    and "on_email ix \<Longrightarrow> index_fits ix (docs db) \<Longrightarrow>
      (\<And>i. i \<in> set (ixs db) \<Longrightarrow> ix_name i = ix_name ix \<or> ix_key i = ix_key ix \<Longrightarrow> i = ix) \<Longrightarrow>
      fst (ua_createIndex api ix db) = Inr ()"
  using assms unfolding server_answers_def by simp_all

lemma api_okD:
  assumes "api_ok api docs ixs"
  shows "ua_match_group api P db = Inr gs \<Longrightarrow> groups_ok P (docs db) gs"
    and "ua_indexes api db = Inr l \<Longrightarrow> l = ixs db"
    and "ua_dropIndex api n db = (Inr (), db') \<Longrightarrow>
      docs db' = docs db \<and> ixs db' = filter (\<lambda>i. ix_name i \<noteq> n) (ixs db)"
    and "ua_createIndex api ix db = (r, db') \<Longrightarrow> docs db' = docs db"
    and "ua_createIndex api ix db = (r, db') \<Longrightarrow>
      ixs db' = ixs db \<or> ix_name ix \<notin> ix_name ` set (ixs db) \<and> ixs db' = ixs db @ [ix]"
    and "ua_createIndex api ix db = (r, db') \<Longrightarrow> on_email ix \<Longrightarrow> ix \<in> set (ixs db') \<Longrightarrow>
      ix \<in> set (ixs db) \<or> index_fits ix (docs db)"
    and "ua_createIndex api ix db = (Inr (), db') \<Longrightarrow> ix \<in> set (ixs db')"
  using assms unfolding api_ok_def by blast+

subsection \<open>The pre-flight check\<close>

definition active_emails :: "raw_user list \<Rightarrow> email_field list" where
  "active_emails ds = map ru_email (filter active_with_email ds)"

lemma distinct_by_counts: "distinct xs \<longleftrightarrow> (\<forall>e. length (filter (\<lambda>x. x = e) xs) \<le> 1)"
proof (induction xs)
  case (Cons x xs)
  let ?n = "\<lambda>e ys. length (filter (\<lambda>y. y = e) ys)"
  have "x \<notin> set xs \<longleftrightarrow> ?n x xs = 0" by (auto simp: filter_empty_conv)
  moreover have "(\<forall>e. ?n e (x # xs) \<le> 1) \<longleftrightarrow> ?n x xs = 0 \<and> (\<forall>e. ?n e xs \<le> 1)"
  proof (intro iffI conjI allI)
    assume a: "\<forall>e. ?n e (x # xs) \<le> 1"
    from spec [OF a, of x] show "?n x xs = 0" by simp
    show "?n e xs \<le> 1" for e using spec [OF a, of e] by (cases "x = e") simp_all
  next
    show "?n e (x # xs) \<le> 1" if "?n x xs = 0 \<and> (\<forall>e. ?n e xs \<le> 1)" for e
      using that by (cases "x = e") simp_all
  qed
  ultimately show ?case using Cons.IH by simp
qed simp

lemma preflight_finds_shared:
  assumes "groups_ok active_with_email ds gs"
  shows "(\<exists>g \<in> set gs. 1 < eg_count g) \<longleftrightarrow> \<not> distinct (active_emails ds)"
proof -
  have count: "length (filter (\<lambda>x. x = e) (active_emails ds))
      = length (filter (\<lambda>u. active_with_email u \<and> ru_email u = e) ds)" for e
    by (simp add: active_emails_def filter_map o_def conj_commute)
  show ?thesis
  proof
    assume "\<exists>g \<in> set gs. 1 < eg_count g"
    with assms count show "\<not> distinct (active_emails ds)"
      unfolding distinct_by_counts groups_ok_def by (metis not_less)
  next
    assume "\<not> distinct (active_emails ds)"
    then obtain e where e: "1 < length (filter (\<lambda>u. active_with_email u \<and> ru_email u = e) ds)"
      unfolding distinct_by_counts count by (auto simp: not_le)
    then have "filter (\<lambda>u. active_with_email u \<and> ru_email u = e) ds \<noteq> []" by force
    then obtain u where u: "u \<in> set ds" "active_with_email u" "ru_email u = e"
      by (auto simp: filter_empty_conv)
    then obtain a where a: "e = Email a" by (cases e) (auto simp: active_with_email_def)
    with assms u have "a \<in> eg_id ` set gs" by (auto simp: groups_ok_def)
    then obtain g where "g \<in> set gs" "eg_id g = a" by blast
    with assms e a show "\<exists>g \<in> set gs. 1 < eg_count g" by (auto simp: groups_ok_def)
  qed
qed

subsection \<open>Dropping the legacy indexes\<close>

lemma drop_legacy_effect:
  assumes ok: "api_ok api docs ixs" and ans: "server_answers api docs ixs"
  shows "distinct (map ix_name l) \<Longrightarrow> ix_name ` set l \<subseteq> ix_name ` set (ixs db) \<Longrightarrow>
    docs (drop_legacy api l db) = docs db
    \<and> ixs (drop_legacy api l db)
        = filter (\<lambda>i. ix_name i \<notin> ix_name ` {j \<in> set l. legacy_email_index j}) (ixs db)"
proof (induction l arbitrary: db)
  case (Cons j l)
  show ?case
  proof (cases "legacy_email_index j")
    case False
    then have "{k \<in> set (j # l). legacy_email_index k} = {k \<in> set l. legacy_email_index k}" by auto
    with False Cons show ?thesis by simp
  next
    case True
    obtain r db1 where d: "ua_dropIndex api (ix_name j) db = (r, db1)" by fastforce
    from server_answersD(3) [OF ans] Cons.prems(2) have "fst (ua_dropIndex api (ix_name j) db) = Inr ()"
      by simp
    with d have "r = Inr ()" by simp
    with api_okD(3) [OF ok] d have docs1: "docs db1 = docs db"
      and ixs1: "ixs db1 = filter (\<lambda>i. ix_name i \<noteq> ix_name j) (ixs db)"
      by blast+
    have "ix_name ` set (ixs db1) = ix_name ` set (ixs db) - {ix_name j}"
      by (auto simp: ixs1)
    moreover have "ix_name j \<notin> ix_name ` set l" using Cons.prems(1) by simp
    moreover have "ix_name ` set l \<subseteq> ix_name ` set (ixs db)" using Cons.prems(2) by simp
    ultimately have sub: "ix_name ` set l \<subseteq> ix_name ` set (ixs db1)"
      by (simp only: subset_Diff_insert Diff_empty simp_thms)
    have "distinct (map ix_name l)" using Cons.prems(1) by simp
    note IH = Cons.IH [OF this sub, unfolded docs1]
    have step: "drop_legacy api (j # l) db = drop_legacy api l db1" by (simp add: True d)
    have "{k \<in> set (j # l). legacy_email_index k} = insert j {k \<in> set l. legacy_email_index k}"
      using True by auto
    then have mem: "ix_name i \<notin> ix_name ` {k \<in> set (j # l). legacy_email_index k} \<longleftrightarrow>
        ix_name i \<noteq> ix_name j \<and> ix_name i \<notin> ix_name ` {k \<in> set l. legacy_email_index k}" for i
      by simp
    show ?thesis
      unfolding step IH [THEN conjunct1] IH [THEN conjunct2] ixs1 filter_filter mem
      by (rule conjI [OF refl refl])
  qed
qed simp

lemma legacy_indexes_dropped:
  assumes ok: "api_ok api docs ixs" and ans: "server_answers api docs ixs"
    and known: "known_indexes (ixs db)"
  shows "docs (drop_legacy api (ixs db) db) = docs db"
    and "ixs (drop_legacy api (ixs db) db) = filter (\<lambda>i. \<not> legacy_email_index i) (ixs db)"
proof -
  from known have dist: "distinct (map ix_name (ixs db))" by (simp add: known_indexes_def)
  then have inj: "inj_on ix_name (set (ixs db))" by (simp add: distinct_map)
  note eff = drop_legacy_effect [OF ok ans dist subset_refl]
  from eff show "docs (drop_legacy api (ixs db) db) = docs db" by blast
  have "ix_name i \<in> ix_name ` {j \<in> set (ixs db). legacy_email_index j} \<longleftrightarrow> legacy_email_index i"
    if "i \<in> set (ixs db)" for i
    using that inj by (auto dest: inj_onD)
  with eff show "ixs (drop_legacy api (ixs db) db) = filter (\<lambda>i. \<not> legacy_email_index i) (ixs db)"
    by (auto intro!: filter_cong)
qed

lemma email_unique_index_simps [simp]:
  "ix_name email_unique_index = ''users_email_unique''" "ix_key email_unique_index = Some [(''email'', 1)]"
  "ix_unique email_unique_index" "ix_sparse email_unique_index"
  "on_email email_unique_index" "\<not> legacy_email_index email_unique_index"
  by (simp_all add: email_unique_index_def on_email_def legacy_email_index_def)

text \<open>Past the pre-flight, the run is the drops followed by one \<open>createIndex\<close>.\<close>

lemma email_unique_up_cases:
  assumes ok: "api_ok api docs ixs" and ans: "server_answers api docs ixs"
  shows "if distinct (active_emails (docs db))
    then email_unique_up api db = ua_createIndex api email_unique_index (drop_legacy api (ixs db) db)
    else \<exists>m. email_unique_up api db = (Inl (plain_error m), db)"
proof -
  obtain gs where gs: "ua_match_group api active_with_email db = Inr gs"
    using server_answersD(1) [OF ans] by blast
  obtain l where l: "ua_indexes api db = Inr l"
    using server_answersD(2) [OF ans] by blast
  have "groups_ok active_with_email (docs db) gs"
    using api_okD(1) [OF ok gs] .
  moreover have "l = ixs db"
    using api_okD(2) [OF ok l] .
  moreover from preflight_finds_shared [OF calculation(1)]
  have "take 20 (filter (\<lambda>d. 1 < eg_count d) gs) = [] \<longleftrightarrow> distinct (active_emails (docs db))"
    by (auto simp: filter_empty_conv)
  ultimately show ?thesis
    by (auto simp: email_unique_up_def gs l Let_def duplicates_error_def)
qed

lemma remaining_email_indexes:
  assumes "known_indexes is" and "i \<in> set (filter (\<lambda>i. \<not> legacy_email_index i) is)"
    and "ix_name i = ix_name email_unique_index \<or> ix_key i = ix_key email_unique_index"
  shows "i = email_unique_index"
  using assms by (auto simp: known_indexes_def on_email_def)

subsection \<open>The users collection as the user service leaves it\<close>

definition raw_of_user :: "user \<Rightarrow> raw_user" where
  "raw_of_user u =
     \<lparr>ru_id = u_id u, ru_email = (case u_email u of None \<Rightarrow> NoEmail | Some e \<Rightarrow> Email e),
      ru_deletedAt = u_deletedAt u\<rparr>"

definition addresses :: "user list \<Rightarrow> string list" where
  "addresses us = List.map_filter u_email us"

lemma addresses_simps [simp]:
  "addresses [] = []"
  "addresses (u # us) = (case u_email u of None \<Rightarrow> addresses us | Some e \<Rightarrow> e # addresses us)"
  by (simp_all add: addresses_def List.map_filter_simps split: option.splits)

text \<open>
  A deleted account has no address, so what the pre-flight looks at and what the index will hold are
  the same list.
\<close>

lemma emails_of_accounts:
  assumes "\<forall>u \<in> set us. user_wf u"
  shows "active_emails (map raw_of_user us) = map Email (addresses us)"
    and "indexed_emails True (map raw_of_user us) = map Email (addresses us)"
proof -
  from assms have "\<forall>u \<in> set us. u_deletedAt u \<noteq> None \<longrightarrow> u_email u = None"
    by (simp add: user_wf_def)
  then show "active_emails (map raw_of_user us) = map Email (addresses us)"
    and "indexed_emails True (map raw_of_user us) = map Email (addresses us)"
  proof (induction us)
    case (Cons u us)
    {
      case 1
      with Cons.IH(1) show ?case
        by (cases "u_email u"; cases "u_deletedAt u")
          (simp_all add: active_emails_def active_with_email_def raw_of_user_def)
    next
      case 2
      with Cons.IH(2) show ?case
        by (cases "u_email u") (simp_all add: indexed_emails_def raw_of_user_def)
    }
  qed (simp_all add: active_emails_def indexed_emails_def)
qed

lemma distinct_addresses:
  assumes "\<forall>u \<in> set us. user_wf u"
  shows "distinct (active_emails (map raw_of_user us)) \<longleftrightarrow> distinct (addresses us)"
    and "distinct (indexed_emails True (map raw_of_user us)) \<longleftrightarrow> distinct (addresses us)"
  by (simp_all add: emails_of_accounts [OF assms] distinct_map inj_on_def)

subsection \<open>The outcome of a run\<close>

lemma build_succeeds:
  assumes ok: "api_ok api docs ixs" and ans: "server_answers api docs ixs"
    and known: "known_indexes (ixs db)" and active: "distinct (active_emails (docs db))"
    and all: "distinct (indexed_emails True (docs db))"
  shows "\<exists>db'. email_unique_up api db = (Inr (), db') \<and> docs db' = docs db
    \<and> email_unique_index \<in> set (ixs db')
    \<and> (let keep = filter (\<lambda>i. \<not> legacy_email_index i) (ixs db) in
        ixs db' = (if email_unique_index \<in> set keep then keep else keep @ [email_unique_index]))"
proof -
  let ?d = "drop_legacy api (ixs db) db"
  let ?keep = "filter (\<lambda>i. \<not> legacy_email_index i) (ixs db)"
  note drop = legacy_indexes_dropped [OF ok ans known]
  obtain r db' where c: "ua_createIndex api email_unique_index ?d = (r, db')" by fastforce
  have "fst (ua_createIndex api email_unique_index ?d) = Inr ()"
  proof (rule server_answersD(4) [OF ans])
    show "index_fits email_unique_index (docs ?d)" using all by (simp add: index_fits_def drop)
    show "i = email_unique_index" if "i \<in> set (ixs ?d)"
      "ix_name i = ix_name email_unique_index \<or> ix_key i = ix_key email_unique_index" for i
      using remaining_email_indexes [OF known _ that(2)] that(1) by (simp only: drop)
  qed simp
  with c have c: "ua_createIndex api email_unique_index ?d = (Inr (), db')" by simp
  with email_unique_up_cases [OF ok ans, of db] active
  have up: "email_unique_up api db = (Inr (), db')" by simp
  have docs': "docs db' = docs db" using api_okD(4) [OF ok c] drop(1) by simp
  have present: "email_unique_index \<in> set (ixs db')" by (rule api_okD(7) [OF ok c])
  have "ixs db' = (if email_unique_index \<in> set ?keep then ?keep else ?keep @ [email_unique_index])"
  proof (cases "email_unique_index \<in> set ?keep")
    case True
    then have "ix_name email_unique_index \<in> ix_name ` set ?keep" by (rule imageI)
    with True api_okD(5) [OF ok c, unfolded drop(2)] show ?thesis by argo
  next
    case False
    with present api_okD(5) [OF ok c, unfolded drop(2)] show ?thesis by (metis (no_types, lifting))
  qed
  with up docs' present show ?thesis
    unfolding Let_def by (intro exI [of _ db'] conjI)
qed

lemma keep_knows:
  assumes "known_indexes is" and "keep = filter (\<lambda>i. \<not> legacy_email_index i) is"
    and "is' = (if email_unique_index \<in> set keep then keep else keep @ [email_unique_index])"
  shows "known_indexes is'" and "filter (\<lambda>i. \<not> legacy_email_index i) is' = is'"
    and "i \<in> set is' \<Longrightarrow> on_email i \<Longrightarrow> i = email_unique_index"
proof -
  have names: "ix_name email_unique_index \<in> ix_name ` set keep \<Longrightarrow> email_unique_index \<in> set keep"
    using remaining_email_indexes [OF assms(1), folded assms(2)] by (metis imageE)
  have "distinct (map ix_name keep)"
    using assms(1) by (simp add: assms(2) known_indexes_def distinct_map_filter)
  with names have "distinct (map ix_name is')" by (auto simp: assms(3) simp del: email_unique_index_simps)
  moreover have clean: "\<not> legacy_email_index i \<and>
      (ix_name i = ix_name email_unique_index \<or> on_email i \<longrightarrow> i = email_unique_index)" if "i \<in> set is'" for i
    using that remaining_email_indexes [OF assms(1), folded assms(2)]
    by (auto simp: assms(2,3) on_email_def split: if_splits)
  ultimately show "known_indexes is'" by (auto simp: known_indexes_def)
  show "filter (\<lambda>i. \<not> legacy_email_index i) is' = is'" using clean by (simp add: filter_id_conv)
  show "i \<in> set is' \<Longrightarrow> on_email i \<Longrightarrow> i = email_unique_index" using clean by blast
qed

subsection \<open>Properties of the script\<close>

text \<open>
  C34: on accounts as the user service keeps them, a server that answers and only indexes on the
  address that the repository ever made, the script either aborts before it touched anything, exactly
  when two accounts share an address, or it succeeds: the unique index is then the only index on the
  address, every other index and every document is as before, and running the script again changes
  nothing.
\<close>

theorem unique_email_index_built:
  assumes ok: "api_ok api docs ixs" and ans: "server_answers api docs ixs"
    and known: "known_indexes (ixs db)"
    and acc: "docs db = map raw_of_user us" and wf: "\<forall>u \<in> set us. user_wf u"
  shows "if distinct (addresses us)
    then \<exists>db'. email_unique_up api db = (Inr (), db') \<and> docs db' = docs db
      \<and> set (ixs db') = insert email_unique_index {i \<in> set (ixs db). \<not> legacy_email_index i}
      \<and> (\<forall>i \<in> set (ixs db'). on_email i \<longrightarrow> i = email_unique_index)
      \<and> (\<exists>db2. email_unique_up api db' = (Inr (), db2) \<and> docs db2 = docs db' \<and> ixs db2 = ixs db')
    else \<exists>m. email_unique_up api db = (Inl (plain_error m), db)"
proof (cases "distinct (addresses us)")
  case False
  with email_unique_up_cases [OF ok ans, of db] distinct_addresses(1) [OF wf] acc show ?thesis by simp
next
  case True
  with distinct_addresses [OF wf] acc have
    active: "distinct (active_emails (docs db))" and all: "distinct (indexed_emails True (docs db))"
    by simp_all
  let ?keep = "filter (\<lambda>i. \<not> legacy_email_index i) (ixs db)"
  obtain db' where up: "email_unique_up api db = (Inr (), db')" and docs': "docs db' = docs db"
    and present: "email_unique_index \<in> set (ixs db')"
    and ixs': "ixs db' = (if email_unique_index \<in> set ?keep then ?keep else ?keep @ [email_unique_index])"
    using build_succeeds [OF ok ans known active all] unfolding Let_def by blast
  note kn = keep_knows [OF known refl ixs']
  obtain db2 where up2: "email_unique_up api db' = (Inr (), db2)" and "docs db2 = docs db'"
    and "ixs db2 = ixs db'"
    using build_succeeds [OF ok ans kn(1), unfolded docs', OF active all] present
    unfolding Let_def kn(2) docs' by auto
  moreover have "set (ixs db') = insert email_unique_index {i \<in> set (ixs db). \<not> legacy_email_index i}"
    by (auto simp: ixs')
  moreover have "\<forall>i \<in> set (ixs db'). on_email i \<longrightarrow> i = email_unique_index" using kn(3) by blast
  ultimately show ?thesis using True up docs' by simp
qed

text \<open>
  The pre-flight leaves out deleted documents, the index does not. When a deleted document still
  carries an address that another one has, the script passes its check, drops the legacy indexes and
  then fails to create the new one: the collection is left without an index on the address, and every
  further run fails as well.
\<close>

theorem deleted_duplicate_costs_the_index:
  assumes ok: "api_ok api docs ixs" and ans: "server_answers api docs ixs"
    and known: "known_indexes (ixs db)" and fresh: "email_unique_index \<notin> set (ixs db)"
    and active: "distinct (active_emails (docs db))"
    and dup: "\<not> distinct (indexed_emails True (docs db))"
  shows "\<exists>err db'. email_unique_up api db = (Inl err, db') \<and> docs db' = docs db
    \<and> set (ixs db') = {i \<in> set (ixs db). \<not> legacy_email_index i}
    \<and> (\<forall>i \<in> set (ixs db'). \<not> on_email i)
    \<and> (\<exists>err2. fst (email_unique_up api db') = Inl err2)"
proof -
  have fails: "\<exists>err d. email_unique_up api s = (Inl err, d) \<and> docs d = docs s
      \<and> ixs d = filter (\<lambda>i. \<not> legacy_email_index i) (ixs s)"
    if s: "docs s = docs db" "known_indexes (ixs s)" "email_unique_index \<notin> set (ixs s)" for s
  proof -
    note drop = legacy_indexes_dropped [OF ok ans s(2)]
    let ?d = "drop_legacy api (ixs s) s"
    obtain r d where c: "ua_createIndex api email_unique_index ?d = (r, d)" by fastforce
    have "email_unique_index \<notin> set (ixs d)"
      using api_okD(6) [OF ok c] s(1,3) dup drop by (auto simp: index_fits_def)
    moreover have "r = Inr () \<Longrightarrow> email_unique_index \<in> set (ixs d)"
      using api_okD(7) [OF ok] c by simp
    ultimately obtain err where "r = Inl err" and "ixs d = ixs ?d"
      using api_okD(5) [OF ok c] by (cases r) auto
    with email_unique_up_cases [OF ok ans, of s] c api_okD(4) [OF ok c] s(1) active drop
    show ?thesis by auto
  qed
  from fails [OF refl known fresh] obtain err d where up: "email_unique_up api db = (Inl err, d)"
    and d: "docs d = docs db" "ixs d = filter (\<lambda>i. \<not> legacy_email_index i) (ixs db)" by blast
  have "known_indexes (ixs d)"
    using known by (auto simp: d(2) known_indexes_def distinct_map_filter)
  moreover have "email_unique_index \<notin> set (ixs d)" using fresh by (simp add: d(2))
  ultimately obtain err2 where "fst (email_unique_up api d) = Inl err2"
    using fails [OF d(1)] by fastforce
  moreover have "\<forall>i \<in> set (ixs d). \<not> on_email i"
    using known fresh by (auto simp: d(2) known_indexes_def)
  ultimately show ?thesis using up d by auto
qed

text \<open>
  \<open>down\<close> after such a run puts the plain index back, whatever the documents hold by then.
\<close>

theorem down_restores_plain_index:
  assumes ok: "api_ok api docs ixs" and ans: "server_answers api docs ixs"
    and present: "email_unique_index \<in> set (ixs db)"
    and only: "\<And>i. i \<in> set (ixs db) \<Longrightarrow> on_email i \<Longrightarrow> i = email_unique_index"
    and free: "ix_name email_sparse_index \<notin> ix_name ` set (ixs db)"
  shows "\<exists>db'. email_unique_down api db = (Inr (), db') \<and> docs db' = docs db
    \<and> ixs db' = filter (\<lambda>i. ix_name i \<noteq> ''users_email_unique'') (ixs db) @ [email_sparse_index]"
proof -
  let ?keep = "filter (\<lambda>i. ix_name i \<noteq> ''users_email_unique'') (ixs db)"
  obtain r d where d: "ua_dropIndex api ''users_email_unique'' db = (r, d)" by fastforce
  have "''users_email_unique'' \<in> ix_name ` set (ixs db)"
    using imageI [OF present, of ix_name] by (simp only: email_unique_index_simps)
  from server_answersD(3) [OF ans this] d have "r = Inr ()" by simp
  with api_okD(3) [OF ok] d have dd: "docs d = docs db" "ixs d = ?keep" by blast+
  obtain r2 db' where c: "ua_createIndex api email_sparse_index d = (r2, db')" by fastforce
  have sparse: "on_email email_sparse_index" "index_fits email_sparse_index (docs d)"
    by (simp_all add: email_sparse_index_def on_email_def index_fits_def)
  have "fst (ua_createIndex api email_sparse_index d) = Inr ()"
  proof (rule server_answersD(4) [OF ans sparse])
    fix i
    assume i: "i \<in> set (ixs d)" and "ix_name i = ix_name email_sparse_index \<or> ix_key i = ix_key email_sparse_index"
    moreover from i have "ix_name i \<in> ix_name ` set (ixs db)" by (simp add: dd)
    then have "ix_name i \<noteq> ix_name email_sparse_index" using free by metis
    ultimately have "on_email i" by (simp add: on_email_def email_sparse_index_def)
    with only i have "i = email_unique_index" by (simp add: dd)
    with i show "i = email_sparse_index" by (simp add: dd)
  qed
  with c have r2: "r2 = Inr ()" by simp
  have "email_sparse_index \<notin> set (ixs d)" using free by (auto simp: dd)
  with api_okD(5,7) [OF ok] c r2 have "ixs db' = ixs d @ [email_sparse_index]" by metis
  moreover have "docs db' = docs db" using api_okD(4) [OF ok c] dd by simp
  ultimately show ?thesis using c r2 d by (simp add: email_unique_down_def dd)
qed

subsection \<open>A collection in memory\<close>

text \<open>
  A server that answers, on the documents and indexes it holds; the witnesses run the script on it.
\<close>

type_synonym mem_users = "raw_user list \<times> index_spec list"

definition mem_groups :: "(raw_user \<Rightarrow> bool) \<Rightarrow> mem_users \<Rightarrow> exn + email_group list" where
  "mem_groups P db =
     Inr (map (\<lambda>e. let found = filter (\<lambda>u. P u \<and> ru_email u = Email e) (fst db)
                     in \<lparr>eg_id = e, eg_count = length found, eg_ids = map ru_id found\<rparr>)
            (remdups (concat (map (\<lambda>u. case ru_email u of Email e \<Rightarrow> [e] | _ \<Rightarrow> []) (filter P (fst db))))))"

definition mem_drop :: "string \<Rightarrow> mem_users \<Rightarrow> (exn + unit) \<times> mem_users" where
  "mem_drop n db =
     (if n \<in> ix_name ` set (snd db) then (Inr (), (fst db, filter (\<lambda>i. ix_name i \<noteq> n) (snd db)))
      else (Inl (plain_error ''index not found''), db))"

definition mem_create :: "index_spec \<Rightarrow> mem_users \<Rightarrow> (exn + unit) \<times> mem_users" where
  "mem_create ix db =
     (if ix \<in> set (snd db) then (Inr (), db)
      else if list_ex (\<lambda>i. ix_name i = ix_name ix \<or> ix_key i = ix_key ix) (snd db)
      then (Inl (plain_error ''IndexOptionsConflict''), db)
      else if \<not> index_fits ix (fst db) then (Inl (plain_error ''E11000 duplicate key error''), db)
      else (Inr (), (fst db, snd db @ [ix])))"

definition mem_users_api :: "mem_users users_api" where
  "mem_users_api =
     \<lparr>ua_match_group = mem_groups, ua_indexes = (\<lambda>db. Inr (snd db)), ua_dropIndex = mem_drop,
      ua_createIndex = mem_create\<rparr>"

lemma mem_users_api_ok: "api_ok mem_users_api fst snd"
  unfolding api_ok_def
proof (intro conjI allI impI)
  fix P db gs
  assume "ua_match_group mem_users_api P db = Inr gs"
  then show "groups_ok P (fst db) gs"
    by (fastforce simp: mem_users_api_def mem_groups_def groups_ok_def Let_def image_image)
qed (auto simp: mem_users_api_def mem_drop_def mem_create_def list_ex_iff split: if_splits)

lemma mem_users_api_answers: "server_answers mem_users_api fst snd"
  by (auto simp: server_answers_def mem_users_api_def mem_groups_def mem_drop_def mem_create_def list_ex_iff)

definition demo_account :: "oid \<Rightarrow> string option \<Rightarrow> millis option \<Rightarrow> user" where
  "demo_account i e d = (new_user i 0)\<lparr>u_accountType := Registered, u_email := e, u_deletedAt := d\<rparr>"

definition id_index :: index_spec where
  "id_index = \<lparr>ix_name = ''_id_'', ix_key = Some [(''_id'', 1)], ix_unique = False, ix_sparse = False\<rparr>"

lemma demo_indexes:
  "legacy_email_index email_sparse_index" "\<not> legacy_email_index id_index"
  "{i \<in> set (snd (ds, [id_index, email_sparse_index])). \<not> legacy_email_index i} = {id_index}"
proof -
  show legacy: "legacy_email_index email_sparse_index" "\<not> legacy_email_index id_index"
    by (simp_all add: id_index_def email_sparse_index_def legacy_email_index_def)
  then show "{i \<in> set (snd (ds, [id_index, email_sparse_index])). \<not> legacy_email_index i} = {id_index}"
    by auto
qed

theorem unique_email_index_built_witness:
  "\<exists>db'. email_unique_up mem_users_api
       (map raw_of_user [demo_account ''1'' (Some ''a@b'') None, demo_account ''2'' None (Some 5)],
        [id_index, email_sparse_index]) = (Inr (), db')
     \<and> set (snd db') = {email_unique_index, id_index}"
proof -
  let ?us = "[demo_account ''1'' (Some ''a@b'') None, demo_account ''2'' None (Some 5)]"
  let ?db = "(map raw_of_user ?us, [id_index, email_sparse_index])"
  have known: "known_indexes (snd ?db)"
    by (simp add: known_indexes_def id_index_def email_sparse_index_def legacy_email_index_def on_email_def)
  have wf: "\<forall>u \<in> set ?us. user_wf u" by (simp add: demo_account_def user_wf_def new_user_def)
  have acc: "fst ?db = map raw_of_user ?us" by (rule fst_conv)
  have dist: "distinct (addresses ?us)" by (simp add: demo_account_def)
  from unique_email_index_built [of mem_users_api fst snd ?db ?us,
      OF mem_users_api_ok mem_users_api_answers known acc wf, unfolded if_P [OF dist] demo_indexes(3)]
  show ?thesis by (elim exE conjE) (intro exI conjI)
qed

theorem deleted_duplicate_costs_the_index_witness:
  "\<exists>err db'. email_unique_up mem_users_api
       ([\<lparr>ru_id = ''1'', ru_email = Email ''a@b'', ru_deletedAt = None\<rparr>,
         \<lparr>ru_id = ''2'', ru_email = Email ''a@b'', ru_deletedAt = Some 5\<rparr>],
        [id_index, email_sparse_index]) = (Inl err, db') \<and> set (snd db') = {id_index}"
proof -
  let ?ds = "[\<lparr>ru_id = ''1'', ru_email = Email ''a@b'', ru_deletedAt = None\<rparr>,
         \<lparr>ru_id = ''2'', ru_email = Email ''a@b'', ru_deletedAt = Some 5\<rparr>]"
  let ?db = "(?ds, [id_index, email_sparse_index])"
  have known: "known_indexes (snd ?db)"
    by (simp add: known_indexes_def id_index_def email_sparse_index_def legacy_email_index_def on_email_def)
  have fresh: "email_unique_index \<notin> set (snd ?db)"
    by (simp add: email_unique_index_def id_index_def email_sparse_index_def)
  have active: "distinct (active_emails (fst ?db))"
    by (simp add: active_emails_def active_with_email_def)
  have dup: "\<not> distinct (indexed_emails True (fst ?db))"
    by (simp add: indexed_emails_def)
  from deleted_duplicate_costs_the_index [of mem_users_api fst snd ?db,
      OF mem_users_api_ok mem_users_api_answers known fresh active dup, unfolded demo_indexes(3)]
  show ?thesis by (elim exE conjE) (intro exI conjI)
qed

subsection \<open>Under the runner\<close>

text \<open>Both scripts leave the ledger alone, which is what the runner asks of a migration.\<close>

definition shipped_migrations :: "'d users_api \<Rightarrow> 'd migration list" where
  "shipped_migrations api =
     [\<lparr>mg_id = ''001_initial_indexes'', mg_up = on_data baseline_up, mg_down = Some (on_data baseline_down)\<rparr>,
      \<lparr>mg_id = ''005_user_email_unique'', mg_up = on_data (email_unique_up api),
        mg_down = Some (on_data (email_unique_down api))\<rparr>]"

lemma shipped_files:
  "sort (filter migration_file [''005_user_email_unique.cjs'', ''README.md'', ''001_initial_indexes.cjs''])
     = [''001_initial_indexes.cjs'', ''005_user_email_unique.cjs'']"
  by code_simp

lemma shipped_modules_load:
  "load_modules (\<lambda>p. Inr (if last p = ''001_initial_indexes.cjs'' then initial_indexes_module
                            else user_email_unique_module api)) dir
     [''001_initial_indexes.cjs'', ''005_user_email_unique.cjs''] [] = Inr (shipped_migrations api)"
  by (simp add: initial_indexes_module_def user_email_unique_module_def shipped_migrations_def)

lemma shipped_keep_ledger: "m \<in> set (shipped_migrations api) \<Longrightarrow> keeps_ledger m"
  by (auto simp: shipped_migrations_def keeps_ledger_def on_data_def split: prod.splits)

text \<open>
  A first run with duplicates among the live accounts records the baseline only and leaves the
  collection as it was, so the script is tried again once they are resolved.
\<close>

lemma shipped_migrations_stop_at_duplicates:
  assumes ok: "api_ok api docs ixs" and ans: "server_answers api docs ixs"
    and led: "ledger_ok e" and load: "load_migrations e = Inr (shipped_migrations api)"
    and fresh: "mongo_applied s = []" and ins: "\<And>i t. fst (me_insert_id e i t) = Inr ()"
    and dup: "\<not> distinct (active_emails (docs (mongo_data s)))"
  shows "\<exists>m. run_migrations e s
    = (Inl (plain_error m), s\<lparr>mongo_applied := [''001_initial_indexes'']\<rparr>)"
proof -
  let ?s1 = "s\<lparr>mongo_applied := [''001_initial_indexes'']\<rparr>"
  obtain m where up: "email_unique_up api (mongo_data s) = (Inl (plain_error m), mongo_data s)"
    using email_unique_up_cases [OF ok ans, of "mongo_data s"] dup by auto
  have "me_insert_id e ''001_initial_indexes'' s = (Inr (), ?s1)"
    using led ins [of "''001_initial_indexes''" s] fresh unfolding ledger_ok_def
    by (metis append_Nil prod.collapse)
  with up fresh show ?thesis
    unfolding run_migrations_reference [OF led load]
    by (intro exI [of _ m]) (simp add: pending_of_def shipped_migrations_def on_data_def baseline_up_def)
qed

end
