(* ===== verification/Js_Text.thy ===== *)
theory Js_Text
  imports Prelude
begin

section \<open>Searching and replacing text\<close>

text \<open>
  What the developer tools under \<open>tools/\<close> do with the text of files: \<open>String.prototype.replace\<close>
  with a string pattern, joining lines, single quotes, and the facts about occurrences of a text in another that
  their proofs share.
\<close>

definition newline :: char where
  "newline = CHR 0x0A"

definition squoted :: "string \<Rightarrow> string" where
  "squoted s = CHR 0x27 # s @ [CHR 0x27]"

definition unlines :: "string list \<Rightarrow> string" where
  "unlines ls = join_with [newline] ls"

subsection \<open>\<open>replace\<close> with a string pattern\<close>

text \<open>
  The replacement is a template: \<open>$$\<close> is a dollar, \<open>$&\<close> the match, and dollar with a back quote or
  a quote the text before or after it; there are no groups, so any other dollar is one.
\<close>

fun expand_replacement :: "string \<Rightarrow> string \<Rightarrow> string \<Rightarrow> string \<Rightarrow> string" where
  "expand_replacement pre found post [] = []"
| "expand_replacement pre found post [c] = [c]"
| "expand_replacement pre found post (c # d # r) =
     (if c = CHR ''$'' then
        if d = CHR ''$'' then CHR ''$'' # expand_replacement pre found post r
        else if d = CHR ''&'' then found @ expand_replacement pre found post r
        else if d = CHR 0x60 then pre @ expand_replacement pre found post r
        else if d = CHR 0x27 then post @ expand_replacement pre found post r
        else c # expand_replacement pre found post (d # r)
      else c # expand_replacement pre found post (d # r))"

text \<open>The text before and after the first occurrence.\<close>

fun split_at_first :: "string \<Rightarrow> string \<Rightarrow> (string \<times> string) option" where
  "split_at_first pat s =
     (if prefix pat s then Some ([], drop (length pat) s)
      else case s of
        [] \<Rightarrow> None
      | c # s' \<Rightarrow> map_option (\<lambda>(a, b). (c # a, b)) (split_at_first pat s'))"

definition js_replace :: "string \<Rightarrow> string \<Rightarrow> string \<Rightarrow> string" where
  "js_replace s pat rep =
     (case split_at_first pat s of
        None \<Rightarrow> s
      | Some (a, b) \<Rightarrow> a @ expand_replacement a pat b rep @ b)"

text \<open>A replacement without a special pattern stands for itself.\<close>

fun plain_replacement :: "string \<Rightarrow> bool" where
  "plain_replacement [] = True"
| "plain_replacement [c] = True"
| "plain_replacement (c # d # r) =
     ((c = CHR ''$'' \<longrightarrow> d \<notin> {CHR ''$'', CHR ''&'', CHR 0x60, CHR 0x27}) \<and> plain_replacement (d # r))"

lemma expand_plain [simp]: "plain_replacement r \<Longrightarrow> expand_replacement b m a r = r"
  by (induction b m a r rule: expand_replacement.induct) auto

lemma plain_without_dollar: "CHR ''$'' \<notin> set r \<Longrightarrow> plain_replacement r"
  by (induction r rule: plain_replacement.induct) auto

lemma plain_append:
  "plain_replacement a \<Longrightarrow> plain_replacement b \<Longrightarrow> a = [] \<or> last a \<noteq> CHR ''$'' \<Longrightarrow> plain_replacement (a @ b)"
proof (induction a rule: plain_replacement.induct)
  case (2 c)
  then show ?case by (cases b) auto
qed auto

declare split_at_first.simps [simp del]

lemma split_at_first_Some:
  "str_includes s pat \<Longrightarrow>
     \<exists>a b. split_at_first pat s = Some (a, b) \<and> s = a @ pat @ b
       \<and> (\<forall>a' b'. s = a' @ pat @ b' \<longrightarrow> length a \<le> length a')"
proof (induction s)
  case Nil
  then show ?case by (simp add: split_at_first.simps)
next
  case (Cons c s)
  show ?case
  proof (cases "prefix pat (c # s)")
    case True
    then obtain b where "c # s = pat @ b" by (auto simp: prefix_def)
    with True show ?thesis by (simp add: split_at_first.simps)
  next
    case False
    with Cons.prems have "str_includes s pat" by simp
    from Cons.IH [OF this] obtain a b where split: "split_at_first pat s = Some (a, b)" and s: "s = a @ pat @ b"
      and least: "\<forall>a' b'. s = a' @ pat @ b' \<longrightarrow> length a \<le> length a'" by blast
    have "split_at_first pat (c # s) = Some (c # a, b)"
      by (simp add: split_at_first.simps [of pat "c # s"] False split)
    moreover have "length (c # a) \<le> length a'" if "c # s = a' @ pat @ b'" for a' b'
      using that False least by (cases a') (auto simp: prefix_def)
    ultimately show ?thesis using s by (intro exI [of _ "c # a"] exI [of _ b]) simp
  qed
qed

text \<open>The first occurrence is replaced.\<close>

lemma js_replace_split:
  assumes "str_includes s pat" and "plain_replacement rep"
  obtains a b where "s = a @ pat @ b" and "js_replace s pat rep = a @ rep @ b"
    and "\<And>a' b'. s = a' @ pat @ b' \<Longrightarrow> length a \<le> length a'"
  using split_at_first_Some [OF assms(1)] assms(2) by (auto simp: js_replace_def)

subsection \<open>Occurrences\<close>

lemma includes_Nil [simp]: "str_includes s []"
  by (cases s) simp_all

lemma includes_appendI: "str_includes x w \<or> str_includes y w \<Longrightarrow> str_includes (x @ y) w"
  unfolding str_includes_iff by (metis append.assoc)

lemma includes_trans: "str_includes s t \<Longrightarrow> str_includes t w \<Longrightarrow> str_includes s w"
  unfolding str_includes_iff by (metis append.assoc)

lemma includes_chars: "str_includes s w \<Longrightarrow> set w \<subseteq> set s"
  by (auto simp: str_includes_iff)

lemma lacks_char: "c \<in> set w \<Longrightarrow> c \<notin> set s \<Longrightarrow> \<not> str_includes s w"
  using includes_chars by blast

text \<open>A character the text does not have splits the search.\<close>

lemma includes_split:
  assumes "c \<notin> set w"
  shows "str_includes (x @ c # y) w \<longleftrightarrow> str_includes x w \<or> str_includes y w"
proof
  assume "str_includes (x @ c # y) w"
  then obtain a b where "x @ c # y = a @ w @ b" by (auto simp: str_includes_iff)
  then consider u where "x = a @ u" "u @ c # y = w @ b" | v where "a = x @ v" "c # y = v @ w @ b"
    by (auto simp: append_eq_append_conv2)
  then show "str_includes x w \<or> str_includes y w"
  proof cases
    case 1
    then consider t where "u = w @ t" | t where "w = u @ t" "c # y = t @ b"
      by (auto simp: append_eq_append_conv2)
    then show ?thesis
    proof cases
      case 1
      with \<open>x = a @ u\<close> show ?thesis by (auto simp: str_includes_iff)
    next
      case 2
      with assms have "t = []" by (cases t) auto
      with 2 \<open>x = a @ u\<close> have "x = a @ w @ []" by simp
      then show ?thesis unfolding str_includes_iff by blast
    qed
  next
    case 2
    then show ?thesis
    proof (cases v)
      case Nil
      with 2 assms have "w = []" by (cases w) auto
      then show ?thesis by simp
    next
      case (Cons d v')
      with 2 have "y = v' @ w @ b" by simp
      then show ?thesis by (auto simp: str_includes_iff)
    qed
  qed
next
  assume "str_includes x w \<or> str_includes y w"
  then show "str_includes (x @ c # y) w"
    using includes_appendI [of x w "c # y"] includes_appendI [of "[c]" w y] by auto
qed

lemma append_Cons_eq_append_Cons:
  "x @ c # y = u @ d # b \<longleftrightarrow>
     x = u \<and> c = d \<and> y = b \<or> (\<exists>t. x = u @ d # t \<and> b = t @ c # y) \<or> (\<exists>t. u = x @ c # t \<and> y = t @ d # b)"
proof (induction x arbitrary: u)
  case Nil
  show ?case by (cases u) auto
next
  case (Cons a x)
  then show ?case by (cases u) auto
qed

lemma last_split_unique:
  "x @ c # y = u @ c # b \<Longrightarrow> c \<notin> set y \<Longrightarrow> c \<notin> set b \<Longrightarrow> x = u"
  by (auto simp: append_Cons_eq_append_Cons)

text \<open>One it has at its end only narrows it to three cases.\<close>

lemma includes_split_last:
  assumes "c \<notin> set v"
  shows "str_includes (x @ c # y) (v @ [c]) \<longleftrightarrow>
    suffix v x \<or> str_includes x (v @ [c]) \<or> str_includes y (v @ [c])"
proof
  assume "str_includes (x @ c # y) (v @ [c])"
  then obtain a b where "x @ c # y = (a @ v) @ c # b" by (auto simp: str_includes_iff)
  then consider "x = a @ v" | u where "x = (a @ v) @ c # u" | u where "a @ v = x @ c # u" "y = u @ c # b"
    unfolding append_Cons_eq_append_Cons by blast
  then show "suffix v x \<or> str_includes x (v @ [c]) \<or> str_includes y (v @ [c])"
  proof cases
    case 1
    then show ?thesis by (simp add: suffix_def)
  next
    case 2
    then have "x = a @ (v @ [c]) @ u" by simp
    then show ?thesis unfolding str_includes_iff by blast
  next
    case 3
    from 3(1) consider t where "a = x @ t" "t @ v = c # u" | t where "x = a @ t" "v = t @ c # u"
      by (auto simp: append_eq_append_conv2)
    then show ?thesis
    proof cases
      case 1
      with assms obtain t' where "t = c # t'" "u = t' @ v" by (cases t) auto
      with 3 have "y = t' @ (v @ [c]) @ b" by simp
      then show ?thesis unfolding str_includes_iff by blast
    next
      case 2
      with assms show ?thesis by simp
    qed
  qed
next
  assume "suffix v x \<or> str_includes x (v @ [c]) \<or> str_includes y (v @ [c])"
  then show "str_includes (x @ c # y) (v @ [c])"
  proof (elim disjE)
    assume "suffix v x"
    then obtain a where "x @ c # y = a @ (v @ [c]) @ y" by (auto simp: suffix_def)
    then show ?thesis unfolding str_includes_iff by blast
  qed (use includes_appendI [of x "v @ [c]" "c # y"] includes_appendI [of "[c]" "v @ [c]" y] in auto)
qed

lemma includes_drop_tail:
  assumes "c \<notin> set y" and "str_includes (x @ y) (v @ [c])"
  shows "str_includes x (v @ [c])"
proof -
  from assms(2) obtain a b where "x @ y = (a @ v) @ c # b" by (auto simp: str_includes_iff)
  then consider u where "x = (a @ v) @ u" "u @ y = c # b" | u where "y = u @ c # b"
    using append_eq_append_conv2 [of x y "a @ v" "c # b"] by blast
  then show ?thesis
  proof cases
    case 1
    with assms(1) obtain u' where "u = c # u'" by (cases u) auto
    with 1 have "x = a @ (v @ [c]) @ u'" by simp
    then show ?thesis unfolding str_includes_iff by blast
  next
    case 2
    with assms(1) show ?thesis by simp
  qed
qed

text \<open>A text without a newline lies within a line.\<close>

lemma includes_unlines:
  assumes "newline \<notin> set w" and "w \<noteq> []"
  shows "str_includes (unlines ls) w \<longleftrightarrow> (\<exists>l \<in> set ls. str_includes l w)"
proof (induction ls rule: induct_list012)
  case 1
  with assms(2) show ?case by (simp add: unlines_def)
next
  case (3 l m ls)
  have "unlines (l # m # ls) = l @ newline # unlines (m # ls)" by (simp add: unlines_def)
  with 3 includes_split [OF assms(1)] show ?case by simp
qed (simp add: unlines_def)

text \<open>How often a text occurs.\<close>

fun occurrences :: "string \<Rightarrow> string \<Rightarrow> nat" where
  "occurrences w [] = (if w = [] then 1 else 0)"
| "occurrences w (c # s) = (if prefix w (c # s) then 1 else 0) + occurrences w s"

lemma occurrences_pos: "str_includes s w \<longleftrightarrow> 0 < occurrences w s"
  by (induction s) auto

lemma occurrences_append: "w \<noteq> [] \<Longrightarrow> occurrences w x + occurrences w y \<le> occurrences w (x @ y)"
proof (induction x)
  case (Cons c x)
  have "prefix w (c # x) \<Longrightarrow> prefix w ((c # x) @ y)" by (rule prefix_prefix)
  with Cons show ?case by simp
qed simp

lemma single_occurrence:
  assumes "occurrences w s \<le> 1" and "s = a @ w @ b" and "w \<noteq> []"
  shows "\<not> str_includes a w" and "\<not> str_includes b w"
proof -
  have w: "1 \<le> occurrences w w"
    using occurrences_pos [of w w] by (auto simp: str_includes_iff intro: exI [of _ "[]"])
  have "occurrences w a + (occurrences w w + occurrences w b) \<le> occurrences w s"
    using occurrences_append [OF assms(3), of w b] occurrences_append [OF assms(3), of a "w @ b"]
    by (simp add: assms(2))
  with w assms(1) show "\<not> str_includes a w" and "\<not> str_includes b w"
    by (simp_all add: occurrences_pos)
qed

end
