(* ===== verification/Scaffold.thy ===== *)
theory Scaffold
  imports Js_Text Js_Value Rpc_Errors "HOL-Library.AList"
begin

section \<open>The service generator\<close>

text \<open>
  \<open>tools/scaffold-service.mjs\<close>: the names derived from the service's name, the anchored edits of the
  files of the monorepo, the two JSON files, the generated files, and the order in which all of it is
  checked and written. The repository is a map from paths (relative to its root) to texts together
  with the directories made so far; reading is looking up, and writing does not fail. \<open>JSON.parse\<close> and
  \<open>JSON.stringify(v, null, 2)\<close> are parameters. \<open>process.exit(1)\<close> and an uncaught exception are both
  the error branch. The templates are transcribed line by line, characters outside Latin-1 in ASCII.
\<close>

record repo =
  rp_files :: "path \<Rightarrow> string option"
  rp_dirs :: "path list"

subsection \<open>Names\<close>

definition lower_alpha :: "char \<Rightarrow> bool" where
  "lower_alpha c \<longleftrightarrow> (let n = (of_char c :: nat) in 97 \<le> n \<and> n \<le> 122)"

definition lower_alnum :: "char \<Rightarrow> bool" where
  "lower_alnum c \<longleftrightarrow> lower_alpha c \<or> (let n = (of_char c :: nat) in 48 \<le> n \<and> n \<le> 57)"

text \<open>\<open>/^[a-z][a-z0-9]*(-[a-z0-9]+)*$/\<close>\<close>

definition kebab_name :: "string \<Rightarrow> bool" where
  "kebab_name s \<longleftrightarrow>
     list_all (\<lambda>w. w \<noteq> [] \<and> list_all lower_alnum w) (split_on CHR ''-'' s) \<and> s \<noteq> [] \<and> lower_alpha (hd s)"

definition upper_char :: "char \<Rightarrow> char" where
  "upper_char c = (let n = (of_char c :: nat) in if 97 \<le> n \<and> n \<le> 122 then char_of (n - 32) else c)"

definition snake_of :: "string \<Rightarrow> string" where
  "snake_of kebab = map (\<lambda>c. if c = CHR ''-'' then CHR ''_'' else c) kebab"

definition const_of :: "string \<Rightarrow> string" where
  "const_of kebab = map upper_char (snake_of kebab) @ ''_SERVICE''"

text \<open>\<open>snake.replace(/_([a-z0-9])/g, (_, c) => c.toUpperCase())\<close>\<close>

fun camel_from :: "string \<Rightarrow> string" where
  "camel_from [] = []"
| "camel_from [c] = [c]"
| "camel_from (c # d # s) =
     (if c = CHR ''_'' \<and> lower_alnum d then upper_char d # camel_from s else c # camel_from (d # s))"

definition camel_of :: "string \<Rightarrow> string" where
  "camel_of kebab = camel_from (snake_of kebab)"

definition pascal_of :: "string \<Rightarrow> string" where
  "pascal_of kebab = upper_char (hd (camel_of kebab)) # tl (camel_of kebab)"

definition queue_of :: "string \<Rightarrow> string" where
  "queue_of kebab = snake_of kebab @ ''_service_queue''"

subsection \<open>Anchored edits\<close>

record edit =
  ed_path :: path
  ed_anchor :: string
  ed_replacement :: string

definition path_text :: "path \<Rightarrow> string" where
  "path_text p = join_with ''/'' p"

definition anchor_missing :: "edit \<Rightarrow> exn" where
  "anchor_missing e =
     plain_error (unlines
       [''Anchor not found in '' @ path_text (ed_path e) @ '' - the file diverged from the template.'',
        ''Wire the service into it manually (see README \"Adding a microservice\").'',
        ''Missing anchor:'', ''---'', ed_anchor e, ''---''])"

definition read_file :: "(path \<Rightarrow> string option) \<Rightarrow> path \<Rightarrow> exn + string" where
  "read_file files p =
     (case files p of
        None \<Rightarrow> Inl (plain_error (''ENOENT: no such file or directory, open '' @ path_text p))
      | Some s \<Rightarrow> Inr s)"

text \<open>\<open>planEdit\<close> for each edit in turn, over the contents accumulated in the map \<open>edited\<close>.\<close>

fun plan_edits ::
  "(path \<Rightarrow> string option) \<Rightarrow> edit list \<Rightarrow> (path \<times> string) list \<Rightarrow> exn + (path \<times> string) list" where
  "plan_edits files [] edited = Inr edited"
| "plan_edits files (e # es) edited =
     (case (case map_of edited (ed_path e) of Some src \<Rightarrow> Inr src | None \<Rightarrow> read_file files (ed_path e)) of
        Inl err \<Rightarrow> Inl err
      | Inr src \<Rightarrow>
          if \<not> str_includes src (ed_anchor e) then Inl (anchor_missing e)
          else plan_edits files es
                 (AList.update (ed_path e) (js_replace src (ed_anchor e) (ed_replacement e)) edited))"

definition queues_edit :: "string \<Rightarrow> edit" where
  "queues_edit k =
     \<lparr>ed_path = [''libs'', ''common'', ''src'', ''constants'', ''queue.constants.ts''],
      ed_anchor = unlines
        [''export const QUEUES = {'',
         ''  USER_SERVICE: 'user_service_queue',''],
      ed_replacement = unlines
        [''export const QUEUES = {'',
         ''  USER_SERVICE: 'user_service_queue','',
         ''  '' @ const_of k @ '': '' @ squoted (queue_of k) @ '','']\<rparr>"

definition tokens_edit :: "string \<Rightarrow> edit" where
  "tokens_edit k =
     \<lparr>ed_path = [''libs'', ''common'', ''src'', ''constants'', ''queue.constants.ts''],
      ed_anchor = unlines
        [''export const SERVICE_TOKENS = {'',
         ''  USER_SERVICE: 'USER_SERVICE',''],
      ed_replacement = unlines
        [''export const SERVICE_TOKENS = {'',
         ''  USER_SERVICE: 'USER_SERVICE','',
         ''  '' @ const_of k @ '': '' @ squoted (const_of k) @ '','']\<rparr>"

definition all_services_edit :: "string \<Rightarrow> edit" where
  "all_services_edit k =
     \<lparr>ed_path = [''libs'', ''messaging'', ''src'', ''messaging.module.ts''],
      ed_anchor = ''const ALL_SERVICES: ServiceKey[] = ['USER_SERVICE'];'',
      ed_replacement = ''const ALL_SERVICES: ServiceKey[] = ['USER_SERVICE', '' @ squoted (const_of k) @ ''];''\<rparr>"

definition queue_by_token_edit :: "string \<Rightarrow> edit" where
  "queue_by_token_edit k =
     \<lparr>ed_path = [''libs'', ''messaging'', ''src'', ''messaging.module.ts''],
      ed_anchor = ''  [SERVICE_TOKENS.USER_SERVICE]: QUEUES.USER_SERVICE,'',
      ed_replacement = unlines
        [''  [SERVICE_TOKENS.USER_SERVICE]: QUEUES.USER_SERVICE,'',
         ''  [SERVICE_TOKENS.'' @ const_of k @ '']: QUEUES.'' @ const_of k @ '','']\<rparr>"

definition service_name_edit :: "string \<Rightarrow> edit" where
  "service_name_edit k =
     \<lparr>ed_path = [''libs'', ''common'', ''src'', ''services'', ''rpc-client.service.ts''],
      ed_anchor = ''export type ServiceName = 'user';'',
      ed_replacement = ''export type ServiceName = 'user' | '' @ squoted (camel_of k) @ '';''\<rparr>"

definition inject_edit :: "string \<Rightarrow> edit" where
  "inject_edit k =
     \<lparr>ed_path = [''libs'', ''common'', ''src'', ''services'', ''rpc-client.service.ts''],
      ed_anchor = unlines
        [''    @Inject(SERVICE_TOKENS.USER_SERVICE)'',
         ''    private readonly userClient: ClientProxy,''],
      ed_replacement = unlines
        [''    @Inject(SERVICE_TOKENS.USER_SERVICE)'',
         ''    private readonly userClient: ClientProxy,'',
         ''    @Inject(SERVICE_TOKENS.'' @ const_of k @ '')'',
         ''    private readonly '' @ camel_of k @ ''Client: ClientProxy,'']\<rparr>"

definition routing_edit :: "string \<Rightarrow> edit" where
  "routing_edit k =
     \<lparr>ed_path = [''libs'', ''common'', ''src'', ''services'', ''rpc-client.service.ts''],
      ed_anchor = unlines
        [''    return this.send<T>('user', this.userClient, pattern, payload, timeoutMs);'',
         ''  }''],
      ed_replacement = unlines
        [''    return this.send<T>('user', this.userClient, pattern, payload, timeoutMs);'',
         ''  }'',
         [],
         ''  '' @ camel_of k @ ''<T = unknown>('',
         ''    pattern: string,'',
         ''    payload: object = {},'',
         ''    timeoutMs?: number,'',
         ''  ): Promise<T> {'',
         ''    return this.send<T>('',
         ''      '' @ squoted (camel_of k) @ '','',
         ''      this.'' @ camel_of k @ ''Client,'',
         ''      pattern,'',
         ''      payload,'',
         ''      timeoutMs,'',
         ''    );'',
         ''  }'']\<rparr>"

definition pick_client_edit :: "string \<Rightarrow> edit" where
  "pick_client_edit k =
     \<lparr>ed_path = [''libs'', ''common'', ''src'', ''services'', ''rpc-client.service.ts''],
      ed_anchor = ''    if (service === 'user') return this.userClient;'',
      ed_replacement = unlines
        [''    if (service === 'user') return this.userClient;'',
         ''    if (service === '' @ squoted (camel_of k) @ '') return this.'' @ camel_of k @ ''Client;'']\<rparr>"

definition compose_service :: "string \<Rightarrow> string list" where
  "compose_service k =
     [[],
      ''  '' @ k @ '':'',
      ''    build:'',
      ''      context: .'',
      ''      dockerfile: Dockerfile'',
      ''      args:'',
      ''        SERVICE: '' @ k,
      ''        RELEASE_TAG: ${RELEASE_TAG:-dev-local}'',
      ''    container_name: app-'' @ k,
      ''    restart: unless-stopped'',
      ''    env_file: .env'',
      ''    environment:'',
      ''      MONGO: mongodb://mongodb:27017'',
      ''      RABBITMQ_URL: amqp://${RABBITMQ_USER:-guest}:${RABBITMQ_PASS:-guest}@rabbitmq:5672'',
      ''    depends_on:'',
      ''      mongodb:'',
      ''        condition: service_healthy'',
      ''      rabbitmq:'',
      ''        condition: service_healthy'']"

definition compose_edit :: "string \<Rightarrow> edit" where
  "compose_edit k =
     \<lparr>ed_path = [''docker-compose.yml''],
      ed_anchor = unlines
        [[],
         ''volumes:'',
         ''  mongo-data:''],
      ed_replacement = unlines (compose_service k @ [[], ''volumes:'', ''  mongo-data:''])\<rparr>"

definition dispatch_edit :: "string \<Rightarrow> edit" where
  "dispatch_edit k =
     \<lparr>ed_path = [''.github'', ''workflows'', ''deploy.yml''],
      ed_anchor = unlines
        [''          - gateway'',
         ''          - user''],
      ed_replacement = unlines
        [''          - gateway'',
         ''          - user'',
         ''          - '' @ k]\<rparr>"

definition deploy_edit :: "string \<Rightarrow> edit" where
  "deploy_edit k =
     \<lparr>ed_path = [''.github'', ''workflows'', ''deploy.yml''],
      ed_anchor = ''  ALL_SERVICES: gateway,user'',
      ed_replacement = ''  ALL_SERVICES: gateway,user,'' @ k\<rparr>"

definition planned_edits :: "string \<Rightarrow> edit list" where
  "planned_edits k =
     [queues_edit k, tokens_edit k, all_services_edit k, queue_by_token_edit k, service_name_edit k,
      inject_edit k, routing_edit k, pick_client_edit k, compose_edit k, dispatch_edit k, deploy_edit k]"

subsection \<open>The JSON files\<close>

text \<open>\<open>o[key] = v\<close> on an object; on anything else the script dies of a \<open>TypeError\<close>.\<close>

definition js_put :: "jsval \<Rightarrow> string \<Rightarrow> jsval \<Rightarrow> exn + jsval" where
  "js_put obj key v =
     (case obj of
        JObj kvs \<Rightarrow> Inr (JObj (AList.update key v kvs))
      | _ \<Rightarrow> Inl (plain_error ''TypeError''))"

definition nest_project :: "string \<Rightarrow> jsval" where
  "nest_project k =
     JObj [(''type'', JStr ''application''), (''root'', JStr (''apps/'' @ k)), (''entryFile'', JStr ''main''),
       (''sourceRoot'', JStr (''apps/'' @ k @ ''/src'')),
       (''compilerOptions'', JObj [(''tsConfigPath'', JStr (''apps/'' @ k @ ''/tsconfig.app.json''))])]"

text \<open>\<open>nestCli.projects[kebab]\<close> also finds what \<open>projects\<close> inherits, under the one such name that is kebab-case.\<close>

definition register_project :: "string \<Rightarrow> jsval \<Rightarrow> exn + jsval" where
  "register_project k nestCli =
     (let projects = js_get nestCli ''projects'' in
      if js_truthy (js_get projects k) \<or> k \<in> set object_prototype_keys
      then Inl (plain_error (''nest-cli.json already has a project '' @ squoted k @ '' - aborting.''))
      else case js_put projects k (nest_project k) of
        Inl err \<Rightarrow> Inl err
      | Inr projects' \<Rightarrow> js_put nestCli ''projects'' projects')"

definition register_script :: "string \<Rightarrow> jsval \<Rightarrow> exn + jsval" where
  "register_script k pkg =
     (case js_put (js_get pkg ''scripts'') (''start:dev:'' @ k) (JStr (''nest start '' @ k @ '' --watch'')) of
        Inl err \<Rightarrow> Inl err
      | Inr scripts' \<Rightarrow> js_put pkg ''scripts'' scripts')"

subsection \<open>Generated files\<close>

definition main_file :: "string \<Rightarrow> path \<times> string" where
  "main_file k =
     ([''apps'', k, ''src'', ''main.ts''],
      unlines
        [''import { assertRequiredEnv, bootstrapService, QUEUES } from '@app/common';'',
         ''import { '' @ pascal_of k @ ''AppModule } from './app.module';'',
         [],
         ''assertRequiredEnv(['MONGO', 'MONGO_DB', 'RABBITMQ_URL']);'',
         [],
         ''void bootstrapService('' @ pascal_of k @ ''AppModule, {'',
         ''  queue: QUEUES.'' @ const_of k @ '','',
         ''  serviceName: '' @ squoted k @ '','',
         ''});'',
         []])"

definition app_module_file :: "string \<Rightarrow> path \<times> string" where
  "app_module_file k =
     ([''apps'', k, ''src'', ''app.module.ts''],
      unlines
        [''import { Module } from '@nestjs/common';'',
         ''import { ConfigModule } from '@nestjs/config';'',
         ''import { DatabaseModule } from '@app/database';'',
         ''import { MessagingModule, OutboxModule } from '@app/messaging';'',
         ''import { ServiceConfig, requireEnv, validateEnvWith } from '@app/common';'',
         ''import { '' @ pascal_of k @ ''Module } from './modules/'' @ k @ ''/'' @ k @ ''.module';'',
         [],
         ''@Module({'',
         ''  imports: ['',
         ''    ConfigModule.forRoot({'',
         ''      isGlobal: true,'',
         ''      envFilePath: ['.env.local', '.env'],'',
         ''      // Declare service-specific env vars on a class extending ServiceConfig'',
         ''      // (see apps/user/src/config/user.config.ts for the pattern).'',
         ''      validate: validateEnvWith(ServiceConfig),'',
         ''    }),'',
         ''    DatabaseModule.forRoot({'',
         ''      uri: requireEnv('MONGO'),'',
         ''      dbName: requireEnv('MONGO_DB'),'',
         ''    }),'',
         ''    // List peer service tokens this service calls via rpc.<peer>(), and add'',
         ''    // `subscribesTo: ['some.event']` to receive topic-exchange events.'',
         ''    MessagingModule.forPeers('',
         ''      {'',
         ''        url: requireEnv('RABBITMQ_URL'),'',
         ''        selfQueue: '' @ squoted (queue_of k) @ '','',
         ''      },'',
         ''      [],'',
         ''    ),'',
         ''    OutboxModule,'',
         ''    '' @ pascal_of k @ ''Module,'',
         ''  ],'',
         ''})'',
         ''export class '' @ pascal_of k @ ''AppModule {}'',
         []])"

definition feature_module_file :: "string \<Rightarrow> path \<times> string" where
  "feature_module_file k =
     ([''apps'', k, ''src'', ''modules'', k, k @ ''.module.ts''],
      unlines
        [''import { Module } from '@nestjs/common';'',
         ''import { '' @ pascal_of k @ ''Controller } from './'' @ k @ ''.controller';'',
         ''import { '' @ pascal_of k @ ''Service } from './'' @ k @ ''.service';'',
         [],
         ''@Module({'',
         ''  controllers: ['' @ pascal_of k @ ''Controller],'',
         ''  providers: ['' @ pascal_of k @ ''Service],'',
         ''  exports: ['' @ pascal_of k @ ''Service],'',
         ''})'',
         ''export class '' @ pascal_of k @ ''Module {}'',
         []])"

definition controller_file :: "string \<Rightarrow> path \<times> string" where
  "controller_file k =
     ([''apps'', k, ''src'', ''modules'', k, k @ ''.controller.ts''],
      unlines
        [''import { Controller } from '@nestjs/common';'',
         ''import { MessagePattern } from '@nestjs/microservices';'',
         ''import { MSG } from '@app/common';'',
         ''import { '' @ pascal_of k @ ''Service } from './'' @ k @ ''.service';'',
         [],
         ''@Controller()'',
         ''export class '' @ pascal_of k @ ''Controller {'',
         ''  constructor(private readonly '' @ camel_of k @ ''Service: '' @ pascal_of k @ ''Service) {}'',
         [],
         ''  /** Ping handler for the gateway deep /health probe. */'',
         ''  @MessagePattern(MSG.PING)'',
         ''  ping() {'',
         ''    return { ok: true, service: '' @ squoted k @ '' };'',
         ''  }'',
         [],
         ''  // Add @MessagePattern handlers here and the matching MSG.* constants in'',
         ''  // libs/common/src/constants/queue.constants.ts. Entity-touching handlers'',
         ''  // need @CreateRequestContext() (import from '@mikro-orm/decorators/legacy')'',
         ''  // and must be async - see apps/user/src/modules/users/users.controller.ts.'',
         ''}'',
         []])"

definition service_file :: "string \<Rightarrow> path \<times> string" where
  "service_file k =
     ([''apps'', k, ''src'', ''modules'', k, k @ ''.service.ts''],
      unlines
        [''import { Injectable, Logger } from '@nestjs/common';'',
         [],
         ''@Injectable()'',
         ''export class '' @ pascal_of k @ ''Service {'',
         ''  private readonly logger = new Logger('' @ pascal_of k @ ''Service.name);'',
         ''}'',
         []])"

definition tsconfig_file :: "string \<Rightarrow> path \<times> string" where
  "tsconfig_file k =
     ([''apps'', k, ''tsconfig.app.json''],
      unlines
        [''{'',
         ''  \"extends\": \"../../tsconfig.json\",'',
         ''  \"compilerOptions\": {'',
         ''    \"declaration\": false,'',
         ''    \"outDir\": \"../../dist/apps/'' @ k @ ''\"'',
         ''  },'',
         ''  \"include\": [\"src/**/*\"],'',
         ''  \"exclude\": [\"node_modules\", \"dist\", \"test\", \"**/*spec.ts\"]'',
         ''}'',
         []])"

definition env_example_file :: "string \<Rightarrow> path \<times> string" where
  "env_example_file k =
     ([''apps'', k, ''.env.example''],
      unlines
        [''# --- '' @ k @ ''-service ---------------------------------------------------------'',
         ''# Consumes RPC on <prefix>_'' @ (queue_of k) @ ''.'',
         [],
         ''NODE_ENV=development'',
         [],
         ''# --- Database (*) ---'',
         ''MONGO=mongodb://127.0.0.1:27017/?directConnection=true'',
         ''MONGO_DB=app-dev'',
         [],
         ''# --- RabbitMQ (consumer) (*) ---'',
         ''RABBITMQ_URL=amqp://localhost:5672'',
         ''RMQ_QUEUE_PREFIX=dev'',
         [],
         ''# --- Observability ---'',
         ''SENTRY_DSN='',
         ''SENTRY_TRACES_SAMPLE_RATE=0.05'',
         ''RELEASE_TAG='',
         ''LOG_LEVEL='',
         ''LOG_FORMAT='',
         ''METRICS_PORT='',
         []])"

definition generated_files :: "string \<Rightarrow> (path \<times> string) list" where
  "generated_files k =
     [main_file k, app_module_file k, feature_module_file k, controller_file k, service_file k,
      tsconfig_file k, env_example_file k]"

subsection \<open>The run\<close>

definition write_file :: "path \<times> string \<Rightarrow> repo \<Rightarrow> repo" where
  "write_file f r = r\<lparr>rp_files := (rp_files r)(fst f \<mapsto> snd f)\<rparr>"

definition make_dir :: "path \<Rightarrow> repo \<Rightarrow> repo" where
  "make_dir p r = r\<lparr>rp_dirs := rp_dirs r @ prefixes p\<rparr>"

definition exists_path :: "repo \<Rightarrow> path \<Rightarrow> bool" where
  "exists_path r p \<longleftrightarrow> rp_files r p \<noteq> None \<or> p \<in> set (rp_dirs r)"

text \<open>Reading, changing and printing one of the JSON files.\<close>

definition edit_json ::
  "(string \<Rightarrow> exn + jsval) \<Rightarrow> (jsval \<Rightarrow> string) \<Rightarrow> (jsval \<Rightarrow> exn + jsval) \<Rightarrow> repo \<Rightarrow> path \<Rightarrow> exn + string" where
  "edit_json parse print change r p =
     (case read_file (rp_files r) p of
        Inl err \<Rightarrow> Inl err
      | Inr text \<Rightarrow>
          (case parse text of
             Inl err \<Rightarrow> Inl err
           | Inr v \<Rightarrow>
               (case change v of
                  Inl err \<Rightarrow> Inl err
                | Inr v' \<Rightarrow> Inr (print v' @ [newline]))))"

definition commit ::
  "string \<Rightarrow> (path \<times> string) list \<Rightarrow> string \<Rightarrow> string \<Rightarrow> repo \<Rightarrow> repo" where
  "commit k edited nest pkg r =
     (let r1 = fold write_file edited r;
          r2 = write_file ([''nest-cli.json''], nest) r1;
          r3 = write_file ([''package.json''], pkg) r2
      in fold (\<lambda>f r. write_file f (make_dir (butlast (fst f)) r)) (generated_files k) r3)"

definition usage_error :: exn where
  "usage_error = plain_error ''Usage: pnpm scaffold <kebab-case-name>   (e.g. billing, habit-tracker)''"

definition scaffold ::
  "(string \<Rightarrow> exn + jsval) \<Rightarrow> (jsval \<Rightarrow> string) \<Rightarrow> string option \<Rightarrow> repo \<Rightarrow> (exn + unit) \<times> repo" where
  "scaffold parse print rawName r =
     (case rawName of
        None \<Rightarrow> (Inl usage_error, r)
      | Some k \<Rightarrow>
          if \<not> kebab_name k then (Inl usage_error, r)
          else if exists_path r [''apps'', k]
          then (Inl (plain_error (''apps/'' @ k @ '' already exists - aborting.'')), r)
          else case plan_edits (rp_files r) (planned_edits k) [] of
            Inl err \<Rightarrow> (Inl err, r)
          | Inr edited \<Rightarrow>
              (case edit_json parse print (register_project k) r [''nest-cli.json''] of
                 Inl err \<Rightarrow> (Inl err, r)
               | Inr nest \<Rightarrow>
                   (case edit_json parse print (register_script k) r [''package.json''] of
                      Inl err \<Rightarrow> (Inl err, r)
                    | Inr pkg \<Rightarrow> (Inr (), commit k edited nest pkg r))))"

subsection \<open>The characters of names\<close>

definition name_char :: "char \<Rightarrow> bool" where
  "name_char c \<longleftrightarrow>
     (let n = (of_char c :: nat)
      in 48 \<le> n \<and> n \<le> 57 \<or> 65 \<le> n \<and> n \<le> 90 \<or> 97 \<le> n \<and> n \<le> 122 \<or> n = 95 \<or> n = 45)"

lemma name_char_literals [simp]:
  "\<not> name_char CHR ''$''" "\<not> name_char CHR ''=''" "\<not> name_char CHR 0x27" "\<not> name_char CHR '' ''"
  "\<not> name_char CHR '';''" "\<not> name_char newline" "\<not> name_char CHR '',''" "\<not> name_char CHR ''|''"
  by (simp_all add: name_char_def newline_def)

lemma name_char_marks [simp]: "name_char CHR ''_''" "name_char CHR ''-''"
  by (simp_all add: name_char_def)

lemma name_char_suffixes: "list_all name_char ''_SERVICE''" "list_all name_char ''_service_queue''"
  by (simp_all add: name_char_def)

lemma set_split_on: "x \<in> set s \<Longrightarrow> x \<noteq> c \<Longrightarrow> \<exists>w \<in> set (split_on c s). x \<in> set w"
proof (induction s)
  case (Cons y s)
  then show ?case by (cases "split_on c s") (auto split: if_splits)
qed simp

lemma lower_alnum_name: "lower_alnum c \<Longrightarrow> name_char c"
  by (auto simp: lower_alnum_def lower_alpha_def name_char_def Let_def)

lemma upper_name: "name_char c \<Longrightarrow> name_char (upper_char c)"
  by (auto simp: upper_char_def name_char_def Let_def)

lemma kebab_chars: "kebab_name k \<Longrightarrow> list_all name_char k"
  unfolding list_all_iff
proof
  fix c
  assume k: "kebab_name k" and c: "c \<in> set k"
  show "name_char c"
  proof (cases "c = CHR ''-''")
    case False
    with c obtain w where "w \<in> set (split_on CHR ''-'' k)" "c \<in> set w"
      using set_split_on by blast
    with k have "lower_alnum c" by (auto simp: kebab_name_def list_all_iff)
    then show ?thesis by (rule lower_alnum_name)
  qed simp
qed

lemma camel_from_chars: "list_all name_char s \<Longrightarrow> list_all name_char (camel_from s)"
  by (induction s rule: camel_from.induct) (simp_all add: upper_name)

lemma name_chars:
  assumes "kebab_name k"
  shows "list_all name_char (snake_of k)" "list_all name_char (camel_of k)"
    "list_all name_char (const_of k)" "list_all name_char (queue_of k)"
proof -
  from kebab_chars [OF assms] show snake: "list_all name_char (snake_of k)"
    by (auto simp: snake_of_def list.pred_map elim!: list.pred_mono_strong)
  then show "list_all name_char (camel_of k)" by (simp add: camel_of_def camel_from_chars)
  from snake have "list_all name_char (map upper_char (snake_of k))"
    by (simp add: list_all_iff upper_name)
  with name_char_suffixes show "list_all name_char (const_of k)"
    unfolding const_of_def list_all_append by blast
  from snake name_char_suffixes show "list_all name_char (queue_of k)"
    unfolding queue_of_def list_all_append by blast
qed

text \<open>So a character that is none of these is in no name.\<close>

lemma not_in_names:
  assumes "kebab_name k" and "\<not> name_char c"
  shows "c \<notin> set k" "c \<notin> set (camel_of k)" "c \<notin> set (const_of k)" "c \<notin> set (queue_of k)"
  using assms kebab_chars [OF assms(1)] name_chars [OF assms(1)] by (auto simp: list_all_iff)

subsection \<open>Every edit only inserts text\<close>

definition inserts :: "edit \<Rightarrow> bool" where
  "inserts e \<longleftrightarrow>
     plain_replacement (ed_replacement e) \<and> subseq (ed_anchor e) (ed_replacement e) \<and> ed_anchor e \<noteq> []"

lemma unlines_append: "ls \<noteq> [] \<Longrightarrow> ms \<noteq> [] \<Longrightarrow> unlines (ls @ ms) = unlines ls @ newline # unlines ms"
proof (induction ls rule: induct_list012)
  case (2 l)
  then show ?case by (cases ms) (simp_all add: unlines_def)
qed (simp_all add: unlines_def)

lemma set_unlines: "set (unlines ls) \<subseteq> insert newline (\<Union> (set ` set ls))"
  by (induction ls rule: induct_list012) (auto simp: unlines_def)

lemma plain_unlines:
  "(\<And>l. l \<in> set ls \<Longrightarrow> plain_replacement l \<and> (l = [] \<or> last l \<noteq> CHR ''$'')) \<Longrightarrow> plain_replacement (unlines ls)"
proof (induction ls rule: induct_list012)
  case (3 l m ls)
  have "plain_replacement (newline # unlines (m # ls))"
    using plain_append [of "[newline]" "unlines (m # ls)"] 3 by (simp add: newline_def)
  moreover have "unlines (l # m # ls) = l @ newline # unlines (m # ls)" by (simp add: unlines_def)
  ultimately show ?case using plain_append [of l] 3(3) by simp
qed (simp_all add: unlines_def)

text \<open>An edit whose replacement has the lines of the anchor and then more lines.\<close>

lemma insertsI:
  assumes "ed_replacement e = p @ x @ q" and "ed_anchor e = p @ q" and "p @ q \<noteq> []"
    and "plain_replacement (ed_replacement e)"
  shows "inserts e"
proof -
  have "subseq q (x @ q)" by (rule list_emb_append2 [OF subseq_order.refl])
  then have "subseq (p @ q) (p @ x @ q)" by (rule list_emb_append_mono [OF subseq_order.refl])
  with assms show ?thesis by (simp add: inserts_def)
qed

lemma inserts_lines:
  assumes "ed_replacement e = unlines ls" and "ed_anchor e = unlines (take n ls)"
    and "unlines (take n ls) \<noteq> []" and "n < length ls"
    and "\<And>l. l \<in> set ls \<Longrightarrow> CHR ''$'' \<notin> set l"
  shows "inserts e"
proof (rule insertsI)
  have "take n ls \<noteq> []" using assms(3) by (cases "take n ls") (simp_all add: unlines_def)
  with unlines_append [of "take n ls" "drop n ls"] assms(4)
  show "ed_replacement e = unlines (take n ls) @ (newline # unlines (drop n ls)) @ []"
    by (simp add: assms(1))
  show "plain_replacement (ed_replacement e)"
    using set_unlines [of ls] assms(5) by (auto simp: assms(1) newline_def intro!: plain_without_dollar)
qed (use assms in simp_all)

lemma line_edits_insert:
  assumes k: "kebab_name k"
  shows "inserts (queues_edit k)" "inserts (tokens_edit k)" "inserts (queue_by_token_edit k)"
    "inserts (inject_edit k)" "inserts (routing_edit k)" "inserts (pick_client_edit k)"
    "inserts (dispatch_edit k)"
proof -
  note no = not_in_names [OF k name_char_literals(1)]
  show "inserts (queues_edit k)"
    by (rule inserts_lines [where n = 2], unfold queues_edit_def edit.simps, rule refl)
      (auto simp: unlines_def squoted_def no)
  show "inserts (tokens_edit k)"
    by (rule inserts_lines [where n = 2], unfold tokens_edit_def edit.simps, rule refl)
      (auto simp: unlines_def squoted_def no)
  show "inserts (queue_by_token_edit k)"
    by (rule inserts_lines [where n = 1], unfold queue_by_token_edit_def edit.simps, rule refl)
      (auto simp: unlines_def squoted_def no)
  show "inserts (inject_edit k)"
    by (rule inserts_lines [where n = 2], unfold inject_edit_def edit.simps, rule refl)
      (auto simp: unlines_def squoted_def no)
  show "inserts (routing_edit k)"
    by (rule inserts_lines [where n = 2], unfold routing_edit_def edit.simps, rule refl)
      (auto simp: unlines_def squoted_def no)
  show "inserts (pick_client_edit k)"
    by (rule inserts_lines [where n = 1], unfold pick_client_edit_def edit.simps, rule refl)
      (auto simp: unlines_def squoted_def no)
  show "inserts (dispatch_edit k)"
    by (rule inserts_lines [where n = 2], unfold dispatch_edit_def edit.simps, rule refl)
      (auto simp: unlines_def squoted_def no)
qed

lemma other_edits_insert:
  assumes k: "kebab_name k"
  shows "inserts (all_services_edit k)" "inserts (service_name_edit k)" "inserts (deploy_edit k)"
    "inserts (compose_edit k)"
proof -
  note no = not_in_names [OF k name_char_literals(1)]
  show "inserts (all_services_edit k)"
    by (rule insertsI [where p = "''const ALL_SERVICES: ServiceKey[] = ['USER_SERVICE'' @ [CHR 0x27]" and q = "''];''"
          and x = "'', '' @ squoted (const_of k)"])
      (simp_all add: all_services_edit_def squoted_def no plain_without_dollar)
  show "inserts (service_name_edit k)"
    by (rule insertsI [where p = "''export type ServiceName = 'user'' @ [CHR 0x27]" and q = "'';''"
          and x = "'' | '' @ squoted (camel_of k)"])
      (simp_all add: service_name_edit_def squoted_def no plain_without_dollar)
  show "inserts (deploy_edit k)"
    by (rule insertsI [where p = "ed_anchor (deploy_edit k)" and q = "[]" and x = "'','' @ k"])
      (simp_all add: deploy_edit_def no plain_without_dollar)
  show "inserts (compose_edit k)"
  proof (rule insertsI [where p = "[]" and x = "unlines (compose_service k) @ [newline]"
        and q = "ed_anchor (compose_edit k)"])
    have last: "k \<noteq> [] \<Longrightarrow> last k \<noteq> CHR ''$''" using no(1) last_in_set by metis
    show "plain_replacement (ed_replacement (compose_edit k))"
      unfolding compose_edit_def edit.simps
      by (rule plain_unlines)
        (auto simp: compose_service_def no last plain_without_dollar intro!: plain_append split: if_splits)
  qed (simp_all add: compose_edit_def unlines_append compose_service_def unlines_def)
qed

lemma planned_edits_insert: "kebab_name k \<Longrightarrow> e \<in> set (planned_edits k) \<Longrightarrow> inserts e"
  using line_edits_insert [of k] other_edits_insert [of k]
  by (auto simp only: planned_edits_def list.set insert_iff empty_iff)

subsection \<open>What a run changes\<close>

text \<open>The accumulated contents only add to what the files held.\<close>

definition grown :: "(path \<Rightarrow> string option) \<Rightarrow> (path \<times> string) list \<Rightarrow> bool" where
  "grown files edited \<longleftrightarrow>
     distinct (map fst edited) \<and> (\<forall>p t. (p, t) \<in> set edited \<longrightarrow> (\<exists>old. files p = Some old \<and> subseq old t))"

lemma js_replace_grows:
  assumes "inserts e" and "str_includes src (ed_anchor e)"
  shows "subseq src (js_replace src (ed_anchor e) (ed_replacement e))"
proof -
  from assms obtain a b where "src = a @ ed_anchor e @ b"
    and "js_replace src (ed_anchor e) (ed_replacement e) = a @ ed_replacement e @ b"
    by (auto simp: inserts_def elim: js_replace_split)
  moreover have "subseq (a @ ed_anchor e @ b) (a @ ed_replacement e @ b)"
    using assms(1) by (intro list_emb_append_mono subseq_order.refl) (simp add: inserts_def)
  ultimately show ?thesis by simp
qed

lemma grown_update:
  assumes "grown files edited" and "files p = Some old" and "subseq old t"
  shows "grown files (AList.update p t edited)"
proof -
  have "(q, u) \<in> set (AList.update p t edited) \<Longrightarrow> (q, u) = (p, t) \<or> (q, u) \<in> set edited" for q u
    by (induction edited) (auto split: if_splits)
  with assms show ?thesis
    unfolding grown_def by (metis distinct_update prod.inject)
qed

lemma keys_update: "fst ` set (AList.update p t l) = insert p (fst ` set l)"
  by (induction l) auto

lemma plan_edits_grown:
  "plan_edits files es edited = Inr edited' \<Longrightarrow> (\<And>e. e \<in> set es \<Longrightarrow> inserts e) \<Longrightarrow>
     grown files edited \<Longrightarrow> grown files edited' \<and> fst ` set edited' = fst ` set edited \<union> ed_path ` set es"
proof (induction es arbitrary: edited)
  case (Cons e es)
  from Cons.prems(1) obtain src where inc: "str_includes src (ed_anchor e)"
    and src: "map_of edited (ed_path e) = Some src \<or> map_of edited (ed_path e) = None \<and> files (ed_path e) = Some src"
    and rest: "plan_edits files es
        (AList.update (ed_path e) (js_replace src (ed_anchor e) (ed_replacement e)) edited) = Inr edited'"
    by (auto simp: read_file_def split: option.splits sum.splits if_splits)
  obtain old where old: "files (ed_path e) = Some old" "subseq old src"
    using src Cons.prems(3) by (fastforce simp: grown_def dest: map_of_SomeD)
  have "subseq old (js_replace src (ed_anchor e) (ed_replacement e))"
    using js_replace_grows [OF Cons.prems(2) inc] old(2) subseq_order.trans by auto
  from grown_update [OF Cons.prems(3) old(1) this] Cons.IH [OF rest] Cons.prems(2)
  show ?case by (auto simp: keys_update)
qed simp

lemma write_all: "rp_files (fold write_file fs r) = rp_files r ++ map_of (rev fs)"
  by (induction fs rule: rev_induct) (auto simp: write_file_def fun_eq_iff map_add_def)

lemma write_all_generated:
  "rp_files (fold (\<lambda>f r. write_file f (make_dir (d f) r)) fs r) = rp_files r ++ map_of (rev fs)"
  by (induction fs rule: rev_induct) (auto simp: write_file_def make_dir_def fun_eq_iff map_add_def)

text \<open>What a successful run left, file by file.\<close>

lemma commit_files:
  "rp_files (commit k edited nest pkg r) =
     (rp_files r ++ map_of (rev edited))([''nest-cli.json''] \<mapsto> nest, [''package.json''] \<mapsto> pkg)
       ++ map_of (rev (generated_files k))"
  unfolding commit_def Let_def write_all_generated by (simp add: write_file_def write_all)

lemmas generated_defs = generated_files_def main_file_def app_module_file_def feature_module_file_def
  controller_file_def service_file_def tsconfig_file_def env_example_file_def

lemma generated_paths:
  "distinct (map fst (generated_files k))" "f \<in> set (generated_files k) \<Longrightarrow> hd (fst f) = ''apps''"
  by (auto simp: generated_defs)

lemma scaffold_Inr:
  assumes "scaffold parse print name r = (Inr u, r')"
  obtains k edited nest pkg where "name = Some k" "kebab_name k"
    "plan_edits (rp_files r) (planned_edits k) [] = Inr edited"
    "edit_json parse print (register_project k) r [''nest-cli.json''] = Inr nest"
    "edit_json parse print (register_script k) r [''package.json''] = Inr pkg"
    "r' = commit k edited nest pkg r"
  using assms by (auto simp: scaffold_def split: option.splits if_splits sum.splits)

lemma scaffold_Inl: "scaffold parse print name r = (Inl err, r') \<Longrightarrow> r' = r"
  by (auto simp: scaffold_def split: option.splits if_splits sum.splits)

subsection \<open>The anchor of the service union\<close>

fun apply_edits :: "edit list \<Rightarrow> string \<Rightarrow> string option" where
  "apply_edits [] s = Some s"
| "apply_edits (e # es) s =
     (if str_includes s (ed_anchor e) then apply_edits es (js_replace s (ed_anchor e) (ed_replacement e))
      else None)"

definition content_at :: "(path \<Rightarrow> string option) \<Rightarrow> (path \<times> string) list \<Rightarrow> path \<Rightarrow> string option" where
  "content_at files edited p = (files ++ map_of edited) p"

text \<open>A planned file is the result of the edits of that file alone.\<close>

lemma plan_edits_at:
  "plan_edits files es edited = Inr edited' \<Longrightarrow>
     (case content_at files edited p of
        None \<Rightarrow> filter (\<lambda>e. ed_path e = p) es = [] \<and> content_at files edited' p = None
      | Some s \<Rightarrow> \<exists>t. content_at files edited' p = Some t
          \<and> apply_edits (filter (\<lambda>e. ed_path e = p) es) s = Some t)"
proof (induction es arbitrary: edited)
  case Nil
  then show ?case by (cases "content_at files edited p") auto
next
  case (Cons e es)
  let ?new = "\<lambda>src. AList.update (ed_path e) (js_replace src (ed_anchor e) (ed_replacement e)) edited"
  from Cons.prems obtain src where inc: "str_includes src (ed_anchor e)"
    and src: "content_at files edited (ed_path e) = Some src"
    and rest: "plan_edits files es (?new src) = Inr edited'"
    by (auto simp: content_at_def read_file_def map_add_def split: option.splits sum.splits if_splits)
  have "content_at files (?new src) p
      = (if ed_path e = p then Some (js_replace src (ed_anchor e) (ed_replacement e))
         else content_at files edited p)"
    by (simp add: content_at_def update_conv' map_add_def)
  with Cons.IH [OF rest] inc src show ?case by (auto split: option.splits if_splits)
qed

text \<open>And the plan succeeds when the edits of each file do.\<close>

lemma plan_edits_succeeds:
  "(\<And>p. case content_at files edited p of
        None \<Rightarrow> filter (\<lambda>e. ed_path e = p) es = []
      | Some s \<Rightarrow> apply_edits (filter (\<lambda>e. ed_path e = p) es) s \<noteq> None) \<Longrightarrow>
    \<exists>edited'. plan_edits files es edited = Inr edited'"
proof (induction es arbitrary: edited)
  case (Cons e es)
  obtain src where src: "content_at files edited (ed_path e) = Some src"
    using Cons.prems [of "ed_path e"] by (auto split: option.splits)
  have inc: "str_includes src (ed_anchor e)"
    using Cons.prems [of "ed_path e"] src by (simp split: if_splits)
  let ?edited = "AList.update (ed_path e) (js_replace src (ed_anchor e) (ed_replacement e)) edited"
  have now: "content_at files ?edited p
      = (if ed_path e = p then Some (js_replace src (ed_anchor e) (ed_replacement e))
         else content_at files edited p)" for p
    by (simp add: content_at_def update_conv' map_add_def)
  have "case content_at files ?edited p of
      None \<Rightarrow> filter (\<lambda>e. ed_path e = p) es = []
    | Some s \<Rightarrow> apply_edits (filter (\<lambda>e. ed_path e = p) es) s \<noteq> None" for p
    using Cons.prems [of p] src inc by (cases "ed_path e = p") (auto simp: now split: option.splits if_splits)
  from Cons.IH [OF this] obtain edited' where "plan_edits files es ?edited = Inr edited'" by blast
  moreover have "(case map_of edited (ed_path e) of None \<Rightarrow> read_file files (ed_path e) | Some src \<Rightarrow> Inr src) = Inr src"
    using src by (auto simp: content_at_def map_add_def read_file_def split: option.splits)
  ultimately show ?case using inc by simp
qed simp

definition service_union :: string where
  "service_union = ''export type ServiceName = 'user';''"

abbreviation "union_words \<equiv> ''export type ServiceName = 'user'' @ [CHR 0x27]"

lemma service_union_split: "service_union = union_words @ [CHR '';'']"
  by (simp add: service_union_def)

lemma union_chars:
  "newline \<notin> set service_union" "CHR '','' \<notin> set service_union" "CHR ''}'' \<notin> set service_union"
  "CHR ''('' \<notin> set service_union" "CHR '')'' \<notin> set service_union" "CHR '';'' \<notin> set union_words"
  "CHR ''='' \<in> set service_union" "CHR 0x27 \<in> set service_union" "CHR '';'' \<in> set service_union"
  "service_union \<noteq> []"
  by (simp_all add: service_union_def newline_def)

lemma union_replaced:
  assumes k: "kebab_name k" and a: "\<not> str_includes a service_union" and b: "\<not> str_includes b service_union"
  shows "\<not> str_includes (a @ ed_replacement (service_name_edit k) @ b) service_union"
proof -
  let ?r = "union_words @ '' | '' @ squoted (camel_of k)"
  have r: "ed_replacement (service_name_edit k) = ?r @ [CHR '';'']"
    by (simp add: service_name_edit_def)
  have "CHR '';'' \<notin> set ?r" using not_in_names [OF k name_char_literals(5)] by (simp add: squoted_def)
  with a includes_drop_tail have "\<not> str_includes (a @ ?r) service_union"
    unfolding service_union_split by blast
  moreover have "\<not> suffix union_words (a @ ?r)"
  proof
    assume "suffix union_words (a @ ?r)"
    then obtain z where "a @ ?r = z @ union_words" by (auto simp: suffix_def)
    then have "(a @ union_words @ '' | '') @ CHR 0x27 # camel_of k
        = (z @ ''export type ServiceName = '') @ CHR 0x27 # ''user''"
      by (simp add: squoted_def)
    from last_split_unique [OF this not_in_names(2) [OF k name_char_literals(3)]]
    have "a @ union_words @ '' | '' = z @ ''export type ServiceName = ''" by simp
    then have "rev (a @ union_words @ '' | '') = rev (z @ ''export type ServiceName = '')" by (rule arg_cong)
    then show False by simp
  qed
  ultimately have "\<not> str_includes ((a @ ?r) @ CHR '';'' # b) service_union"
    using b includes_split_last [OF union_chars(6), folded service_union_split] by blast
  then show ?thesis by (simp add: r)
qed

text \<open>
  Lines inserted after an anchor bring no occurrence of a text that none of them has, if the last one
  ends with a character that keeps it apart from what follows.
\<close>

lemma inserted_lines_absent:
  assumes ls: "ed_replacement e = unlines (ls @ ms)" "ed_anchor e = unlines ls" "ls \<noteq> []" "ms \<noteq> []"
    and plain: "plain_replacement (ed_replacement e)" and inc: "str_includes s (ed_anchor e)"
    and absent: "\<not> str_includes s service_union"
    and new: "\<And>l. l \<in> set ms \<Longrightarrow> \<not> str_includes l service_union"
    and last: "unlines ms = y @ [c]"
    and apart: "c \<notin> set service_union \<or> c = CHR '';'' \<and> \<not> suffix union_words y"
  shows "\<not> str_includes (js_replace s (ed_anchor e) (ed_replacement e)) service_union"
proof -
  obtain a b where s: "s = a @ ed_anchor e @ b"
    and rep: "js_replace s (ed_anchor e) (ed_replacement e) = a @ ed_replacement e @ b"
    by (rule js_replace_split [OF inc plain]) (rule that)
  have ms: "\<not> str_includes (unlines ms) service_union"
    using includes_unlines [OF union_chars(1,10)] new by blast
  then have y: "\<not> str_includes y service_union"
    using includes_appendI [of y service_union "[c]"] unfolding last by blast
  have ab: "\<not> str_includes (a @ ed_anchor e) service_union" "\<not> str_includes b service_union"
    using absent includes_appendI [of "a @ ed_anchor e" service_union b] unfolding s append_assoc by blast+
  have "\<not> str_includes (y @ c # b) service_union"
    using apart
  proof
    assume "c \<notin> set service_union"
    with includes_split y ab(2) show ?thesis by blast
  next
    assume "c = CHR '';'' \<and> \<not> suffix union_words y"
    with includes_split_last [OF union_chars(6), folded service_union_split] y ab(2)
    show ?thesis by blast
  qed
  then have "\<not> str_includes ((a @ ed_anchor e) @ newline # (y @ c # b)) service_union"
    using includes_split [OF union_chars(1)] ab(1) by blast
  then show ?thesis
    unfolding rep unfolding ls(1,2) unlines_append [OF ls(3,4)] last by simp
qed

lemma inject_keeps_absent:
  assumes k: "kebab_name k" and "str_includes s (ed_anchor (inject_edit k))" "\<not> str_includes s service_union"
  shows "\<not> str_includes (js_replace s (ed_anchor (inject_edit k)) (ed_replacement (inject_edit k))) service_union"
proof (rule inserted_lines_absent [OF _ _ _ _ _ assms(2,3)])
  let ?ms = "[''    @Inject(SERVICE_TOKENS.'' @ const_of k @ '')'',
              ''    private readonly '' @ camel_of k @ ''Client: ClientProxy,'']"
  show "ed_replacement (inject_edit k)
      = unlines ([''    @Inject(SERVICE_TOKENS.USER_SERVICE)'', ''    private readonly userClient: ClientProxy,''] @ ?ms)"
    by (simp add: inject_edit_def)
  show "plain_replacement (ed_replacement (inject_edit k))"
    using line_edits_insert(4) [OF k] by (simp add: inserts_def)
  show "\<not> str_includes l service_union" if "l \<in> set ?ms" for l
    using that not_in_names [OF k name_char_literals(2)]
    by (intro lacks_char [OF union_chars(7)]) auto
  show "unlines ?ms = (''    @Inject(SERVICE_TOKENS.'' @ const_of k @ '')'' @ [newline]
      @ ''    private readonly '' @ camel_of k @ ''Client: ClientProxy'') @ [CHR '','']"
    by (simp add: unlines_def)
qed (simp_all add: inject_edit_def union_chars)

lemma routing_keeps_absent:
  assumes k: "kebab_name k" and "str_includes s (ed_anchor (routing_edit k))" "\<not> str_includes s service_union"
  shows "\<not> str_includes (js_replace s (ed_anchor (routing_edit k)) (ed_replacement (routing_edit k))) service_union"
proof (rule inserted_lines_absent [OF _ _ _ _ _ assms(2,3)])
  let ?m1 = "[[], ''  '' @ camel_of k @ ''<T = unknown>('', ''    pattern: string,'', ''    payload: object = {},'',
      ''    timeoutMs?: number,'', ''  ): Promise<T> {'', ''    return this.send<T>('',
      ''      '' @ squoted (camel_of k) @ '','', ''      this.'' @ camel_of k @ ''Client,'', ''      pattern,'',
      ''      payload,'', ''      timeoutMs,'', ''    );'']"
  show "ed_replacement (routing_edit k)
      = unlines ([''    return this.send<T>('user', this.userClient, pattern, payload, timeoutMs);'', ''  }'']
          @ (?m1 @ [''  }'']))"
    by (simp add: routing_edit_def)
  show "plain_replacement (ed_replacement (routing_edit k))"
    using line_edits_insert(5) [OF k] by (simp add: inserts_def)
  have "CHR ''='' \<notin> set l \<or> CHR 0x27 \<notin> set l" if "l \<in> set (?m1 @ [''  }''])" for l
    using that not_in_names [OF k name_char_literals(2)] not_in_names [OF k name_char_literals(3)]
    by (auto simp: squoted_def)
  then show "\<not> str_includes l service_union" if "l \<in> set (?m1 @ [''  }''])" for l
    using that lacks_char [OF union_chars(7)] lacks_char [OF union_chars(8)] by blast
  show "unlines (?m1 @ [''  }'']) = (unlines ?m1 @ [newline] @ ''  '') @ [CHR ''}'']"
    by (simp add: unlines_def)
qed (simp_all add: routing_edit_def union_chars)

lemma pick_client_keeps_absent:
  assumes k: "kebab_name k" and "str_includes s (ed_anchor (pick_client_edit k))" "\<not> str_includes s service_union"
  shows "\<not> str_includes (js_replace s (ed_anchor (pick_client_edit k)) (ed_replacement (pick_client_edit k))) service_union"
proof (rule inserted_lines_absent [OF _ _ _ _ _ assms(2,3)])
  let ?l1 = "''service === '' @ squoted (camel_of k)"
  let ?l2 = "'' return this.'' @ camel_of k @ ''Client''"
  let ?m = "''    if ('' @ ?l1 @ '')'' @ ?l2 @ '';''"
  show "ed_replacement (pick_client_edit k)
      = unlines ([''    if (service === 'user') return this.userClient;''] @ [?m])"
    by (simp add: pick_client_edit_def)
  show "plain_replacement (ed_replacement (pick_client_edit k))"
    using line_edits_insert(6) [OF k] by (simp add: inserts_def)
  have "\<not> str_includes (?l2 @ '';'') service_union"
    using not_in_names [OF k name_char_literals(2)] by (intro lacks_char [OF union_chars(7)]) simp
  moreover have "\<not> str_includes ?l1 service_union"
    using not_in_names [OF k name_char_literals(5)] by (intro lacks_char [OF union_chars(9)]) (simp add: squoted_def)
  ultimately have "\<not> str_includes (?l1 @ CHR '')'' # ?l2 @ '';'') service_union"
    using includes_split [OF union_chars(5)] by blast
  moreover have "\<not> str_includes ''    if '' service_union" by (rule lacks_char [OF union_chars(7)]) simp
  ultimately have "\<not> str_includes (''    if '' @ CHR ''('' # (?l1 @ CHR '')'' # ?l2 @ '';'')) service_union"
    using includes_split [OF union_chars(4)] by blast
  then show "\<not> str_includes l service_union" if "l \<in> set [?m]" for l
    using that by simp
  show "unlines [?m] = (''    if ('' @ ?l1 @ '')'' @ ?l2) @ [CHR '';'']"
    by (simp add: unlines_def)
  have "\<not> suffix union_words (''    if ('' @ ?l1 @ '')'' @ ?l2)"
    by (auto simp: suffix_def dest!: arg_cong [where f = last])
  then show "CHR '';'' \<notin> set service_union
      \<or> CHR '';'' = CHR '';'' \<and> \<not> suffix union_words (''    if ('' @ ?l1 @ '')'' @ ?l2)"
    by blast
qed (simp_all add: pick_client_edit_def unlines_def)

subsection \<open>Only one service can be generated\<close>

definition rpc_client_path :: path where
  "rpc_client_path = ed_path (service_name_edit [])"

lemma rpc_client_edits:
  "filter (\<lambda>e. ed_path e = rpc_client_path) (planned_edits k)
     = [service_name_edit k, inject_edit k, routing_edit k, pick_client_edit k]"
  by (simp add: planned_edits_def rpc_client_path_def queues_edit_def tokens_edit_def all_services_edit_def
      queue_by_token_edit_def service_name_edit_def inject_edit_def routing_edit_def pick_client_edit_def
      compose_edit_def dispatch_edit_def deploy_edit_def)

lemma union_anchor: "ed_anchor (service_name_edit k) = service_union"
  by (simp add: service_name_edit_def service_union_def)

lemma map_of_rev_distinct: "distinct (map fst xs) \<Longrightarrow> map_of (rev xs) = map_of xs"
proof (induction xs)
  case (Cons x xs)
  then have "map_of (rev (x # xs)) = map_of [x] ++ map_of xs" by simp
  also have "\<dots> = map_of xs ++ map_of [x]"
    by (rule map_add_comm) (use Cons.prems in \<open>simp add: dom_map_of_conv_image_fst\<close>)
  also have "\<dots> = map_of (x # xs)" using map_of_append [of "[x]" xs] by simp
  finally show ?case .
qed simp

lemma union_gone:
  assumes k: "kebab_name k" and once: "occurrences service_union s \<le> 1"
    and run: "apply_edits [service_name_edit k, inject_edit k, routing_edit k, pick_client_edit k] s = Some t"
  shows "\<not> str_includes t service_union"
proof -
  let ?s1 = "js_replace s (ed_anchor (service_name_edit k)) (ed_replacement (service_name_edit k))"
  from run have inc: "str_includes s (ed_anchor (service_name_edit k))"
    by (simp split: if_splits)
  have plain: "plain_replacement (ed_replacement (service_name_edit k))"
    using other_edits_insert(2) [OF k] by (simp add: inserts_def)
  obtain a b where s: "s = a @ service_union @ b" and s1: "?s1 = a @ ed_replacement (service_name_edit k) @ b"
    by (rule js_replace_split [OF inc plain, unfolded union_anchor]) (rule that, simp_all only: union_anchor)
  have "\<not> str_includes ?s1 service_union"
    unfolding s1 using union_replaced [OF k] single_occurrence [OF once s union_chars(10)] by blast
  with run show ?thesis
    using inject_keeps_absent [OF k] routing_keeps_absent [OF k] pick_client_keeps_absent [OF k]
    by (auto split: if_splits)
qed

subsection \<open>A repository to run on\<close>

text \<open>Its files hold the anchors and nothing else.\<close>

definition demo_tree :: "(path \<times> string) list" where
  "demo_tree =
     [([''libs'', ''common'', ''src'', ''constants'', ''queue.constants.ts''],
        unlines [ed_anchor (tokens_edit []), ed_anchor (queues_edit [])]),
      ([''libs'', ''messaging'', ''src'', ''messaging.module.ts''],
        unlines [ed_anchor (queue_by_token_edit []), ed_anchor (all_services_edit [])]),
      (rpc_client_path,
        unlines [ed_anchor (pick_client_edit []), ed_anchor (routing_edit []),
          ed_anchor (inject_edit []), service_union]),
      ([''docker-compose.yml''], ed_anchor (compose_edit [])),
      ([''.github'', ''workflows'', ''deploy.yml''],
        unlines [ed_anchor (deploy_edit []), ed_anchor (dispatch_edit [])]),
      ([''nest-cli.json''], ''N''), ([''package.json''], ''P'')]"

definition demo_parse :: "string \<Rightarrow> exn + jsval" where
  "demo_parse t =
     (if t = ''N'' then Inr (JObj [(''projects'', JObj [])])
      else if t = ''P'' then Inr (JObj [(''scripts'', JObj [])])
      else Inl (plain_error ''SyntaxError''))"

definition demo_print :: "jsval \<Rightarrow> string" where
  "demo_print v = ''J''"

definition demo_repo :: repo where
  "demo_repo = \<lparr>rp_files = map_of demo_tree, rp_dirs = [[''apps''], [''apps'', ''user'']]\<rparr>"

lemma demo_names: "kebab_name ''billing''" "camel_of ''habit-tracker'' = ''habitTracker''"
  "pascal_of ''habit-tracker'' = ''HabitTracker''" "const_of ''habit-tracker'' = ''HABIT_TRACKER_SERVICE''"
  by code_simp+

definition demo_file_ok :: "path \<Rightarrow> bool" where
  "demo_file_ok p \<longleftrightarrow>
     (case map_of demo_tree p of
        None \<Rightarrow> False
      | Some s \<Rightarrow> apply_edits (filter (\<lambda>e. ed_path e = p) (planned_edits ''billing'')) s \<noteq> None)"

lemma demo_queues_ok: "demo_file_ok [''libs'', ''common'', ''src'', ''constants'', ''queue.constants.ts'']"
  by code_simp

lemma demo_messaging_ok: "demo_file_ok [''libs'', ''messaging'', ''src'', ''messaging.module.ts'']"
  by code_simp

lemma demo_rpc_client_ok: "demo_file_ok rpc_client_path"
  by code_simp

lemma demo_compose_ok: "demo_file_ok [''docker-compose.yml'']"
  by code_simp

lemma demo_deploy_ok: "demo_file_ok [''.github'', ''workflows'', ''deploy.yml'']"
  by code_simp

lemmas demo_files_ok = demo_queues_ok demo_messaging_ok demo_rpc_client_ok demo_compose_ok demo_deploy_ok

definition demo_paths :: "path list" where
  "demo_paths =
     [[''libs'', ''common'', ''src'', ''constants'', ''queue.constants.ts''],
      [''libs'', ''messaging'', ''src'', ''messaging.module.ts''], rpc_client_path,
      [''docker-compose.yml''], [''.github'', ''workflows'', ''deploy.yml'']]"

lemma planned_paths: "ed_path ` set (planned_edits k) = set demo_paths"
  by (simp add: planned_edits_def demo_paths_def rpc_client_path_def queues_edit_def tokens_edit_def
      all_services_edit_def queue_by_token_edit_def service_name_edit_def inject_edit_def routing_edit_def
      pick_client_edit_def compose_edit_def dispatch_edit_def deploy_edit_def)

lemma demo_plan: "\<exists>edited. plan_edits (map_of demo_tree) (planned_edits ''billing'') [] = Inr edited"
proof (rule plan_edits_succeeds)
  fix p
  show "case content_at (map_of demo_tree) [] p of
      None \<Rightarrow> filter (\<lambda>e. ed_path e = p) (planned_edits ''billing'') = []
    | Some s \<Rightarrow> apply_edits (filter (\<lambda>e. ed_path e = p) (planned_edits ''billing'')) s \<noteq> None"
  proof (cases "p \<in> set demo_paths")
    case True
    then have "demo_file_ok p"
      unfolding demo_paths_def list.set insert_iff empty_iff using demo_files_ok by (elim disjE) simp_all
    then show ?thesis by (simp add: demo_file_ok_def content_at_def split: option.splits)
  next
    case False
    then have "filter (\<lambda>e. ed_path e = p) (planned_edits ''billing'') = []"
      using planned_paths [of "''billing''"] by (auto simp: filter_empty_conv)
    then show ?thesis by (simp split: option.splits)
  qed
qed

lemma demo_lookups:
  "map_of demo_tree [''nest-cli.json''] = Some ''N''" "map_of demo_tree [''package.json''] = Some ''P''"
  "map_of demo_tree [''apps'', ''billing''] = None"
  by code_simp+

lemma demo_union: "map_of demo_tree rpc_client_path = Some t \<Longrightarrow> occurrences service_union t \<le> 1"
proof -
  have "case map_of demo_tree rpc_client_path of None \<Rightarrow> False | Some t \<Rightarrow> occurrences service_union t \<le> 1"
    by code_simp
  then show "map_of demo_tree rpc_client_path = Some t \<Longrightarrow> occurrences service_union t \<le> 1" by simp
qed

lemma demo_succeeds: "\<exists>r'. scaffold demo_parse demo_print (Some ''billing'') demo_repo = (Inr (), r')"
proof -
  obtain edited where plan: "plan_edits (map_of demo_tree) (planned_edits ''billing'') [] = Inr edited"
    using demo_plan by blast
  have "edit_json demo_parse demo_print (register_project ''billing'') demo_repo [''nest-cli.json'']
      = Inr [CHR ''J'', newline]"
    by (simp add: edit_json_def read_file_def demo_repo_def demo_lookups demo_parse_def demo_print_def
        register_project_def js_put_def Let_def object_prototype_keys_def)
  moreover have "edit_json demo_parse demo_print (register_script ''billing'') demo_repo [''package.json'']
      = Inr [CHR ''J'', newline]"
    by (simp add: edit_json_def read_file_def demo_repo_def demo_lookups demo_parse_def demo_print_def
        register_script_def js_put_def)
  moreover have "\<not> exists_path demo_repo [''apps'', ''billing'']"
    by (simp add: exists_path_def demo_repo_def demo_lookups)
  moreover have "rp_files demo_repo = map_of demo_tree" by (simp add: demo_repo_def)
  ultimately show ?thesis using plan demo_names(1) by (simp add: scaffold_def)
qed

subsection \<open>Properties of a run\<close>

text \<open>
  A run that stops has written nothing. A run that succeeds was given a kebab-case name; it made
  the generated files, printed the two JSON files with the project and the script added, and changed
  no other file except the ones it has edits for, in which it only inserted text.
\<close>

theorem scaffold_only_inserts:
  assumes run: "scaffold parse print name r = (out, r')"
  shows "case out of
      Inl err \<Rightarrow> r' = r
    | Inr _ \<Rightarrow> \<exists>k. name = Some k \<and> kebab_name k
        \<and> (\<forall>f \<in> set (generated_files k). rp_files r' (fst f) = Some (snd f))
        \<and> (\<exists>v v' t. rp_files r [''nest-cli.json''] = Some t \<and> parse t = Inr v
             \<and> register_project k v = Inr v' \<and> rp_files r' [''nest-cli.json''] = Some (print v' @ [newline]))
        \<and> (\<exists>v v' t. rp_files r [''package.json''] = Some t \<and> parse t = Inr v
             \<and> register_script k v = Inr v' \<and> rp_files r' [''package.json''] = Some (print v' @ [newline]))
        \<and> (\<forall>p. p \<notin> fst ` set (generated_files k) \<longrightarrow> p \<notin> {[''nest-cli.json''], [''package.json'']} \<longrightarrow>
             rp_files r' p = rp_files r p
             \<or> p \<in> ed_path ` set (planned_edits k)
               \<and> (\<exists>old new. rp_files r p = Some old \<and> rp_files r' p = Some new \<and> subseq old new))"
proof (cases out)
  case (Inl err)
  with run scaffold_Inl show ?thesis by simp
next
  case (Inr u)
  with run obtain k edited nest pkg where name: "name = Some k" and k: "kebab_name k"
    and plan: "plan_edits (rp_files r) (planned_edits k) [] = Inr edited"
    and nest: "edit_json parse print (register_project k) r [''nest-cli.json''] = Inr nest"
    and pkg: "edit_json parse print (register_script k) r [''package.json''] = Inr pkg"
    and r': "r' = commit k edited nest pkg r"
    by (auto elim: scaffold_Inr)
  note files = commit_files [of k edited nest pkg r, folded r']
  have dist: "distinct (map fst (rev (generated_files k)))"
    using generated_paths(1) by (simp add: rev_map [symmetric])
  have gen: "rp_files r' (fst f) = Some (snd f)" if "f \<in> set (generated_files k)" for f
    using that dist by (simp add: files map_add_Some_iff)
  have no_gen: "rp_files r' p
      = ((rp_files r ++ map_of (rev edited))([''nest-cli.json''] \<mapsto> nest, [''package.json''] \<mapsto> pkg)) p"
    if "p \<notin> fst ` set (generated_files k)" for p
    using that by (simp add: files map_add_dom_app_simps(3) dom_map_of_conv_image_fst)
  have "[''nest-cli.json''] \<notin> fst ` set (generated_files k)" "[''package.json''] \<notin> fst ` set (generated_files k)"
    using generated_paths(2) by force+
  with no_gen have json: "rp_files r' [''nest-cli.json''] = Some nest" "rp_files r' [''package.json''] = Some pkg"
    by simp_all
  from plan_edits_grown [OF plan planned_edits_insert [OF k]]
  have grown: "grown (rp_files r) edited" and keys: "fst ` set edited = ed_path ` set (planned_edits k)"
    by (simp_all add: grown_def)
  have rest: "rp_files r' p = rp_files r p \<or> p \<in> ed_path ` set (planned_edits k)
      \<and> (\<exists>old new. rp_files r p = Some old \<and> rp_files r' p = Some new \<and> subseq old new)"
    if p: "p \<notin> fst ` set (generated_files k)" "p \<notin> {[''nest-cli.json''], [''package.json'']}" for p
  proof (cases "map_of (rev edited) p")
    case None
    with no_gen [OF p(1)] p(2) show ?thesis by (simp add: map_add_def)
  next
    case (Some new)
    then have new: "(p, new) \<in> set edited" by (auto dest: map_of_SomeD)
    with grown obtain old where "rp_files r p = Some old" "subseq old new" by (auto simp: grown_def)
    moreover have "p \<in> ed_path ` set (planned_edits k)" using new keys by force
    ultimately show ?thesis using no_gen [OF p(1)] p(2) Some by (simp add: map_add_def)
  qed
  show ?thesis
    using Inr name k gen json rest nest pkg
    by (auto simp: edit_json_def read_file_def split: option.splits sum.splits)
qed

theorem scaffold_only_inserts_witness:
  "\<exists>r'. scaffold demo_parse demo_print (Some ''billing'') demo_repo = (Inr (), r')
     \<and> rp_files r' (fst (main_file ''billing'')) = Some (snd (main_file ''billing''))"
proof -
  obtain r' where run: "scaffold demo_parse demo_print (Some ''billing'') demo_repo = (Inr (), r')"
    using demo_succeeds by blast
  from scaffold_only_inserts [OF run]
  have "\<forall>f \<in> set (generated_files ''billing''). rp_files r' (fst f) = Some (snd f)" by auto
  then have "rp_files r' (fst (main_file ''billing'')) = Some (snd (main_file ''billing''))"
    by (simp only: generated_files_def list.set ball_simps simp_thms)
  with run show ?thesis by blast
qed

text \<open>
  C39: the generator works once. After a run that generated a service, in a repository whose RPC client
  declares the union of service names once, as the shipped one does, every later run for any name
  stops without writing anything: the anchor of the union is gone from the file.
\<close>

theorem second_scaffold_aborts:
  assumes run: "scaffold parse print name r = (Inr u, r')"
    and once: "\<And>t. rp_files r rpc_client_path = Some t \<Longrightarrow> occurrences service_union t \<le> 1"
  shows "\<exists>err. scaffold parse print name' r' = (Inl err, r')"
proof -
  from run obtain k edited nest pkg where k: "kebab_name k"
    and plan: "plan_edits (rp_files r) (planned_edits k) [] = Inr edited"
    and r': "r' = commit k edited nest pkg r"
    by (auto elim: scaffold_Inr)
  have "grown (rp_files r) edited"
    using plan_edits_grown [OF plan planned_edits_insert [OF k]] by (simp add: grown_def)
  then have rev: "map_of (rev edited) = map_of edited"
    by (simp add: grown_def map_of_rev_distinct)
  have other: "rpc_client_path \<notin> fst ` set (generated_files k)" 
    using generated_paths(2) by (force simp: rpc_client_path_def service_name_edit_def)
  have at: "rp_files r' rpc_client_path = content_at (rp_files r) edited rpc_client_path"
    using other
    by (simp add: r' commit_files rev content_at_def map_add_dom_app_simps(3) dom_map_of_conv_image_fst
        rpc_client_path_def service_name_edit_def)
  obtain s where s: "rp_files r rpc_client_path = Some s"
    and edits: "\<exists>t. content_at (rp_files r) edited rpc_client_path = Some t
      \<and> apply_edits (filter (\<lambda>e. ed_path e = rpc_client_path) (planned_edits k)) s = Some t"
    using plan_edits_at [OF plan, of rpc_client_path]
    by (cases "rp_files r rpc_client_path") (auto simp: content_at_def rpc_client_edits)
  then obtain t where t: "rp_files r' rpc_client_path = Some t"
    and "apply_edits [service_name_edit k, inject_edit k, routing_edit k, pick_client_edit k] s = Some t"
    by (auto simp: at rpc_client_edits)
  from union_gone [OF k once [OF s] this(2)] have gone: "\<not> str_includes t service_union" .
  have "plan_edits (rp_files r') (planned_edits k') [] \<noteq> Inr edited'" for k' edited'
  proof
    assume "plan_edits (rp_files r') (planned_edits k') [] = Inr edited'"
    from plan_edits_at [OF this, of rpc_client_path] t gone show False
      by (auto simp: content_at_def rpc_client_edits union_anchor)
  qed
  then have "\<nexists>u r2. scaffold parse print name' r' = (Inr u, r2)"
    by (metis scaffold_Inr)
  then show ?thesis
    using scaffold_Inl by (metis prod.exhaust sum.exhaust)
qed

theorem second_scaffold_aborts_witness:
  "\<exists>r' err. scaffold demo_parse demo_print (Some ''billing'') demo_repo = (Inr (), r')
     \<and> scaffold demo_parse demo_print (Some ''habit-tracker'') r' = (Inl err, r')"
proof -
  obtain r' where run: "scaffold demo_parse demo_print (Some ''billing'') demo_repo = (Inr (), r')"
    using demo_succeeds by blast
  have "\<And>t. rp_files demo_repo rpc_client_path = Some t \<Longrightarrow> occurrences service_union t \<le> 1"
    using demo_union by (simp add: demo_repo_def)
  from second_scaffold_aborts [OF run this] run show ?thesis by blast
qed

end
