(* ===== verification/Audit_Env.thy ===== *)
theory Audit_Env
  imports Js_Text Parse_Platform "HOL-Library.List_Lexorder" "HOL-Library.Char_ord"
begin

section \<open>The environment audit\<close>

text \<open>
  \<open>tools/audit-env.mjs\<close> (\<open>pnpm lint:env\<close>): what the code of a scope reads, what its configuration class
  declares, what its \<open>.env.example\<close> documents, and the report of the differences. The repository is a
  tree of directories and files, listed in the order of \<open>readdirSync\<close>. A regular expression is a function
  from the text at a position to what it captures and the text after the match, if it matches there; all
  of the script's have at most one match at a position. A set is a list without repetitions.
\<close>

datatype tree = File string | Dir "(string \<times> tree) list"

text \<open>A match at a position, given the character before: what is captured, what follows.\<close>

type_synonym regex = "char option \<Rightarrow> string \<Rightarrow> (string \<times> string) option"

subsection \<open>The configuration of the script\<close>

record scope =
  sc_name :: string
  sc_code :: "path list"
  sc_env :: path
  sc_config :: "path option"

definition SCOPES :: "scope list" where
  "SCOPES =
     [\<lparr>sc_name = ''gateway'', sc_code = [[''apps'', ''gateway'']],
       sc_env = [''apps'', ''gateway'', ''.env.example''],
       sc_config = Some [''apps'', ''gateway'', ''src'', ''config'', ''gateway.config.ts'']\<rparr>,
      \<lparr>sc_name = ''user'', sc_code = [[''apps'', ''user'']],
       sc_env = [''apps'', ''user'', ''.env.example''],
       sc_config = Some [''apps'', ''user'', ''src'', ''config'', ''user.config.ts'']\<rparr>,
      \<lparr>sc_name = ''task:db-migrate'', sc_code = [[''tasks'', ''db-migrate'']],
       sc_env = [''tasks'', ''db-migrate'', ''.env.example''], sc_config = None\<rparr>,
      \<lparr>sc_name = ''task:user-purge'', sc_code = [[''tasks'', ''user-purge'']],
       sc_env = [''tasks'', ''user-purge'', ''.env.example''], sc_config = None\<rparr>]"

definition SHARED_CONFIGS :: "string \<Rightarrow> string list option" where
  "SHARED_CONFIGS =
     [''ServiceConfig'' \<mapsto> [''MONGO'', ''MONGO_DB'', ''RABBITMQ_URL'', ''RMQ_QUEUE_PREFIX''],
      ''MongoTaskConfig'' \<mapsto> [''MONGO'', ''MONGO_DB'']]"

definition OBSERVABILITY_VARS :: "string list" where
  "OBSERVABILITY_VARS =
     [''NODE_ENV'', ''LOG_LEVEL'', ''LOG_FORMAT'', ''SENTRY_DSN'', ''SENTRY_TRACES_SAMPLE_RATE'', ''RELEASE_TAG'']"

definition BOOTSTRAP_ONLY :: "string \<Rightarrow> string list" where
  "BOOTSTRAP_ONLY name = (if name = ''gateway'' \<or> name = ''user'' then [''RMQ_QUEUE_PREFIX''] else [])"

definition SHARED_LIB_READS :: "string \<Rightarrow> string list" where
  "SHARED_LIB_READS name = (if name = ''gateway'' \<or> name = ''user'' then [''RMQ_QUEUE_PREFIX''] else [])"

definition RESERVED_STUBS :: "string \<Rightarrow> string list" where
  "RESERVED_STUBS name =
     (if name = ''gateway'' then [''VK_ANDROID_SERVICE_TOKEN'', ''VK_IOS_SERVICE_TOKEN''] else [])"

subsection \<open>Files\<close>

fun entry_of :: "(string \<times> tree) list \<Rightarrow> string \<Rightarrow> tree option" where
  "entry_of [] n = None"
| "entry_of ((m, t) # es) n = (if m = n then Some t else entry_of es n)"

fun tree_at :: "tree \<Rightarrow> path \<Rightarrow> tree option" where
  "tree_at t [] = Some t"
| "tree_at (File s) (n # p) = None"
| "tree_at (Dir es) (n # p) = (case entry_of es n of None \<Rightarrow> None | Some t \<Rightarrow> tree_at t p)"

definition read_text :: "tree \<Rightarrow> path \<Rightarrow> exn + string" where
  "read_text root p =
     (case tree_at root p of
        Some (File s) \<Rightarrow> Inr s
      | Some (Dir _) \<Rightarrow> Inl (plain_error ''EISDIR: illegal operation on a directory, read'')
      | None \<Rightarrow> Inl (plain_error (''ENOENT: no such file or directory, open '' @ join_with ''/'' p)))"

text \<open>The texts of the files that \<open>walkTs\<close> finds.\<close>

fun walk_ts :: "(string \<times> tree) list \<Rightarrow> string list" where
  "walk_ts [] = []"
| "walk_ts ((entry, Dir sub) # es) =
     (if entry = ''node_modules'' \<or> entry = ''dist'' then [] else walk_ts sub) @ walk_ts es"
| "walk_ts ((entry, File src) # es) =
     (if suffix ''.ts'' entry \<and> \<not> suffix ''.spec.ts'' entry then [src] else []) @ walk_ts es"

subsection \<open>Regular expressions\<close>

definition upper_alpha :: "char \<Rightarrow> bool" where
  "upper_alpha c \<longleftrightarrow> (let n = (of_char c :: nat) in 65 \<le> n \<and> n \<le> 90)"

definition key_char :: "char \<Rightarrow> bool" where
  "key_char c \<longleftrightarrow> upper_alpha c \<or> (let n = (of_char c :: nat) in 48 \<le> n \<and> n \<le> 57) \<or> c = CHR ''_''"

definition skip_space :: "string \<Rightarrow> string" where
  "skip_space s = dropWhile js_space s"

text \<open>\<open>[A-Z][A-Z0-9_]*\<close>\<close>

definition env_key :: "string \<Rightarrow> (string \<times> string) option" where
  "env_key s =
     (case s of
        [] \<Rightarrow> None
      | c # _ \<Rightarrow> if upper_alpha c then Some (takeWhile key_char s, dropWhile key_char s) else None)"

definition one_of :: "char list \<Rightarrow> string \<Rightarrow> string option" where
  "one_of cs s = (case s of [] \<Rightarrow> None | c # r \<Rightarrow> if c \<in> set cs then Some r else None)"

text \<open>\<open>\s*['"]([A-Z][A-Z0-9_]*)['"]\<close>\<close>

definition quoted_key :: "string \<Rightarrow> (string \<times> string) option" where
  "quoted_key s =
     (case one_of [CHR 0x27, CHR 0x22] (skip_space s) of
        None \<Rightarrow> None
      | Some r \<Rightarrow>
          (case env_key r of
             None \<Rightarrow> None
           | Some (k, r') \<Rightarrow> map_option (Pair k) (one_of [CHR 0x27, CHR 0x22] r')))"

fun first_some :: "('a \<Rightarrow> 'b option) \<Rightarrow> 'a list \<Rightarrow> 'b option" where
  "first_some f [] = None"
| "first_some f (x # xs) = (case f x of None \<Rightarrow> first_some f xs | Some y \<Rightarrow> Some y)"

definition read_bracket :: regex where
  "read_bracket prev s =
     (case Option.bind (lit ''process.env['' s) quoted_key of
        None \<Rightarrow> None
      | Some (k, r) \<Rightarrow> map_option (Pair k) (one_of [CHR '']''] (skip_space r)))"

definition read_dot :: regex where
  "read_dot prev s =
     (case Option.bind (lit ''process.env.'' s) env_key of
        None \<Rightarrow> None
      | Some (k, r) \<Rightarrow> if r \<noteq> [] \<and> word_char (hd r) then None else Some (k, r))"

text \<open>\<open>(?:\s*<[^>]+>)?\<close>\<close>

definition skip_generic :: "string \<Rightarrow> string" where
  "skip_generic s =
     (case one_of [CHR ''<''] (skip_space s) of
        None \<Rightarrow> s
      | Some r \<Rightarrow>
          (case dropWhile (\<lambda>c. c \<noteq> CHR ''>'') r of
             [] \<Rightarrow> s
           | _ # r' \<Rightarrow> if hd r = CHR ''>'' then s else r'))"

definition read_get :: regex where
  "read_get prev s =
     first_some (\<lambda>name.
       case lit name s of
         None \<Rightarrow> None
       | Some r \<Rightarrow> Option.bind (one_of [CHR ''(''] (skip_space (skip_generic r))) quoted_key)
     [''.get'', ''.getOrThrow'']"

definition read_fn :: regex where
  "read_fn prev s =
     (if prev \<noteq> None \<and> word_char (the prev) then None
      else first_some (\<lambda>name. Option.bind (Option.bind (lit name s) (one_of [CHR ''(''])) quoted_key)
             [''requireEnv'', ''optionalEnv'', ''requireEnvInt'', ''requireEnvUrl'', ''requireEnvBase64''])"

definition patterns :: "regex list" where
  "patterns = [read_bracket, read_dot, read_get, read_fn]"

text \<open>
  \<open>while ((m = re.exec(src)) !== null)\<close>: the captures, from left to right, each search starting where the
  last match ended.
\<close>

function (sequential) scan :: "regex \<Rightarrow> char option \<Rightarrow> string \<Rightarrow> string list" where
  "scan re prev s =
     (case re prev s of
        Some (k, r) \<Rightarrow>
          if length r < length s then k # scan re (Some (s ! (length s - length r - 1))) r else [k]
      | None \<Rightarrow> (case s of [] \<Rightarrow> [] | c # s' \<Rightarrow> scan re (Some c) s'))"
  by pat_completeness auto
termination by (relation "measure (\<lambda>(re, prev, s). length s)") auto

declare scan.simps [simp del]

text \<open>\<open>collectReads\<close>; a directory that is not there is skipped.\<close>

fun collect_reads :: "tree \<Rightarrow> path list \<Rightarrow> exn + string list" where
  "collect_reads root [] = Inr []"
| "collect_reads root (d # dirs) =
     (case tree_at root d of
        None \<Rightarrow> collect_reads root dirs
      | Some (File _) \<Rightarrow> Inl (plain_error (''ENOTDIR: not a directory, scandir '' @ join_with ''/'' d))
      | Some (Dir es) \<Rightarrow>
          map_sum (\<lambda>e. e)
            (\<lambda>keys. remdups (concat (map (\<lambda>src. concat (map (\<lambda>re. scan re None src) patterns)) (walk_ts es)) @ keys))
            (collect_reads root dirs))"

subsection \<open>Configuration classes\<close>

definition spaces1 :: "string \<Rightarrow> string option" where
  "spaces1 s = (if s \<noteq> [] \<and> js_space (hd s) then Some (skip_space s) else None)"

definition word1 :: "string \<Rightarrow> (string \<times> string) option" where
  "word1 s =
     (if s \<noteq> [] \<and> word_char (hd s) then Some (takeWhile word_char s, dropWhile word_char s) else None)"

text \<open>\<open>/class\s+\w+\s+extends\s+(\w+)/\<close>\<close>

definition extends_at :: "string \<Rightarrow> string option" where
  "extends_at s =
     (case Option.bind (Option.bind (lit ''class'' s) spaces1) word1 of
        None \<Rightarrow> None
      | Some (_, r) \<Rightarrow>
          map_option fst
            (Option.bind (Option.bind (Option.bind (spaces1 r) (lit ''extends'')) spaces1) word1))"

fun extends_name :: "string \<Rightarrow> string option" where
  "extends_name [] = None"
| "extends_name (c # s) = (case extends_at (c # s) of Some n \<Rightarrow> Some n | None \<Rightarrow> extends_name s)"

text \<open>\<open>/^\s*([A-Z][A-Z0-9_]+)\s*[?!]?\s*[:=]/gm\<close>\<close>

definition field_line :: regex where
  "field_line prev s =
     (if prev \<noteq> None \<and> \<not> (the prev = newline \<or> the prev = CHR 0x0D) then None
      else case env_key (skip_space s) of
        None \<Rightarrow> None
      | Some (k, r) \<Rightarrow>
          if length k < 2 then None
          else
            let r1 = skip_space r;
                r2 = (case one_of [CHR ''?'', CHR ''!''] r1 of None \<Rightarrow> r1 | Some r' \<Rightarrow> skip_space r')
            in map_option (Pair k) (one_of [CHR '':'', CHR ''=''] r2))"

definition collect_config_fields :: "tree \<Rightarrow> path option \<Rightarrow> exn + string list \<times> string option" where
  "collect_config_fields root configPath =
     (case configPath of
        None \<Rightarrow> Inr ([], None)
      | Some p \<Rightarrow>
          map_sum (\<lambda>e. e) (\<lambda>src. (remdups (scan field_line None src), extends_name src)) (read_text root p))"

subsection \<open>\<open>.env.example\<close>\<close>

text \<open>\<open>/^([A-Z][A-Z0-9_]*)\s*=/\<close>, and with \<open>/^\s*#+\s+\<close> before it.\<close>

definition assigned_key :: "string \<Rightarrow> string option" where
  "assigned_key s =
     (case env_key s of
        None \<Rightarrow> None
      | Some (k, r) \<Rightarrow> (case one_of [CHR ''=''] (skip_space r) of None \<Rightarrow> None | Some _ \<Rightarrow> Some k))"

definition hinted_key :: "string \<Rightarrow> string option" where
  "hinted_key line =
     (let s = skip_space line in
      if s \<noteq> [] \<and> hd s = CHR ''#''
      then Option.bind (spaces1 (dropWhile (\<lambda>c. c = CHR ''#'') s)) assigned_key
      else None)"

definition env_line_key :: "string \<Rightarrow> string option" where
  "env_line_key line =
     (let t = js_trim line in
      if t = [] then None
      else case hinted_key line of
        Some k \<Rightarrow> Some k
      | None \<Rightarrow> if hd t = CHR ''#'' then None else assigned_key t)"

definition collect_env_example :: "tree \<Rightarrow> path \<Rightarrow> exn + string list" where
  "collect_env_example root p =
     map_sum (\<lambda>e. e) (\<lambda>src. remdups (List.map_filter env_line_key (split_on newline src))) (read_text root p)"

subsection \<open>The audit\<close>

record audit_finding =
  af_scope :: string
  af_configFile :: string
  af_envFile :: string
  af_readsMinusConfig :: "string list"
  af_configMinusReads :: "string list"
  af_readsMinusEnv :: "string list"
  af_envMinusReads :: "string list"

text \<open>
  The fields that count as declared. \<open>SHARED_CONFIGS[extendsName]\<close> also finds what every object
  inherits, which cannot be iterated.
\<close>

definition inherited_fields :: "string option \<Rightarrow> exn + string list" where
  "inherited_fields extendsName =
     (case extendsName of
        None \<Rightarrow> Inr []
      | Some n \<Rightarrow>
          if n \<in> set object_prototype_keys then Inl (plain_error ''TypeError'')
          else Inr (nullish (SHARED_CONFIGS n) []))"

definition task_scope :: "scope \<Rightarrow> bool" where
  "task_scope sc = prefix ''task:'' (sc_name sc)"

definition effective_fields :: "scope \<Rightarrow> string list \<Rightarrow> string list" where
  "effective_fields sc allConfigFields =
     (if sc_config sc \<noteq> None then allConfigFields
      else if task_scope sc then the (SHARED_CONFIGS ''MongoTaskConfig'')
      else the (SHARED_CONFIGS ''ServiceConfig''))"

definition finding_of :: "scope \<Rightarrow> string list \<Rightarrow> string list \<Rightarrow> string list \<Rightarrow> audit_finding" where
  "finding_of sc codeReads envDeclared declared =
     (let observability = set OBSERVABILITY_VARS; stubs = set (RESERVED_STUBS (sc_name sc)) in
      \<lparr>af_scope = sc_name sc,
       af_configFile =
         (case sc_config sc of
            Some p \<Rightarrow> join_with ''/'' p
          | None \<Rightarrow> ''(shared '' @ (if task_scope sc then ''MongoTaskConfig'' else ''ServiceConfig'') @ '')''),
       af_envFile = join_with ''/'' (sc_env sc),
       af_readsMinusConfig =
         filter (\<lambda>k. k \<notin> set declared \<and> k \<notin> observability \<and> k \<notin> set (BOOTSTRAP_ONLY (sc_name sc))) codeReads,
       af_configMinusReads =
         filter (\<lambda>k. k \<notin> set codeReads \<and> k \<notin> stubs \<and> k \<notin> set (SHARED_LIB_READS (sc_name sc))) declared,
       af_readsMinusEnv = filter (\<lambda>k. k \<notin> set envDeclared \<and> k \<notin> observability) codeReads,
       af_envMinusReads =
         filter (\<lambda>k. k \<notin> set codeReads \<and> k \<notin> observability \<and> k \<notin> set declared \<and> k \<notin> stubs) envDeclared\<rparr>)"

definition audit_scope :: "tree \<Rightarrow> scope \<Rightarrow> exn + audit_finding" where
  "audit_scope root sc =
     (case collect_reads root (sc_code sc) of
        Inl e \<Rightarrow> Inl e
      | Inr codeReads \<Rightarrow>
          (case collect_env_example root (sc_env sc) of
             Inl e \<Rightarrow> Inl e
           | Inr envDeclared \<Rightarrow>
               (case collect_config_fields root (sc_config sc) of
                  Inl e \<Rightarrow> Inl e
                | Inr (ownFields, extendsName) \<Rightarrow>
                    (case inherited_fields extendsName of
                       Inl e \<Rightarrow> Inl e
                     | Inr inherited \<Rightarrow>
                         Inr (finding_of sc codeReads envDeclared
                                (effective_fields sc (remdups (ownFields @ inherited))))))))"

fun audit_scopes :: "tree \<Rightarrow> scope list \<Rightarrow> exn + audit_finding list" where
  "audit_scopes root [] = Inr []"
| "audit_scopes root (sc # scs) =
     (case audit_scope root sc of
        Inl e \<Rightarrow> Inl e
      | Inr f \<Rightarrow> map_sum (\<lambda>e. e) ((#) f) (audit_scopes root scs))"

subsection \<open>The report\<close>

definition fmt_set :: "string list \<Rightarrow> string" where
  "fmt_set s = (if s = [] then ''-'' else join_with '', '' (sort s))"

definition report_line :: "string \<Rightarrow> string list \<Rightarrow> string list" where
  "report_line title ks = (if ks = [] then [] else [unlines [''   '' @ title @ '':'', ''        '' @ fmt_set ks]])"

definition silent :: "audit_finding \<Rightarrow> bool" where
  "silent f \<longleftrightarrow> af_readsMinusConfig f = [] \<and> af_configMinusReads f = [] \<and> af_readsMinusEnv f = []
     \<and> af_envMinusReads f = []"

definition report_finding :: "audit_finding \<Rightarrow> string list" where
  "report_finding f =
     (if silent f then []
      else [newline # ''-- '' @ af_scope f @ '' --'',
            ''   config: '' @ af_configFile f,
            ''   env:    '' @ af_envFile f]
           @ report_line ''!  VALIDATION HOLE (read in code, not on config class)'' (af_readsMinusConfig f)
           @ report_line ''!  DECORATIVE FIELDS (on config class, never read)'' (af_configMinusReads f)
           @ report_line ''!  DOC GAP (read in code, missing from .env.example)'' (af_readsMinusEnv f)
           @ report_line ''!  STALE ENV (in .env.example, not read, not on config)'' (af_envMinusReads f))"

text \<open>The console lines and the exit code; an uncaught exception is the error branch.\<close>

definition audit_env :: "tree \<Rightarrow> exn + string list \<times> nat" where
  "audit_env root =
     (case audit_scopes root SCOPES of
        Inl e \<Rightarrow> Inl e
      | Inr findings \<Rightarrow>
          let any = list_ex (\<lambda>f. \<not> silent f) findings in
          Inr (concat (map report_finding findings)
               @ (if any then [] else [newline # ''ok all scopes consistent: every read is declared on a config class AND in .env.example, no decorative fields, no stale env entries.''])
               @ [[]],
               if any then 1 else 0))"

subsection \<open>The scanner finds every call\<close>

definition quotes :: "char list" where
  "quotes = [CHR 0x27, CHR 0x22]"

definition reader_names :: "string list" where
  "reader_names = [''requireEnv'', ''optionalEnv'', ''requireEnvInt'', ''requireEnvUrl'', ''requireEnvBase64'']"

definition key_name :: "string \<Rightarrow> bool" where
  "key_name k \<longleftrightarrow> k \<noteq> [] \<and> upper_alpha (hd k) \<and> list_all key_char k"

lemma one_of_Some: "one_of cs s = Some r \<longleftrightarrow> (\<exists>c \<in> set cs. s = c # r)"
  by (cases s) (auto simp: one_of_def)

lemma quote_no_key: "q \<in> set quotes \<Longrightarrow> \<not> key_char q \<and> \<not> js_space q"
  by (auto simp: quotes_def key_char_def upper_alpha_def js_space_def)

lemma env_key_Some: "env_key s = Some (k, r) \<Longrightarrow> s = k @ r \<and> list_all key_char k"
  by (auto simp: env_key_def list_all_iff dest: set_takeWhileD split: list.splits if_splits)

lemma env_key_I:
  assumes "key_name k" and "q \<in> set quotes"
  shows "env_key (k @ q # r) = Some (k, q # r)"
proof -
  from assms have "takeWhile key_char (k @ q # r) = k" "dropWhile key_char (k @ q # r) = q # r"
    using quote_no_key [OF assms(2)] by (simp_all add: key_name_def list_all_iff takeWhile_append2 dropWhile_append2)
  then show ?thesis using assms(1) by (cases k) (simp_all add: env_key_def key_name_def)
qed

lemma quoted_key_Some:
  assumes "quoted_key s = Some (k, r)"
  shows "\<exists>sp q q'. s = sp @ q # k @ q' # r \<and> list_all js_space sp \<and> q \<in> set quotes \<and> q' \<in> set quotes
    \<and> list_all key_char k"
proof -
  from assms obtain r1 r2 where 1: "one_of quotes (skip_space s) = Some r1" and 2: "env_key r1 = Some (k, r2)"
    and 3: "one_of quotes r2 = Some r"
    by (auto simp: quoted_key_def quotes_def split: option.splits)
  from 1 3 obtain q q' where q: "q \<in> set quotes" "skip_space s = q # r1" and q': "q' \<in> set quotes" "r2 = q' # r"
    by (auto simp: one_of_Some)
  have "s = takeWhile js_space s @ q # k @ q' # r"
    using q(2) q'(2) env_key_Some [OF 2] by (metis skip_space_def takeWhile_dropWhile_id append_Cons append_assoc)
  moreover have "list_all js_space (takeWhile js_space s)" by (auto simp: list_all_iff dest: set_takeWhileD)
  ultimately show ?thesis using q q' env_key_Some [OF 2] by blast
qed

lemma quoted_key_I:
  assumes "list_all js_space sp" and "q \<in> set quotes" and "q' \<in> set quotes" and "key_name k"
  shows "quoted_key (sp @ q # k @ q' # r) = Some (k, r)"
proof -
  have "skip_space (sp @ q # k @ q' # r) = q # k @ q' # r"
    using assms(1) quote_no_key [OF assms(2)] by (simp add: skip_space_def list_all_iff dropWhile_append2)
  with assms show ?thesis by (simp add: quoted_key_def one_of_def env_key_I quotes_def [symmetric])
qed

lemma first_some_Some: "first_some f xs = Some y \<Longrightarrow> \<exists>x \<in> set xs. f x = Some y"
  by (induction xs) (auto split: option.splits)

text \<open>What a match of a reader call consists of.\<close>

definition reader_call :: "string \<Rightarrow> string \<Rightarrow> bool" where
  "reader_call k w \<longleftrightarrow> (\<exists>name \<in> set reader_names. \<exists>sp q q'. w = name @ CHR ''('' # sp @ q # k @ [q']
     \<and> list_all js_space sp \<and> q \<in> set quotes \<and> q' \<in> set quotes \<and> list_all key_char k)"

lemma read_fn_Some: "read_fn p u = Some (k, r) \<Longrightarrow> \<exists>w. u = w @ r \<and> reader_call k w"
proof -
  assume "read_fn p u = Some (k, r)"
  then have "first_some (\<lambda>name. Option.bind (Option.bind (lit name u) (one_of [CHR ''(''])) quoted_key) reader_names
      = Some (k, r)"
    by (simp add: read_fn_def reader_names_def split: if_splits)
  from first_some_Some [OF this] obtain name r1 r2 where n: "name \<in> set reader_names" "lit name u = Some r1"
    "one_of [CHR ''(''] r1 = Some r2" "quoted_key r2 = Some (k, r)"
    by (auto simp: bind_eq_Some_conv)
  from quoted_key_Some [OF n(4)] obtain sp q q' where "r2 = sp @ q # k @ q' # r" "list_all js_space sp"
    "q \<in> set quotes" "q' \<in> set quotes" "list_all key_char k" by blast
  with n show ?thesis
    by (intro exI [of _ "name @ CHR ''('' # sp @ q # k @ [q']"])
      (auto simp: reader_call_def lit_Some one_of_Some)
qed

lemma read_fn_I:
  assumes name: "name \<in> set reader_names" and rest: "list_all js_space sp" "q \<in> set quotes" "q' \<in> set quotes" "key_name k"
    and prev: "p = None \<or> \<not> word_char (the p)"
  shows "read_fn p (name @ CHR ''('' # sp @ q # k @ q' # r) = Some (k, r)"
  using name prev quoted_key_I [OF rest, of r]
  by (auto simp: read_fn_def reader_names_def lit_def one_of_def)

text \<open>
  A match is found if no earlier one runs into it. \<open>before p a\<close> is the character before what follows
  \<open>a\<close>.
\<close>

definition before :: "char option \<Rightarrow> string \<Rightarrow> char option" where
  "before p a = (if a = [] then p else Some (last a))"

lemma scan_finds:
  assumes match: "re (before p a) t = Some (k, r)"
    and suffix: "\<forall>p u k r. re p u = Some (k, r) \<longrightarrow> suffix r u"
    and apart: "\<forall>a1 a2 p k r. a = a1 @ a2 \<longrightarrow> a2 \<noteq> [] \<longrightarrow> re p (a2 @ t) = Some (k, r) \<longrightarrow>
      length t \<le> length r \<and> length r < length (a2 @ t)"
  shows "k \<in> set (scan re p (a @ t))"
  using match apart
proof (induction a arbitrary: p rule: length_induct)
  case (1 a)
  show ?case
  proof (cases a)
    case Nil
    with 1(2) show ?thesis by (simp add: scan.simps [of re p t] before_def)
  next
    case (Cons c a')
    show ?thesis
    proof (cases "re p (a @ t)")
      case None
      have "re (before (Some c) a') t = Some (k, r)" using 1(2) by (simp add: Cons before_def split: if_splits)
      moreover have "\<forall>a1 a2 p k r. a' = a1 @ a2 \<longrightarrow> a2 \<noteq> [] \<longrightarrow> re p (a2 @ t) = Some (k, r) \<longrightarrow>
          length t \<le> length r \<and> length r < length (a2 @ t)"
        using 1(3) unfolding Cons by (metis append_Cons)
      ultimately have "k \<in> set (scan re (Some c) (a' @ t))" using 1(1) Cons by simp
      with None show ?thesis unfolding scan.simps [of re p "a @ t"] by (simp add: Cons)
    next
      case (Some m)
      then obtain k' r' where m: "re p (a @ t) = Some (k', r')" by (cases m) auto
      have len: "length t \<le> length r'" "length r' < length (a @ t)" using 1(3) Cons m by (metis append_Nil list.distinct(1))+
      obtain w where w: "a @ t = w @ r'" using suffix m unfolding suffix_def by blast
      with len obtain a2 where a2: "a = w @ a2" "r' = a2 @ t"
        by (auto simp: append_eq_append_conv2)
      have ne: "w \<noteq> []" using w len by auto
      have "(a @ t) ! (length (a @ t) - length r' - 1) = last w"
        using ne by (simp add: w nth_append last_conv_nth)
      moreover have "re (before (Some (last w)) a2) t = Some (k, r)"
        using 1(2) ne by (cases "a2 = []") (simp_all add: a2 before_def)
      moreover have "\<forall>a1 a2' p k r. a2 = a1 @ a2' \<longrightarrow> a2' \<noteq> [] \<longrightarrow> re p (a2' @ t) = Some (k, r) \<longrightarrow>
          length t \<le> length r \<and> length r < length (a2' @ t)"
        using 1(3) unfolding a2(1) by (metis append.assoc)
      ultimately have "k \<in> set (scan re (Some ((a @ t) ! (length (a @ t) - length r' - 1))) r')"
        using 1(1) ne a2 by simp
      with m len show ?thesis unfolding scan.simps [of re p "a @ t"] by simp
    qed
  qed
qed

lemma reader_names_chars:
  "name \<in> set reader_names \<Longrightarrow> list_all word_char name \<and> name \<noteq> [] \<and> hd name \<in> {CHR ''r'', CHR ''o''}"
  by (auto simp: reader_names_def word_char_def)

lemma no_reader_char:
  assumes "c \<in> set (CHR ''('' # sp @ q # k @ [q'])" and "list_all js_space sp" and "q \<in> set quotes"
    and "q' \<in> set quotes" and "list_all key_char k"
  shows "c \<notin> {CHR ''r'', CHR ''o''}"
  using assms by (auto simp: quotes_def list_all_iff js_space_def key_char_def upper_alpha_def)

text \<open>A call that stands behind no word character is in no other match.\<close>

lemma reader_calls_apart:
  assumes call: "reader_call k w" and w: "w = a @ v" and a: "a \<noteq> []" "\<not> word_char (last a)"
    and v: "v \<noteq> []"
  shows "hd v \<notin> {CHR ''r'', CHR ''o''}"
proof -
  from call obtain name sp q q' where n: "name \<in> set reader_names"
    and w': "w = name @ CHR ''('' # sp @ q # k @ [q']"
    and rest: "list_all js_space sp" "q \<in> set quotes" "q' \<in> set quotes" "list_all key_char k"
    unfolding reader_call_def by blast
  from w w' have "name @ CHR ''('' # sp @ q # k @ [q'] = a @ v" by simp
  then consider u where "name = a @ u" | u where "a = name @ u" "CHR ''('' # sp @ q # k @ [q'] = u @ v"
    unfolding append_eq_append_conv2 by blast
  then show ?thesis
  proof cases
    case 1
    with reader_names_chars [OF n] a show ?thesis by (simp add: list_all_iff)
  next
    case 2
    with v have "hd v \<in> set (CHR ''('' # sp @ q # k @ [q'])" by (metis Un_iff hd_in_set set_append)
    from no_reader_char [OF this rest] show ?thesis .
  qed
qed

lemma reads_call:
  assumes name: "name \<in> set reader_names" and rest: "list_all js_space sp" "q \<in> set quotes" "q' \<in> set quotes" "key_name k"
    and src: "src = a @ name @ CHR ''('' # sp @ q # k @ q' # b" and free: "a = [] \<or> \<not> word_char (last a)"
  shows "k \<in> set (scan read_fn None src)"
  unfolding src
proof (rule scan_finds)
  let ?t = "name @ CHR ''('' # sp @ q # k @ q' # b"
  show "read_fn (before None a) ?t = Some (k, b)"
    using free by (intro read_fn_I [OF name rest]) (auto simp: before_def)
  show "\<forall>p u k r. read_fn p u = Some (k, r) \<longrightarrow> suffix r u"
    unfolding suffix_def using read_fn_Some by blast
  show "\<forall>a1 a2 p k r. a = a1 @ a2 \<longrightarrow> a2 \<noteq> [] \<longrightarrow> read_fn p (a2 @ ?t) = Some (k, r) \<longrightarrow>
      length ?t \<le> length r \<and> length r < length (a2 @ ?t)"
  proof (intro allI impI conjI)
    fix a1 a2 p k' r
    assume a: "a = a1 @ a2" "a2 \<noteq> []" and m: "read_fn p (a2 @ ?t) = Some (k', r)"
    from read_fn_Some [OF m] obtain w where w: "a2 @ ?t = w @ r" and call: "reader_call k' w" by blast
    from call have "w \<noteq> []" by (auto simp: reader_call_def)
    with w show "length r < length (a2 @ ?t)" by simp
    show "length ?t \<le> length r"
    proof (rule ccontr)
      assume "\<not> length ?t \<le> length r"
      moreover from w have "length a2 + length ?t = length w + length r" by (metis length_append)
      ultimately have "length a2 < length w" by linarith
      with w obtain v where v: "w = a2 @ v" "?t = v @ r" by (auto simp: append_eq_append_conv2)
      then have "v \<noteq> []" using \<open>length a2 < length w\<close> by auto
      with v(2) reader_names_chars [OF name] have "hd v \<in> {CHR ''r'', CHR ''o''}" by (cases name; cases v) auto
      with reader_calls_apart [OF call v(1) a(2) _ \<open>v \<noteq> []\<close>] free a show False by auto
    qed
  qed
qed

subsection \<open>Properties\<close>

lemma audit_scopes_Inr:
  "audit_scopes root scs = Inr fs \<Longrightarrow> list_all2 (\<lambda>sc f. audit_scope root sc = Inr f) scs fs"
proof (induction scs arbitrary: fs)
  case (Cons sc scs)
  then obtain f where f: "audit_scope root sc = Inr f" by (auto split: sum.splits)
  with Cons.prems obtain fs' where "audit_scopes root scs = Inr fs'" "fs = f # fs'"
    by (cases "audit_scopes root scs") auto
  with Cons.IH f show ?case by simp
qed simp

lemma audit_env_scope:
  assumes run: "audit_env root = Inr (out, code)" and sc: "sc \<in> set SCOPES"
  obtains f where "audit_scope root sc = Inr f" and "code = 0 \<Longrightarrow> silent f" and "\<not> silent f \<Longrightarrow> code = 1"
proof -
  from run obtain fs where fs: "audit_scopes root SCOPES = Inr fs"
    and code: "code = (if list_ex (\<lambda>f. \<not> silent f) fs then 1 else 0)"
    by (auto simp: audit_env_def Let_def split: sum.splits)
  from sc obtain i where i: "i < length SCOPES" "SCOPES ! i = sc" by (auto simp: in_set_conv_nth)
  then have "audit_scope root sc = Inr (fs ! i)" and "fs ! i \<in> set fs"
    using list_all2_nthD [OF audit_scopes_Inr [OF fs] i(1)] list_all2_lengthD [OF audit_scopes_Inr [OF fs]]
    by simp_all
  with code that show ?thesis by (auto simp: list_ex_iff split: if_splits)
qed

lemma audit_scope_Inr:
  assumes "audit_scope root sc = Inr f"
  obtains reads docs own ext inh where "collect_reads root (sc_code sc) = Inr reads"
    and "collect_env_example root (sc_env sc) = Inr docs" and "collect_config_fields root (sc_config sc) = Inr (own, ext)"
    and "inherited_fields ext = Inr inh" and "f = finding_of sc reads docs (effective_fields sc (remdups (own @ inh)))"
  using assms by (auto simp: audit_scope_def split: sum.splits prod.splits)

lemma collect_reads_scan:
  assumes "collect_reads root dirs = Inr reads" and "d \<in> set dirs" and "tree_at root d = Some (Dir es)"
    and "src \<in> set (walk_ts es)" and "re \<in> set patterns" and "k \<in> set (scan re None src)"
  shows "k \<in> set reads"
  using assms(1,2)
proof (induction dirs arbitrary: reads)
  case (Cons d' dirs)
  show ?case
  proof (cases "tree_at root d'")
    case None
    with Cons assms(3) show ?thesis by auto
  next
    case (Some t)
    with Cons.prems(1) obtain es' where t: "t = Dir es'" by (cases t) auto
    with Some Cons.prems(1) obtain keys where keys: "collect_reads root dirs = Inr keys"
      by (cases "collect_reads root dirs") auto
    with Some t Cons.prems(1) have "reads
        = remdups (concat (map (\<lambda>src. concat (map (\<lambda>re. scan re None src) patterns)) (walk_ts es')) @ keys)"
      by simp
    then have reads: "set reads
        = set (concat (map (\<lambda>src. concat (map (\<lambda>re. scan re None src) patterns)) (walk_ts es'))) \<union> set keys"
      by (simp only: set_remdups set_append)
    show ?thesis
    proof (cases "d = d'")
      case True
      with Some t assms(3) have "es' = es" by simp
      with assms(4-6) reads show ?thesis by auto
    next
      case False
      with Cons keys have "k \<in> set keys" by auto
      with reads show ?thesis by simp
    qed
  qed
qed simp

text \<open>
  A passing audit vouches for every call of the environment helpers. When \<open>pnpm lint:env\<close> exits with 0,
  each variable that some source file of a scope asks \<open>requireEnv\<close>, \<open>optionalEnv\<close> or one of their variants
  for is declared for the scope (or on one of the script's lists of exceptions) and documented in the
  scope's \<open>.env.example\<close>.
\<close>

theorem passing_audit_covers_helper_reads:
  assumes run: "audit_env root = Inr (out, 0)" and sc: "sc \<in> set SCOPES"
    and source: "d \<in> set (sc_code sc)" "tree_at root d = Some (Dir es)" "src \<in> set (walk_ts es)"
    and call: "src = a @ name @ CHR ''('' # sp @ q # k @ q' # b" "name \<in> set reader_names"
      "list_all js_space sp" "q \<in> set quotes" "q' \<in> set quotes" "key_name k" "a = [] \<or> \<not> word_char (last a)"
  shows "\<exists>docs own ext inh. collect_env_example root (sc_env sc) = Inr docs
    \<and> collect_config_fields root (sc_config sc) = Inr (own, ext) \<and> inherited_fields ext = Inr inh
    \<and> k \<in> set (effective_fields sc (own @ inh)) \<union> set OBSERVABILITY_VARS \<union> set (BOOTSTRAP_ONLY (sc_name sc))
    \<and> k \<in> set docs \<union> set OBSERVABILITY_VARS"
proof -
  obtain f where f: "audit_scope root sc = Inr f" and silent: "silent f"
    using audit_env_scope [OF run sc] by blast
  from audit_scope_Inr [OF f] obtain reads docs own ext inh where
    parts: "collect_reads root (sc_code sc) = Inr reads" "collect_env_example root (sc_env sc) = Inr docs"
      "collect_config_fields root (sc_config sc) = Inr (own, ext)" "inherited_fields ext = Inr inh"
    and fnd: "f = finding_of sc reads docs (effective_fields sc (remdups (own @ inh)))" by blast
  have "k \<in> set (scan read_fn None src)" by (rule reads_call [OF call(2-6) call(1,7)])
  then have k: "k \<in> set reads" using collect_reads_scan [OF parts(1) source, of read_fn k] by (simp add: patterns_def)
  have "set (effective_fields sc (remdups (own @ inh))) = set (effective_fields sc (own @ inh))"
    by (simp add: effective_fields_def)
  with silent k have "k \<in> set (effective_fields sc (own @ inh)) \<union> set OBSERVABILITY_VARS \<union> set (BOOTSTRAP_ONLY (sc_name sc))"
    and "k \<in> set docs \<union> set OBSERVABILITY_VARS"
    by (auto simp: silent_def fnd finding_of_def Let_def filter_empty_conv)
  with parts show ?thesis by blast
qed

text \<open>A repository with one variable per scope that passes, and one with the shipped \<open>main.ts\<close> of the task.\<close>

definition scope_dir :: "string list \<Rightarrow> string list \<Rightarrow> string list \<Rightarrow> tree" where
  "scope_dir docs config main =
     Dir [(''.env.example'', File (unlines docs)),
          (''src'', Dir [(''config'', Dir [(''gateway.config.ts'', File (unlines config)),
                                           (''user.config.ts'', File (unlines config))]),
                         (''main.ts'', File (unlines main))])]"

definition demo_tree :: "string list \<Rightarrow> tree" where
  "demo_tree purge_main =
     Dir [(''apps'', Dir [(''gateway'', scope_dir [''# port'', ''PORT=3000''] [''class C {'', ''  PORT?: number;'', ''}'']
                            [''const p = requireEnv('PORT');'']),
                          (''user'', scope_dir [''SMTP_HOST=''] [''class U {'', ''  SMTP_HOST!: string;'', ''}'']
                            [''x(process.env.SMTP_HOST)''])]),
          (''tasks'', Dir [(''db-migrate'', scope_dir [''MONGO=m'', ''MONGO_DB=d''] []
                             [''f(requireEnv('MONGO'), requireEnv('MONGO_DB'))'']),
                           (''user-purge'', scope_dir [''MONGO=m'', ''MONGO_DB=d''] [] purge_main)])]"

definition purge_main :: "string list" where
  "purge_main =
     [''import { assertRequiredEnv, bootstrapTask } from '@app/common';'',
      ''import { UserPurgeModule } from './app.module';'',
      ''import { UserPurgeTask } from './task.service';'',
      [],
      ''assertRequiredEnv(['MONGO', 'MONGO_DB']);'',
      [],
      ''void bootstrapTask('',
      ''  UserPurgeModule,'',
      ''  { serviceName: 'task:user-purge' },'',
      ''  async (app) => {'',
      ''    await app.get(UserPurgeTask).run();'',
      ''  },'',
      '');'',
      []]"

theorem passing_audit_covers_helper_reads_witness:
  "\<exists>out. audit_env (demo_tree [''g(requireEnv('MONGO'), optionalEnv('MONGO_DB', 'd'))'']) = Inr (out, 0)
     \<and> (\<exists>docs. collect_env_example (demo_tree [''g(requireEnv('MONGO'), optionalEnv('MONGO_DB', 'd'))''])
           [''apps'', ''gateway'', ''.env.example''] = Inr docs \<and> ''PORT'' \<in> set docs \<union> set OBSERVABILITY_VARS)"
proof -
  let ?root = "demo_tree [''g(requireEnv('MONGO'), optionalEnv('MONGO_DB', 'd'))'']"
  have "map_sum (\<lambda>e. ()) snd (audit_env ?root) = Inr 0" by code_simp
  then obtain out where run: "audit_env ?root = Inr (out, 0)" by (cases "audit_env ?root") auto
  let ?es = "[(''.env.example'', File (unlines [''# port'', ''PORT=3000''])),
    (''src'', Dir [(''config'', Dir [(''gateway.config.ts'', File (unlines [''class C {'', ''  PORT?: number;'', ''}''])),
       (''user.config.ts'', File (unlines [''class C {'', ''  PORT?: number;'', ''}'']))]),
     (''main.ts'', File (unlines [''const p = requireEnv('PORT');'']))])]"
  have sc: "SCOPES ! 0 \<in> set SCOPES" by (simp add: SCOPES_def)
  have d: "[''apps'', ''gateway''] \<in> set (sc_code (SCOPES ! 0))" by (simp add: SCOPES_def)
  have at: "tree_at ?root [''apps'', ''gateway''] = Some (Dir ?es)" by (simp add: demo_tree_def scope_dir_def)
  have src: "''const p = requireEnv('PORT');'' \<in> set (walk_ts ?es)" by (simp add: unlines_def suffix_def)
  have split: "''const p = requireEnv('PORT');''
      = ''const p = '' @ ''requireEnv'' @ CHR ''('' # [] @ CHR 0x27 # ''PORT'' @ CHR 0x27 # '');''" by simp
  have key: "key_name ''PORT''" by (simp add: key_name_def key_char_def upper_alpha_def)
  from passing_audit_covers_helper_reads [OF run sc d at src split _ _ _ _ key]
  obtain docs where "collect_env_example ?root (sc_env (SCOPES ! 0)) = Inr docs"
    "''PORT'' \<in> set docs \<union> set OBSERVABILITY_VARS"
    by (auto simp: reader_names_def quotes_def word_char_def)
  with run show ?thesis by (auto simp: SCOPES_def)
qed

text \<open>
  As the repository stands the audit cannot pass: the purge task counts as declaring \<open>MONGO\<close> and
  \<open>MONGO_DB\<close>, but it leaves reading them to \<open>DatabaseModule.forTask\<close>, and its list in
  \<open>assertRequiredEnv([...])\<close> is no read for the scanner. The exit code is 1 whenever the sources of the
  task do not read \<open>MONGO\<close> themselves.
\<close>

theorem audit_fails_on_purge_task:
  assumes run: "audit_env root = Inr (out, code)"
    and reads: "collect_reads root [[''tasks'', ''user-purge'']] = Inr reads" and no: "''MONGO'' \<notin> set reads"
  shows "code = 1"
proof -
  let ?sc = "SCOPES ! 3"
  have sc: "?sc \<in> set SCOPES" by (simp add: SCOPES_def)
  obtain f where f: "audit_scope root ?sc = Inr f" and code: "\<not> silent f \<Longrightarrow> code = 1"
    using audit_env_scope [OF run sc] by blast
  from audit_scope_Inr [OF f] obtain rs docs declared where
    "collect_reads root (sc_code ?sc) = Inr rs" and fnd: "f = finding_of ?sc rs docs (effective_fields ?sc declared)"
    by blast
  then have "rs = reads" using reads by (simp add: SCOPES_def)
  with no have "''MONGO'' \<in> set (af_configMinusReads f)"
    by (simp add: fnd finding_of_def Let_def effective_fields_def task_scope_def SCOPES_def SHARED_CONFIGS_def
        RESERVED_STUBS_def SHARED_LIB_READS_def)
  then have "\<not> silent f" by (auto simp: silent_def)
  then show ?thesis by (rule code)
qed

theorem audit_fails_on_purge_task_witness:
  "\<exists>out. audit_env (demo_tree purge_main) = Inr (out, 1)"
proof -
  let ?root = "demo_tree purge_main"
  have "map_sum (\<lambda>e. ()) (\<lambda>r. ()) (audit_env ?root) = Inr ()" by code_simp
  then obtain out code where run: "audit_env ?root = Inr (out, code)" by (cases "audit_env ?root") auto
  have "collect_reads ?root [[''tasks'', ''user-purge'']] = Inr []" by code_simp
  from audit_fails_on_purge_task [OF run this] run show ?thesis by simp
qed

end
