(* ===== verification/Messaging.thy ===== *)
theory Messaging
  imports Event_Bus Parse_Platform
begin

section \<open>Messaging: topology, wiring and trace ids\<close>

text \<open>
  The connection side of \<open>EventBusService\<close> (\<open>libs/messaging/src/amqp/event-bus.service.ts\<close>),
  \<open>MessagingModule.build\<close> (\<open>libs/messaging/src/messaging.module.ts\<close>), the point-to-point \<open>emit\<close>
  of \<open>RpcClientService\<close>, the RMQ options of \<open>bootstrapService\<close>, and the trace id a request carries
  across the wire (\<open>libs/common/src/context/async-storage.ts\<close>, \<open>RpcContextInterceptor\<close>). The
  broker and its client library are not part of the repository: a channel operation and a connection
  attempt answer through parameters.
\<close>

subsection \<open>The bus's topology\<close>

record event_bus_options =
  eb_url :: string
  eb_selfQueue :: "string option"
  eb_subscribesTo :: "string list option"
  eb_deadLetterQueue :: "string option"

datatype channel_op =
    AssertTopicExchange string
  | AssertDurableQueue string
  | BindQueue string string string  \<comment> \<open>queue, exchange, routing key\<close>

text \<open>The operations of the channel's \<open>setup\<close>, in order.\<close>

definition bus_setup :: "environment \<Rightarrow> event_bus_options \<Rightarrow> channel_op list" where
  "bus_setup env opts =
     (let exchange = events_exchange_name env;
          dlx = events_dlx_name env;
          subs = nullish (eb_subscribesTo opts) [];
          selfQueue = eb_selfQueue opts
      in [AssertTopicExchange exchange, AssertTopicExchange dlx]
         @ (if truthy selfQueue \<and> subs \<noteq> []
            then map (\<lambda>pattern. BindQueue (the selfQueue) exchange pattern) subs else [])
         @ (if truthy (eb_deadLetterQueue opts) \<and> truthy selfQueue
            then [AssertDurableQueue (the (eb_deadLetterQueue opts)),
                  BindQueue (the (eb_deadLetterQueue opts)) dlx (the selfQueue)]
            else []))"

text \<open>\<open>setup\<close> awaits one operation after the other; the first that fails ends it.\<close>

fun run_setup :: "(channel_op \<Rightarrow> exn option) \<Rightarrow> channel_op list \<Rightarrow> channel_op list \<Rightarrow> (exn + unit) \<times> channel_op list" where
  "run_setup answer [] done_ops = (Inr (), done_ops)"
| "run_setup answer (op # ops) done_ops =
     (case answer op of
        Some e \<Rightarrow> (Inl e, done_ops)
      | None \<Rightarrow> run_setup answer ops (done_ops @ [op]))"

subsection \<open>Waiting for the broker\<close>

text \<open>
  \<open>Number(process.env.RMQ_BOOT_TIMEOUT_MS ?? 60000)\<close>, \<open>None\<close> where it is no number or not
  positive: then there is no cap. \<open>number_of\<close> is \<open>Number\<close> on a string.
\<close>

definition boot_timeout_ms :: "(string \<Rightarrow> int option) \<Rightarrow> environment \<Rightarrow> int option" where
  "boot_timeout_ms number_of env =
     (case (case env ''RMQ_BOOT_TIMEOUT_MS'' of None \<Rightarrow> Some 60000 | Some raw \<Rightarrow> number_of raw) of
        None \<Rightarrow> None
      | Some n \<Rightarrow> if 0 < n then Some n else None)"

text \<open>
  What can happen while the hook waits, in the order it happens; the race is decided by the first
  event that counts. \<open>None\<close>: still waiting.
\<close>

datatype boot_event = Connected | ConnectRejected exn | TimerElapsed

fun await_connect :: "exn \<Rightarrow> int option \<Rightarrow> boot_event list \<Rightarrow> (exn + unit) option" where
  "await_connect timeoutError timeout [] = None"
| "await_connect timeoutError timeout (Connected # es) = Some (Inr ())"
| "await_connect timeoutError timeout (ConnectRejected e # es) = Some (Inl e)"
| "await_connect timeoutError timeout (TimerElapsed # es) =
     (if timeout = None then await_connect timeoutError timeout es else Some (Inl timeoutError))"

subsection \<open>Shutting down\<close>

record bus_connection =
  bc_channel :: bool
  bc_connection :: bool

text \<open>\<open>onModuleDestroy\<close>; \<open>closeChannel\<close> and \<open>closeConnection\<close> are the exceptions of the two calls.\<close>

definition bus_on_module_destroy ::
  "exn option \<Rightarrow> exn option \<Rightarrow> bus_connection \<Rightarrow> (exn + unit) \<times> bus_connection" where
  "bus_on_module_destroy closeChannel closeConnection b =
     (case (if bc_channel b then closeChannel else None) of
        Some e \<Rightarrow> (Inl e, b)
      | None \<Rightarrow>
          let b1 = b\<lparr>bc_channel := False\<rparr> in
          (case (if bc_connection b1 then closeConnection else None) of
             Some e \<Rightarrow> (Inl e, b1)
           | None \<Rightarrow> (Inr (), b1\<lparr>bc_connection := False\<rparr>)))"

text \<open>
  \<open>maskAmqpUrl\<close>: \<open>parse\<close> is \<open>new URL\<close>, which throws on a malformed one, and \<open>render\<close> its
  \<open>toString\<close>.
\<close>

record 'r url_parts =
  url_username :: string
  url_password :: string
  url_rest :: 'r

definition mask_amqp_url :: "(string \<Rightarrow> 'r url_parts option) \<Rightarrow> ('r url_parts \<Rightarrow> string) \<Rightarrow> string \<Rightarrow> string" where
  "mask_amqp_url parse render url =
     (case parse url of
        None \<Rightarrow> ''<unparsable>''
      | Some u \<Rightarrow> render (u\<lparr>url_username := [], url_password := []\<rparr>))"

subsection \<open>The module's wiring\<close>

datatype service_key = USER_SERVICE

definition service_token :: "service_key \<Rightarrow> string" where
  "service_token k = (case k of USER_SERVICE \<Rightarrow> ''USER_SERVICE'')"

definition ALL_SERVICES :: "service_key list" where
  "ALL_SERVICES = [USER_SERVICE]"

definition queue_by_token :: "string \<Rightarrow> string option" where
  "queue_by_token t = map_of [(service_token USER_SERVICE, USER_SERVICE_QUEUE)] t"

record messaging_options =
  mo_url :: string
  mo_selfQueue :: "string option"
  mo_subscribesTo :: "string list option"

record rmq_client =
  rc_name :: string
  rc_url :: string
  rc_queue :: string
  rc_durable :: bool
  rc_noAck :: bool
  rc_prefetch :: nat

record messaging_module =
  mm_global :: bool
  mm_clients :: "rmq_client list"
  mm_missing :: "string list"   \<comment> \<open>tokens provided by a \<open>MissingPeerClient\<close>\<close>
  mm_busOptions :: event_bus_options
  mm_serviceName :: string      \<comment> \<open>\<open>DLQ_SERVICE_NAME\<close>\<close>
  mm_exportsClients :: bool

definition rmq_client_of :: "environment \<Rightarrow> string \<Rightarrow> service_key \<Rightarrow> rmq_client" where
  "rmq_client_of env url key =
     \<lparr>rc_name = service_token key, rc_url = url,
      rc_queue = prefixed_queue env (nullish (queue_by_token (service_token key)) ''undefined''),
      rc_durable = True, rc_noAck = True, rc_prefetch = 10\<rparr>"

definition messaging_build ::
  "environment \<Rightarrow> messaging_options \<Rightarrow> service_key list \<Rightarrow> bool \<Rightarrow> messaging_module" where
  "messaging_build env options peers global =
     (let selfQueue = (if truthy (mo_selfQueue options) then mo_selfQueue options else None)
      in \<lparr>mm_global = global,
          mm_clients = map (rmq_client_of env (mo_url options)) peers,
          mm_missing = map service_token (filter (\<lambda>k. k \<notin> set peers) ALL_SERVICES),
          mm_busOptions =
            \<lparr>eb_url = mo_url options,
             eb_selfQueue = map_option (prefixed_queue env) selfQueue,
             eb_subscribesTo = mo_subscribesTo options,
             eb_deadLetterQueue = map_option (\<lambda>q. prefixed_queue env (q @ ''.dlq'')) selfQueue\<rparr>,
          mm_serviceName = (case selfQueue of None \<Rightarrow> ''gateway'' | Some q \<Rightarrow> prefixed_queue env q),
          mm_exportsClients = (peers \<noteq> [])\<rparr>)"

definition messaging_for_root :: "environment \<Rightarrow> messaging_options \<Rightarrow> messaging_module" where
  "messaging_for_root env options = messaging_build env options ALL_SERVICES True"

definition messaging_for_peers :: "environment \<Rightarrow> messaging_options \<Rightarrow> service_key list \<Rightarrow> messaging_module" where
  "messaging_for_peers env options peers = messaging_build env options peers True"

definition missing_peer_error :: "string \<Rightarrow> exn" where
  "missing_peer_error serviceName =
     plain_error (''RPC to '' @ [CHR 0x27] @ serviceName @ [CHR 0x27]
       @ '' is not configured for this service. Add it to MessagingModule.forPeers([...]).'')"

text \<open>The module of the user service (\<open>apps/user/src/app.module.ts\<close>) and of the gateway.\<close>

definition user_app_messaging :: "environment \<Rightarrow> string \<Rightarrow> messaging_module" where
  "user_app_messaging env url =
     messaging_for_peers env
       \<lparr>mo_url = url, mo_selfQueue = Some ''user_service_queue'', mo_subscribesTo = None\<rparr> []"

definition gateway_messaging :: "environment \<Rightarrow> string \<Rightarrow> messaging_module" where
  "gateway_messaging env url =
     messaging_for_root env \<lparr>mo_url = url, mo_selfQueue = None, mo_subscribesTo = None\<rparr>"

text \<open>The RMQ options of \<open>bootstrapService\<close>.\<close>

record rmq_server =
  rs_url :: string
  rs_queue :: string
  rs_durable :: bool
  rs_noAck :: bool
  rs_prefetch :: nat

definition rmq_server_options :: "environment \<Rightarrow> string \<Rightarrow> nat option \<Rightarrow> rmq_server" where
  "rmq_server_options env queue prefetchCount =
     \<lparr>rs_url = nullish (env ''RABBITMQ_URL'') ''amqp://localhost:5672'',
      rs_queue = prefixed_queue env queue, rs_durable = True, rs_noAck = True,
      rs_prefetch = nullish prefetchCount 10\<rparr>"

subsection \<open>\<open>emit\<close>\<close>

text \<open>
  How a client's \<open>emit\<close> goes: it throws at once, as the stub of a missing peer does, or its
  observable fails, or the message is out. The caller sees no difference.
\<close>

datatype emit_outcome = EmitThrows exn | EmitFails exn | Emitted

definition pick_client :: "string \<Rightarrow> 'c \<Rightarrow> exn + 'c" where
  "pick_client service userClient =
     (if service = ''user'' then Inr userClient
      else Inl (plain_error (''Unknown RPC service '' @ [CHR 0x27] @ service @ [CHR 0x27])))"

definition rpc_emit :: "string \<Rightarrow> (string \<Rightarrow> jsval \<Rightarrow> emit_outcome) \<Rightarrow> string \<Rightarrow> jsval \<Rightarrow> exn + unit" where
  "rpc_emit service userClient pattern payload =
     (case pick_client service userClient of
        Inl e \<Rightarrow> Inl e
      | Inr client \<Rightarrow>
          (case client pattern payload of
             EmitThrows err \<Rightarrow> Inr ()
           | EmitFails err \<Rightarrow> Inr ()
           | Emitted \<Rightarrow> Inr ()))"

subsection \<open>Trace ids\<close>

text \<open>\<open>generateTraceId\<close>; \<open>uuid\<close> is the value of \<open>randomUUID()\<close>.\<close>

definition generate_trace_id :: "string \<Rightarrow> string" where
  "generate_trace_id uuid = ''tr_'' @ take 16 (filter (\<lambda>c. c \<noteq> CHR ''-'') uuid)"

record request_context =
  rq_traceId :: string
  rq_origin :: "string option"

definition get_trace_id :: "request_context option \<Rightarrow> string option" where
  "get_trace_id store = map_option rq_traceId store"

definition get_or_create_trace_id :: "request_context option \<Rightarrow> string \<Rightarrow> string" where
  "get_or_create_trace_id store uuid = nullish (get_trace_id store) (generate_trace_id uuid)"

text \<open>\<open>RequestIdInterceptor\<close>: the context a gateway request runs in.\<close>

definition gateway_context :: "string option \<Rightarrow> string \<Rightarrow> request_context" where
  "gateway_context header uuid =
     \<lparr>rq_traceId = request_trace_id header (generate_trace_id uuid), rq_origin = Some ''gateway''\<rparr>"

text \<open>
  \<open>RpcContextInterceptor\<close>: the context a handler runs in; outside an RPC the handler keeps the
  present one. \<open>traceId\<close> is whatever the payload holds, so the store of a handler has an untyped one.
\<close>

definition rpc_trace_id :: "jsval \<Rightarrow> string \<Rightarrow> jsval" where
  "rpc_trace_id data uuid =
     js_or (js_get (js_or data (JObj [])) ''__traceId'') (JStr (generate_trace_id uuid))"

definition rpc_context :: "string \<Rightarrow> bool \<Rightarrow> jsval \<Rightarrow> string \<Rightarrow> (jsval \<times> string) option" where
  "rpc_context serviceName isRpc data uuid =
     (if \<not> isRpc then None else Some (rpc_trace_id data uuid, serviceName))"

text \<open>
  \<open>extractPattern\<close> of the RPC log: the routing key of the transport context (a \<open>None\<close> stands for a
  context that throws or has none), the handler's metadata, its name. \<open>stringify\<close> is
  \<open>JSON.stringify\<close>.
\<close>

definition pattern_label :: "(jsval \<Rightarrow> string) \<Rightarrow> jsval \<Rightarrow> string option" where
  "pattern_label stringify v =
     (if js_nullish v \<or> v = JStr [] then None
      else Some (case v of JStr s \<Rightarrow> s | _ \<Rightarrow> stringify v))"

definition rpc_extract_pattern :: "(jsval \<Rightarrow> string) \<Rightarrow> jsval option \<Rightarrow> jsval \<Rightarrow> string option \<Rightarrow> string" where
  "rpc_extract_pattern stringify fromCtx fromMeta handlerName =
     (case Option.bind fromCtx (pattern_label stringify) of
        Some l \<Rightarrow> l
      | None \<Rightarrow>
          (case pattern_label stringify fromMeta of
             Some l \<Rightarrow> l
           | None \<Rightarrow> if truthy handlerName then the handlerName else ''unknown''))"

text \<open>\<open>extractPattern\<close> of the dead-letter interceptor.\<close>

definition event_extract_pattern :: "(exn + string) option \<Rightarrow> string option \<Rightarrow> string option" where
  "event_extract_pattern getPattern handlerName =
     (case getPattern of
        Some (Inr p) \<Rightarrow> Some p
      | _ \<Rightarrow> handlerName)"

subsection \<open>Properties\<close>

lemma events_exchanges_differ: "events_exchange_name env \<noteq> events_dlx_name env"
  by (simp add: events_exchange_name_def events_dlx_name_def prefixed_queue_inject)

text \<open>
  A failed event ends up in the service's own dead-letter queue, and only there. For a service
  with a queue, the message the interceptor hands to the bus carries the original payload, and the
  topology the same module sets up asserts one durable queue, the only one bound to the message's
  exchange under the message's routing key.
\<close>

theorem dead_letters_reach_own_queue:
  assumes q: "q \<noteq> []" and up: "bus_channel b"
    and m: "m = messaging_build env \<lparr>mo_url = url, mo_selfQueue = Some q, mo_subscribesTo = subs\<rparr> peers g"
    and i: "dead_letter_intercept as_error env (\<lambda>_. None) tr t True EventHandler pat data
      (Some (mm_serviceName m)) (Inl err) (Some b) = (r, b')"
  shows "r = Inr JUndef \<and> (\<exists>msg dlq. b' = Some (b\<lparr>bus_handed := bus_handed b @ [msg]\<rparr>)
    \<and> js_get (js_get (m_body msg) ''data'') ''originalPayload'' = data
    \<and> AssertDurableQueue dlq \<in> set (bus_setup env (mm_busOptions m))
    \<and> {k. BindQueue k (m_exchange msg) (m_routingKey msg) \<in> set (bus_setup env (mm_busOptions m))} = {dlq})"
proof -
  let ?dlq = "prefixed_queue env (q @ ''.dlq'')" and ?self = "prefixed_queue env q"
  have name: "mm_serviceName m = ?self" using q by (simp add: m messaging_build_def)
  have opts: "eb_selfQueue (mm_busOptions m) = Some ?self" "eb_deadLetterQueue (mm_busOptions m) = Some ?dlq"
    using q by (simp_all add: m messaging_build_def)
  have ne: "?self \<noteq> []" "?dlq \<noteq> []" by (simp_all add: prefixed_queue_def)
  from i up name obtain msg where msg: "b' = Some (b\<lparr>bus_handed := bus_handed b @ [msg]\<rparr>)" "r = Inr JUndef"
    "m_exchange msg = events_dlx_name env" "m_routingKey msg = ?self"
    "js_get (js_get (m_body msg) ''data'') ''originalPayload'' = data"
    by (auto simp: dead_letter_intercept_def publish_to_dead_letter_def Let_def)
  have "{k. BindQueue k (events_dlx_name env) ?self \<in> set (bus_setup env (mm_busOptions m))} = {?dlq}"
    using opts ne events_exchanges_differ [of env] by (auto simp: bus_setup_def Let_def)
  moreover have "AssertDurableQueue ?dlq \<in> set (bus_setup env (mm_busOptions m))"
    using opts ne by (simp add: bus_setup_def Let_def)
  ultimately show ?thesis using msg by auto
qed

theorem dead_letters_reach_own_queue_witness:
  "\<exists>b'. dead_letter_intercept (\<lambda>_. \<lparr>err_name = ''E'', err_message = ''m'', err_stack = [], err_code = None,
        err_keyPattern = None\<rparr>) (\<lambda>_. None) (\<lambda>_. None) ''t'' ''now'' True EventHandler (Some ''user.deleted'')
        (JObj [(''userId'', JStr ''u'')]) (Some (mm_serviceName (user_app_messaging (\<lambda>_. None) ''amqp://x'')))
        (Inl (plain_error ''boom'')) (Some \<lparr>bus_channel = True, bus_handed = []\<rparr>) = (Inr JUndef, Some b')
     \<and> (\<exists>msg. bus_handed b' = [msg] \<and>
          (\<exists>dlq. AssertDurableQueue dlq \<in> set (bus_setup (\<lambda>_. None) (mm_busOptions (user_app_messaging (\<lambda>_. None) ''amqp://x'')))))"
proof -
  let ?b = "\<lparr>bus_channel = True, bus_handed = []\<rparr>"
  obtain r b' where i: "dead_letter_intercept (\<lambda>_. \<lparr>err_name = ''E'', err_message = ''m'', err_stack = [],
      err_code = None, err_keyPattern = None\<rparr>) (\<lambda>_. None) (\<lambda>_. None) ''t'' ''now'' True EventHandler
      (Some ''user.deleted'') (JObj [(''userId'', JStr ''u'')])
      (Some (mm_serviceName (user_app_messaging (\<lambda>_. None) ''amqp://x''))) (Inl (plain_error ''boom'')) (Some ?b)
      = (r, b')" by fastforce
  have "''user_service_queue'' \<noteq> []" "bus_channel ?b" by simp_all
  moreover have "user_app_messaging (\<lambda>_. None) ''amqp://x'' = messaging_build (\<lambda>_. None)
      \<lparr>mo_url = ''amqp://x'', mo_selfQueue = Some ''user_service_queue'', mo_subscribesTo = None\<rparr> [] True"
    by (simp add: user_app_messaging_def messaging_for_peers_def)
  ultimately show ?thesis
    using dead_letters_reach_own_queue [OF _ _ _ i] i by fastforce
qed

text \<open>
  A gateway request and the handlers it calls share one trace id. The id is the client's
  \<open>X-Trace-Id\<close>, or generated; every RPC payload built without one carries it, and the handler's
  context takes it over.
\<close>

theorem trace_id_survives_rpc:
  assumes ctx: "ctx = gateway_context header uuid" and free: "js_get (JObj payload) ''__traceId'' = JUndef"
  shows "rpc_context svc True
      (attach_trace_id (get_or_create_trace_id (Some ctx) uuid2) (JObj payload)) uuid3
    = Some (JStr (rq_traceId ctx), svc)
    \<and> (\<forall>h. header = Some h \<longrightarrow> rq_traceId ctx = h)
    \<and> (\<forall>k. k \<noteq> ''__traceId'' \<longrightarrow>
         js_get (attach_trace_id (get_or_create_trace_id (Some ctx) uuid2) (JObj payload)) k = js_get (JObj payload) k)"
proof -
  let ?t = "rq_traceId ctx"
  have t: "get_or_create_trace_id (Some ctx) uuid2 = ?t"
    by (simp add: get_or_create_trace_id_def get_trace_id_def)
  define w where "w = with_key (JObj payload) ''__traceId'' (JStr ?t)"
  have a: "attach_trace_id ?t (JObj payload) = w"
    unfolding attach_trace_id_def w_def using free by simp
  have "map_of (filter (\<lambda>(k', _). k' \<noteq> ''__traceId'') payload @ [(''__traceId'', JStr ?t)]) ''__traceId'' = Some (JStr ?t)"
    by (induction payload) auto
  then have own: "js_get w ''__traceId'' = JStr ?t" by (simp add: w_def)
  have other: "\<forall>k. k \<noteq> ''__traceId'' \<longrightarrow> js_get w k = js_get (JObj payload) k"
    unfolding w_def by (intro allI impI) (rule with_key_other)
  have obj: "js_or w (JObj []) = w" by (simp add: js_or_def w_def)
  have "rpc_context svc True w uuid3 = Some (JStr ?t, svc)"
    by (simp add: rpc_context_def rpc_trace_id_def obj own)
  moreover have "\<forall>h. header = Some h \<longrightarrow> ?t = h"
    by (simp add: ctx gateway_context_def request_trace_id_def)
  ultimately show ?thesis unfolding t a using other by (intro conjI)
qed

theorem trace_id_survives_rpc_witness:
  "rpc_context ''user'' True
     (attach_trace_id (get_or_create_trace_id (Some (gateway_context (Some ''abc'') ''u1'')) ''u2'')
       (JObj [(''userId'', JStr ''x'')])) ''u3'' = Some (JStr ''abc'', ''user'')"
proof -
  have free: "js_get (JObj [(''userId'', JStr ''x'')]) ''__traceId'' = JUndef" by simp
  from trace_id_survives_rpc [OF refl free, of "''user''" "Some ''abc''" "''u1''" "''u2''" "''u3''"]
  show ?thesis by simp
qed

text \<open>
  Gateway and user service meet on one queue exactly when their environments give the same prefix;
  otherwise every call times out.
\<close>

theorem rpc_queues_meet:
  "rc_queue (hd (mm_clients (gateway_messaging env url))) = rs_queue (rmq_server_options env' USER_SERVICE_QUEUE p)
     \<longleftrightarrow> get_queue_prefix env = get_queue_prefix env'"
  by (simp add: gateway_messaging_def messaging_for_root_def messaging_build_def ALL_SERVICES_def
      rmq_client_of_def rmq_server_options_def queue_by_token_def prefixed_queue_def service_token_def)

lemma bus_boot_settles:
  assumes "TimerElapsed \<in> set es"
  shows "await_connect e (Some n) es \<noteq> None"
  using assms by (induction e "Some n" es rule: await_connect.induct) auto

lemma bus_boot_waits_forever:
  "set es \<subseteq> {TimerElapsed} \<Longrightarrow> await_connect e None es = None"
  by (induction e "None :: int option" es rule: await_connect.induct) auto

end
