(* ===== verification/Bootstrap.thy ===== *)
theory Bootstrap
  imports OAuth Messaging Db_Migrate "HOL-Library.AList"
begin

section \<open>Start-up, shutdown and telemetry of a process\<close>

text \<open>
  \<open>libs/common/src/bootstrap\<close> (\<open>bootstrap-task.ts\<close>, \<open>bootstrap-service.ts\<close>, \<open>telemetry.ts\<close>),
  \<open>libs/common/src/observability/metrics-server.ts\<close> and the shutdown and API document of the gateway's
  \<open>main.ts\<close>. Nest, winston, Sentry and the HTTP server are not part of the repository: the calls
  to them are parameters that answer with an exception or a value, on a world \<open>'w\<close> of their own.
\<close>

subsection \<open>Standalone tasks\<close>

text \<open>The line logged for a failed task: \<open>${e.name ?? 'Error'}: ${e.message}\<close>.\<close>

definition error_line :: "exn \<Rightarrow> string" where
  "error_line e =
     js_string (js_or (js_get (exn_props e) ''name'') (JStr ''Error'')) @ '': ''
     @ js_string (js_get (exn_props e) ''message'')"

record 'w task_app =
  ta_create :: "'w \<Rightarrow> (exn + unit) \<times> 'w"
  ta_getOrm :: "'w \<Rightarrow> exn + bool"           \<comment> \<open>\<open>app.get(MikroORM)\<close>: found, nothing, or thrown\<close>
  ta_close :: "'w \<Rightarrow> (exn + unit) \<times> 'w"

text \<open>
  \<open>bootstrapTask\<close>: the exit code, the error lines and the world. The handler is told whether it runs
  inside an ORM request context.
\<close>

definition task_failed :: "'w task_app \<Rightarrow> bool \<Rightarrow> exn \<Rightarrow> 'w \<Rightarrow> nat \<times> string list \<times> 'w" where
  "task_failed app created err w =
     (if created
      then (case ta_close app w of
              (Inl closeErr, w') \<Rightarrow>
                (1, [error_line err, ''Close failed: '' @ js_string (js_get (exn_props closeErr) ''message'')], w')
            | (Inr (), w') \<Rightarrow> (1, [error_line err], w'))
      else (1, [error_line err], w))"

definition bootstrap_task ::
  "'w task_app \<Rightarrow> (bool \<Rightarrow> 'w \<Rightarrow> (exn + unit) \<times> 'w) \<Rightarrow> 'w \<Rightarrow> nat \<times> string list \<times> 'w" where
  "bootstrap_task app handler w =
     (case ta_create app w of
        (Inl err, w1) \<Rightarrow> task_failed app False err w1
      | (Inr (), w1) \<Rightarrow>
          let orm = (case ta_getOrm app w1 of Inl _ \<Rightarrow> False | Inr found \<Rightarrow> found) in
          (case handler orm w1 of
             (Inl err, w2) \<Rightarrow> task_failed app True err w2
           | (Inr (), w2) \<Rightarrow>
               (case ta_close app w2 of
                  (Inl err, w3) \<Rightarrow> task_failed app True err w3
                | (Inr (), w3) \<Rightarrow> (0, [], w3))))"

text \<open>The two tasks: the exit of the process is all that is left of their result.\<close>

definition migrate_handler :: "'d migrate_env \<Rightarrow> bool \<Rightarrow> 'd mongo \<Rightarrow> (exn + unit) \<times> 'd mongo" where
  "migrate_handler e inOrm s =
     (case run_migrations e s of (Inl err, s') \<Rightarrow> (Inl err, s') | (Inr _, s') \<Rightarrow> (Inr (), s'))"

subsection \<open>Long-running services\<close>

text \<open>
  \<open>shutdown(signal)\<close> of \<open>bootstrapService\<close> and of the gateway: the exit code. \<open>stopMetricsServer\<close>
  never rejects; it leaves no server.
\<close>

definition stop_metrics_server :: "'s option \<Rightarrow> 's option" where
  "stop_metrics_server server = None"

definition service_shutdown :: "('w \<Rightarrow> (exn + unit) \<times> 'w) \<Rightarrow> 's option \<Rightarrow> 'w \<Rightarrow> nat \<times> 's option \<times> 'w" where
  "service_shutdown close server w =
     (let server' = stop_metrics_server server in
      case close w of
        (Inr (), w') \<Rightarrow> (0, server', w')
      | (Inl err, w') \<Rightarrow> (1, server', w'))"

definition gateway_shutdown :: "('w \<Rightarrow> (exn + unit) \<times> 'w) \<Rightarrow> 'w \<Rightarrow> nat \<times> 'w" where
  "gateway_shutdown close w =
     (case close w of (Inr (), w') \<Rightarrow> (0, w') | (Inl err, w') \<Rightarrow> (1, w'))"

text \<open>The handlers of \<open>installProcessErrorHandlers\<close>: the line logged and the tag captured.\<close>

definition unhandled_rejection :: "string \<Rightarrow> jsval \<Rightarrow> string \<times> string" where
  "unhandled_rejection serviceName reason =
     (''['' @ serviceName @ ''] unhandledRejection: '' @ js_string reason, ''process.unhandled_rejection'')"

definition uncaught_exception :: "string \<Rightarrow> exn \<Rightarrow> string \<times> string" where
  "uncaught_exception serviceName err =
     (''['' @ serviceName @ ''] uncaughtException: '' @ js_string (js_get (exn_props err) ''message''),
      ''process.uncaught_exception'')"

subsection \<open>The metrics listener\<close>

text \<open>The port \<open>startMetricsServer\<close> listens on, if any; \<open>number_of\<close> is \<open>Number\<close>.\<close>

definition metrics_port :: "(string \<Rightarrow> js_number) \<Rightarrow> environment \<Rightarrow> int option" where
  "metrics_port number_of env =
     (if \<not> truthy (env ''METRICS_PORT'') then None
      else case number_of (the (env ''METRICS_PORT'')) of
        Whole port \<Rightarrow> if port \<le> 0 \<or> 65535 < port then None else Some port
      | _ \<Rightarrow> None)"

definition metrics_response :: "(exn + string) \<Rightarrow> string \<Rightarrow> nat \<times> string" where
  "metrics_response rendered url =
     (if url \<noteq> ''/metrics'' then (404, [])
      else case rendered of Inr body \<Rightarrow> (200, body) | Inl err \<Rightarrow> (500, []))"

subsection \<open>Log lines\<close>

definition use_pretty :: "environment \<Rightarrow> bool \<Rightarrow> bool" where
  "use_pretty env isTTY =
     (let formatOverride = map_option js_lower (env ''LOG_FORMAT'')
      in formatOverride = Some ''pretty'' \<or> (formatOverride \<noteq> Some ''json'' \<and> isTTY))"

definition log_level :: "environment \<Rightarrow> string" where
  "log_level env =
     nullish (env ''LOG_LEVEL'') (if env ''NODE_ENV'' = Some ''production'' then ''info'' else ''debug'')"

definition set_prop :: "string \<Rightarrow> jsval \<Rightarrow> jsval \<Rightarrow> jsval" where
  "set_prop k v obj = (case obj of JObj kvs \<Rightarrow> JObj (AList.update k v kvs) | _ \<Rightarrow> obj)"

definition inject_trace :: "request_context option \<Rightarrow> string \<Rightarrow> jsval \<Rightarrow> jsval" where
  "inject_trace ctx serviceName info =
     (let info1 = (if truthy (get_trace_id ctx) then set_prop ''traceId'' (JStr (the (get_trace_id ctx))) info
                   else info)
      in set_prop ''service'' (JStr serviceName) info1)"

text \<open>
  What a transport is given: the line's object with the trace id and the service, redacted. (The
  formats of winston before and after, error stacks, the timestamp and colours, are not modelled.)
\<close>

definition log_entry :: "request_context option \<Rightarrow> string \<Rightarrow> jsval \<Rightarrow> jsval" where
  "log_entry ctx serviceName info = redact_secrets (inject_trace ctx serviceName info) 0"

definition stringify_meta :: "jsval \<Rightarrow> string" where
  "stringify_meta v =
     (case v of JStr s \<Rightarrow> s | JNum n \<Rightarrow> js_string v | JBool b \<Rightarrow> js_string v | _ \<Rightarrow> [])"

definition pretty_line :: "jsval \<Rightarrow> string" where
  "pretty_line meta =
     (let ctxPart = (if js_truthy (js_get meta ''context'')
                     then '' ['' @ stringify_meta (js_get meta ''context'') @ '']'' else []);
          tracePart = (if js_truthy (js_get meta ''traceId'')
                       then '' trace='' @ stringify_meta (js_get meta ''traceId'') else [])
      in stringify_meta (js_get meta ''timestamp'') @ '' '' @ stringify_meta (js_get meta ''level'')
         @ '' ['' @ stringify_meta (js_get meta ''service'') @ '']'' @ ctxPart @ tracePart @ '' ''
         @ stringify_meta (js_get meta ''message''))"

subsection \<open>Sentry\<close>

record sentry_options =
  so_dsn :: string
  so_environment :: string
  so_serverName :: string
  so_tracesSampleRate :: jsval
  so_release :: "string option"

definition init_sentry :: "(string \<Rightarrow> jsval) \<Rightarrow> environment \<Rightarrow> string \<Rightarrow> sentry_options option" where
  "init_sentry number_of env serviceName =
     (if \<not> truthy (env ''SENTRY_DSN'') then None
      else Some \<lparr>so_dsn = the (env ''SENTRY_DSN''),
             so_environment = nullish (env ''NODE_ENV'') ''development'',
             so_serverName = serviceName,
             so_tracesSampleRate = number_of (nullish (env ''SENTRY_TRACES_SAMPLE_RATE'') ''0.05''),
             so_release = env ''RELEASE_TAG''\<rparr>)"

definition redact_prop :: "string \<Rightarrow> jsval \<Rightarrow> jsval" where
  "redact_prop k obj =
     (if js_truthy (js_get obj k) then set_prop k (redact_secrets (js_get obj k) 0) obj else obj)"

definition before_send :: "jsval \<Rightarrow> jsval" where
  "before_send event =
     (let e1 = redact_prop ''extra'' event;
          e2 = redact_prop ''contexts'' e1;
          req = js_get e2 ''request''
      in if js_nullish req then e2
         else set_prop ''request'' (redact_prop ''headers'' (redact_prop ''data'' req)) e2)"

definition capture_tags :: "request_context option \<Rightarrow> (string \<times> string) list" where
  "capture_tags ctx =
     [(''traceId'', nullish (get_trace_id ctx) ''none''),
      (''origin'', nullish (Option.bind ctx rq_origin) ''none'')]"

subsection \<open>The gateway's error schemas\<close>

text \<open>\<open>attachCommonErrorResponses\<close> on the paths of the API document; an operation is its responses.\<close>

type_synonym responses = "(string \<times> jsval) list"

definition common_errors :: "(string \<times> string) list" where
  "common_errors =
     [(''400'', ''Validation failed or malformed request''),
      (''401'', ''Missing or invalid authentication''),
      (''403'', ''Authenticated but not authorized''),
      (''404'', ''Resource not found''),
      (''409'', ''Conflict with existing state''),
      (''429'', ''Rate limit exceeded''),
      (''500'', ''Unexpected server error'')]"

fun add_errors :: "jsval \<Rightarrow> (string \<times> string) list \<Rightarrow> responses \<Rightarrow> responses" where
  "add_errors errorRef [] rs = rs"
| "add_errors errorRef ((code, description) # errs) rs =
     (if js_truthy (js_get (JObj rs) code) then add_errors errorRef errs rs
      else add_errors errorRef errs
             (AList.update code
                (JObj [(''description'', JStr description),
                       (''content'', JObj [(''application/json'', JObj [(''schema'', errorRef)])])]) rs))"

definition documented_methods :: "string list" where
  "documented_methods = [''get'', ''post'', ''put'', ''patch'', ''delete'']"

definition attach_common_error_responses ::
  "jsval \<Rightarrow> (string \<times> (string \<times> responses option) list) list \<Rightarrow> (string \<times> (string \<times> responses option) list) list" where
  "attach_common_error_responses errorRef paths =
     map (\<lambda>(path, item). (path, map (\<lambda>(m, op).
        (m, if m \<in> set documented_methods then Some (add_errors errorRef common_errors (nullish op [])) else op)) item))
       paths"

subsection \<open>Lemmas\<close>

lemma set_prop_get [simp]:
  "js_get (set_prop k v obj) k' =
     (case obj of JObj _ \<Rightarrow> if k' = k then v else js_get obj k' | _ \<Rightarrow> JUndef)"
  by (cases obj) (auto simp: set_prop_def update_conv)

lemma js_get_no_object: "(\<And>kvs. v \<noteq> JObj kvs) \<Longrightarrow> js_get v k = JUndef"
  by (cases v) auto

lemma falsy_clean: "\<not> js_truthy v \<Longrightarrow> clean n v"
  by (cases v) auto

lemma redact_clean: "clean (Suc max_depth) (redact_secrets v 0)"
  using redact_secrets_clean_aux [of 0 v] by simp

lemma redact_prop_clean: "clean (Suc max_depth) (js_get (redact_prop k obj) k)"
  by (cases obj) (auto simp: redact_prop_def redact_clean falsy_clean)

lemma redact_prop_other: "k \<noteq> k' \<Longrightarrow> js_get (redact_prop k obj) k' = js_get obj k'"
  by (cases obj) (auto simp: redact_prop_def)

lemma redact_prop_object: "(\<exists>kvs. redact_prop k obj = JObj kvs) \<longleftrightarrow> (\<exists>kvs. obj = JObj kvs)"
  by (cases obj) (auto simp: redact_prop_def set_prop_def)

text \<open>
  Nothing that goes to the log or to Sentry shows a secret near the surface. In a log line, and in
  the extra data, the contexts, the request body and the headers of an event, every property with a
  secret name holds the placeholder, down to seven levels of nesting.
\<close>

theorem telemetry_redacts_secrets:
  "clean (Suc max_depth) (log_entry ctx svc info)
   \<and> clean (Suc max_depth) (js_get (before_send event) ''extra'')
   \<and> clean (Suc max_depth) (js_get (before_send event) ''contexts'')
   \<and> clean (Suc max_depth) (js_get (js_get (before_send event) ''request'') ''data'')
   \<and> clean (Suc max_depth) (js_get (js_get (before_send event) ''request'') ''headers'')"
proof -
  let ?e2 = "redact_prop ''contexts'' (redact_prop ''extra'' event)"
  let ?req = "js_get ?e2 ''request''"
  let ?r = "redact_prop ''headers'' (redact_prop ''data'' ?req)"
  have e: "before_send event = (if js_nullish ?req then ?e2 else set_prop ''request'' ?r ?e2)"
    by (simp add: before_send_def Let_def)
  have keep: "js_get (before_send event) k = js_get ?e2 k" if "k \<noteq> ''request''" for k
    using that by (auto simp: e js_get_no_object split: jsval.splits)
  have extra: "clean (Suc max_depth) (js_get ?e2 ''extra'')"
    by (simp add: redact_prop_other redact_prop_clean)
  have inner: "clean (Suc max_depth) (js_get ?r ''data'')" "clean (Suc max_depth) (js_get ?r ''headers'')"
    by (simp_all add: redact_prop_other redact_prop_clean)
  have req: "clean (Suc max_depth) (js_get (js_get (before_send event) ''request'') k)"
    if "k \<in> {''data'', ''headers''}" for k
  proof (cases "js_nullish ?req")
    case True
    then show ?thesis by (cases ?req) (simp_all add: e)
  next
    case False
    then have "js_get (before_send event) ''request'' \<in> {?r, JUndef}"
      by (auto simp: e split: jsval.splits)
    with that inner show ?thesis by auto
  qed
  show ?thesis
    using keep extra req redact_prop_clean [of "''contexts''"] by (simp add: log_entry_def redact_clean)
qed

text \<open>
  The exit code of a task tells whether it did its work: 0 exactly when the context came up, the
  handler returned and the context closed; otherwise 1 with an error line. The handler runs in a request
  context exactly when the application has an ORM.
\<close>

theorem task_exit_code_is_honest:
  assumes run: "bootstrap_task app handler w = (code, log, w')"
  shows "(code = 0 \<longleftrightarrow> (\<exists>w1 w2 orm. ta_create app w = (Inr (), w1) \<and> handler orm w1 = (Inr (), w2)
            \<and> (orm \<longleftrightarrow> ta_getOrm app w1 = Inr True) \<and> ta_close app w2 = (Inr (), w')))
    \<and> code \<le> 1 \<and> (code = 1 \<longleftrightarrow> log \<noteq> [])"
proof -
  have failed: "fst (task_failed app c e x) = 1 \<and> fst (snd (task_failed app c e x)) \<noteq> []" for c e x
    by (auto simp: task_failed_def split: prod.splits sum.splits)
  obtain q1 w1 where c: "ta_create app w = (q1, w1)" by fastforce
  show ?thesis
  proof (cases q1)
    case (Inl e)
    with run c failed [of False e w1] show ?thesis by (auto simp: bootstrap_task_def)
  next
    case (Inr u)
    define orm where "orm = (case ta_getOrm app w1 of Inl _ \<Rightarrow> False | Inr found \<Rightarrow> found)"
    have orm: "orm \<longleftrightarrow> ta_getOrm app w1 = Inr True" by (auto simp: orm_def split: sum.splits)
    obtain q2 w2 where h: "handler orm w1 = (q2, w2)" by fastforce
    obtain q3 w3 where cl: "ta_close app w2 = (q3, w3)" by fastforce
    have b: "(code, log, w') = (case q2 of Inl err \<Rightarrow> task_failed app True err w2
        | Inr _ \<Rightarrow> (case q3 of Inl err \<Rightarrow> task_failed app True err w3 | Inr _ \<Rightarrow> (0, [], w3)))"
      using run c Inr h cl by (simp add: bootstrap_task_def orm_def split: sum.splits)
    show ?thesis
    proof (cases "q2 = Inr () \<and> q3 = Inr ()")
      case True
      with b c Inr h cl orm show ?thesis by auto
    next
      case False
      then have "\<exists>e x. (code, log, w') = task_failed app True e x"
        using b by (cases q2; cases q3) auto
      then obtain e x where "(code, log, w') = task_failed app True e x" by blast
      with failed [of True e x] have "code = 1" "log \<noteq> []" by (metis fst_conv snd_conv)+
      with False c Inr h cl orm show ?thesis by auto
    qed
  qed
qed

definition quiet_app :: "'w task_app" where
  "quiet_app = \<lparr>ta_create = (\<lambda>w. (Inr (), w)), ta_getOrm = (\<lambda>w. Inl (plain_error ''absent'')), ta_close = (\<lambda>w. (Inr (), w))\<rparr>"

theorem task_exit_code_is_honest_witness:
  "\<exists>code log s'. bootstrap_task quiet_app
      (migrate_handler (demo_migrate (\<lambda>s. (Inl (plain_error ''dup''), s)))) demo_mongo = (code, log, s')
    \<and> code \<noteq> 0 \<and> log \<noteq> []"
proof -
  let ?e = "demo_migrate (\<lambda>s. (Inl (plain_error ''dup''), s))"
  obtain code log s' where run: "bootstrap_task quiet_app (migrate_handler ?e) demo_mongo = (code, log, s')"
    by (metis prod.exhaust)
  have "run_migrations ?e demo_mongo = (Inl (plain_error ''dup''), demo_mongo)"
    unfolding run_migrations_reference [OF demo_migrate_ok demo_load]
    by (simp add: pending_of_def demo_mongo_def demo_migrate_def)
  with task_exit_code_is_honest [OF run] run show ?thesis
    by (auto simp: quiet_app_def migrate_handler_def)
qed

text \<open>The documented errors: what is declared stays, all codes are there, a second pass adds nothing.\<close>

lemma add_errors_keeps: "js_truthy (js_get (JObj rs) c) \<Longrightarrow> js_get (JObj (add_errors r errs rs)) c = js_get (JObj rs) c"
  by (induction r errs rs rule: add_errors.induct) (auto simp: update_conv)

lemma add_errors_complete:
  "c \<in> fst ` set errs \<Longrightarrow> js_truthy (js_get (JObj (add_errors r errs rs)) c)"
proof (induction r errs rs rule: add_errors.induct)
  case (2 r code d errs rs)
  show ?case
  proof (cases "js_truthy (js_get (JObj rs) code)")
    case True
    with 2 add_errors_keeps [OF True, of r errs] show ?thesis by (cases "c = code") auto
  next
    case False
    let ?rs = "AList.update code (JObj [(''description'', JStr d),
        (''content'', JObj [(''application/json'', JObj [(''schema'', r)])])]) rs"
    have "js_truthy (js_get (JObj ?rs) code)" by (simp add: update_conv)
    from add_errors_keeps [OF this, of r errs] this False 2 show ?thesis
      by (cases "c = code") auto
  qed
qed simp

lemma add_errors_done: "(\<And>c. c \<in> fst ` set errs \<Longrightarrow> js_truthy (js_get (JObj rs) c)) \<Longrightarrow> add_errors r errs rs = rs"
  by (induction r errs rs rule: add_errors.induct) auto

lemma attach_common_error_responses_idem:
  "attach_common_error_responses r (attach_common_error_responses r paths) = attach_common_error_responses r paths"
proof -
  have "add_errors r common_errors (add_errors r common_errors rs) = add_errors r common_errors rs" for rs
    by (rule add_errors_done) (rule add_errors_complete)
  then show ?thesis
    by (auto simp: attach_common_error_responses_def)
qed

end
