(* ===== verification/Boot_Sequence.thy ===== *)
theory Boot_Sequence
  imports Bootstrap Config_Classes
begin

section \<open>How the processes start\<close>

text \<open>
  The main files (\<open>apps/gateway/src/main.ts\<close>, \<open>apps/user/src/main.ts\<close>, \<open>tasks/*/src/main.ts\<close>),
  \<open>bootstrapService\<close>, the modules they load (\<open>app.module.ts\<close>, \<open>libs/database/src/database.module.ts\<close>)
  and \<open>libs/database/src/mikro-orm.config.ts\<close>. A start is a sequence of calls on the framework; Nest,
  Express, Swagger and the ORM are a parameter that performs a call or answers with an exception.

  The order is the program's: the imports come first, so the decorator of the application module runs
  before \<open>assertRequiredEnv\<close>, and the handlers of \<open>installProcessErrorHandlers\<close> are there from the
  moment they are installed. \<open>ConfigModule.forRoot\<close> is a parameter as well: it validates the
  environment and adds the variables of the files to it; a failed validation is a promise that rejects
  when the application is created.
\<close>

subsection \<open>Calls on the framework\<close>

record pipe_options =
  po_whitelist :: bool
  po_forbidNonWhitelisted :: bool
  po_transform :: bool
  po_enableImplicitConversion :: bool

record cors_options =
  co_origin :: string
  co_methods :: "string list"
  co_allowedHeaders :: "string list"
  co_credentials :: bool

record api_info =
  ai_title :: string
  ai_description :: string
  ai_version :: string
  ai_bearer :: bool
  ai_tags :: "(string \<times> string) list"

type_synonym api_paths = "(string \<times> (string \<times> responses option) list) list"

datatype boot_op =
    InitSentry "sentry_options option"
  | CreateApp bool string                  \<comment> \<open>\<open>rawBody\<close>, the logger's service\<close>
  | CreateService rmq_server string
  | UseLogger string
  | BodyParser string string "bool option" \<comment> \<open>kind, \<open>limit\<close>, \<open>extended\<close>\<close>
  | DisableSetting string
  | SetSetting string int
  | UseHelmet bool                         \<comment> \<open>whether the default content security policy is on\<close>
  | UsePipe pipe_options
  | UseInterceptor string
  | UseFilter string
  | EnableCors cors_options
  | CreateDocument api_info
  | SetupDocs string api_paths
  | ShutdownHooks
  | OnceSignal string
  | ErrorHandlers string
  | ListenPort js_number string
  | ListenQueue

type_synonym 'w framework = "boot_op \<Rightarrow> 'w \<Rightarrow> (exn + unit) \<times> 'w"

text \<open>The calls up to the first that fails: those that went through, the exception, the world.\<close>

fun run_ops :: "'w framework \<Rightarrow> boot_op list \<Rightarrow> 'w \<Rightarrow> boot_op list \<times> exn option \<times> 'w" where
  "run_ops perform [] w = ([], None, w)"
| "run_ops perform (op # ops) w =
     (case perform op w of
        (Inl e, w1) \<Rightarrow> ([], Some e, w1)
      | (Inr (), w1) \<Rightarrow> (case run_ops perform ops w1 of (done_ops, e, w2) \<Rightarrow> (op # done_ops, e, w2)))"

text \<open>
  What becomes of the process. An exception that escapes \<open>main.ts\<close> ends it (\<open>Died\<close>) unless the
  handlers of \<open>installProcessErrorHandlers\<close> are installed: they log and report, and the process stays
  (\<open>Lingering\<close>). Handlers that Sentry installs on its own are not modelled.
\<close>

datatype fate = Serving | Died exn | Lingering exn

definition handles_errors :: "boot_op list \<Rightarrow> bool" where
  "handles_errors ops \<longleftrightarrow> list_ex (\<lambda>op. case op of ErrorHandlers _ \<Rightarrow> True | _ \<Rightarrow> False) ops"

definition fate_of :: "boot_op list \<Rightarrow> exn option \<Rightarrow> fate" where
  "fate_of done_ops err =
     (case err of
        None \<Rightarrow> Serving
      | Some e \<Rightarrow> if handles_errors done_ops then Lingering e else Died e)"

subsection \<open>Numbers in the environment\<close>

text \<open>\<open>parseInt(s, 10)\<close>, up to the rounding of numbers beyond 2 to the 53.\<close>

definition decimal :: "string \<Rightarrow> int" where
  "decimal ds = foldl (\<lambda>n c. 10 * n + (of_char c - 48)) 0 ds"

definition parse_int :: "string \<Rightarrow> js_number" where
  "parse_int s =
     (let t = dropWhile js_space s;
          negative = (t \<noteq> [] \<and> hd t = CHR ''-'');
          u = (if t \<noteq> [] \<and> hd t \<in> {CHR ''-'', CHR ''+''} then tl t else t);
          ds = takeWhile is_digit u
      in if ds = [] then NonFinite else Whole (if negative then - decimal ds else decimal ds))"

subsection \<open>The gateway\<close>

definition gateway_pipe :: pipe_options where
  "gateway_pipe =
     \<lparr>po_whitelist = True, po_forbidNonWhitelisted = True, po_transform = True,
      po_enableImplicitConversion = True\<rparr>"

definition gateway_cors :: cors_options where
  "gateway_cors =
     \<lparr>co_origin = ''*'',
      co_methods = [''GET'', ''POST'', ''PUT'', ''PATCH'', ''DELETE'', ''OPTIONS''],
      co_allowedHeaders =
        [''Content-Type'', ''Authorization'', ''X-Client-Version'', ''X-Platform'', ''X-Device-Id'',
         ''X-Idempotency-Key'', ''X-Trace-Id'', ''Accept-Language''],
      co_credentials = False\<rparr>"

definition swagger_config :: api_info where
  "swagger_config =
     \<lparr>ai_title = ''App API'', ai_description = ''Backend API gateway'', ai_version = ''1.0'', ai_bearer = True,
      ai_tags =
        [(''auth'', join_with [CHR 0x0A]
           [''Authentication & identity.'',
            [],
            ''Which endpoint to call when:'',
            ''  - have a refreshToken -> `/auth/refresh`'',
            ''  - cold start, no input -> `/auth/autoreg`'',
            ''  - anonymous user enters email/OAuth -> `/auth/upgrade`'',
            ''  - recover on a new device by email -> `/auth/login`'',
            ''  - recover on a new device via OAuth -> `/auth/oauth/:provider`'',
            [],
            ''Every endpoint that issues a refresh token requires the `X-Device-Id` header.'']),
         (''users'', ''User profile''),
         (''health'', ''Service health checks'')]\<rparr>"

text \<open>
  The API document, outside production. \<open>paths\<close> are those of the document that Swagger makes and
  \<open>errorRef\<close> is the reference to the error schema in it.
\<close>

definition docs_ops :: "environment \<Rightarrow> jsval \<Rightarrow> api_paths \<Rightarrow> boot_op list" where
  "docs_ops env errorRef paths =
     (if env ''NODE_ENV'' \<noteq> Some ''production''
      then [CreateDocument swagger_config, SetupDocs ''docs'' (attach_common_error_responses errorRef paths)]
      else [])"

text \<open>The two methods of the Express instance that \<open>bootstrap\<close> looks for.\<close>

record http_instance =
  hi_disable :: bool
  hi_set :: bool

definition listen_op :: "environment \<Rightarrow> boot_op" where
  "listen_op env = ListenPort (parse_int (optional_env env ''PORT'' ''3000'')) ''0.0.0.0''"

definition gateway_ops :: "http_instance \<Rightarrow> jsval \<Rightarrow> api_paths \<Rightarrow> environment \<Rightarrow> boot_op list" where
  "gateway_ops inst errorRef paths env =
     [CreateApp True ''gateway'',
      BodyParser ''json'' ''64kb'' None,
      BodyParser ''urlencoded'' ''64kb'' (Some True)]
     @ (if hi_disable inst then [DisableSetting ''etag''] else [])
     @ (if hi_set inst then [SetSetting ''trust proxy'' 1] else [])
     @ [UseHelmet (env ''NODE_ENV'' = Some ''production''),
        UsePipe gateway_pipe,
        UseInterceptor ''ClassSerializerInterceptor'',
        EnableCors gateway_cors]
     @ docs_ops env errorRef paths
     @ [ShutdownHooks,
        OnceSignal ''SIGTERM'',
        OnceSignal ''SIGINT'',
        ErrorHandlers ''gateway'',
        listen_op env]"

subsection \<open>The database module\<close>

record orm_options =
  oo_clientUrl :: string
  oo_dbName :: string
  oo_entities :: "string list"
  oo_allowGlobalContext :: bool
  oo_ensureIndexes :: bool
  oo_ensureDatabase :: bool

definition ENTITIES :: "string list" where
  "ENTITIES = [''User'', ''Device'', ''OutboxEvent'']"

definition database_for_root :: "environment \<Rightarrow> string \<Rightarrow> string \<Rightarrow> orm_options" where
  "database_for_root env uri dbName =
     \<lparr>oo_clientUrl = uri, oo_dbName = dbName, oo_entities = ENTITIES, oo_allowGlobalContext = False,
      oo_ensureIndexes = (env ''NODE_ENV'' \<noteq> Some ''production''),
      oo_ensureDatabase = (env ''NODE_ENV'' \<noteq> Some ''production'')\<rparr>"

text \<open>The two settings of the database, as the modules read them.\<close>

definition database_from_env :: "environment \<Rightarrow> exn + orm_options" where
  "database_from_env env =
     (case require_env env ''MONGO'' of
        Inl e \<Rightarrow> Inl e
      | Inr uri \<Rightarrow>
          (case require_env env ''MONGO_DB'' of
             Inl e \<Rightarrow> Inl e
           | Inr dbName \<Rightarrow> Inr (database_for_root env uri dbName)))"

text \<open>The configuration of the ORM's command line.\<close>

definition cli_orm_options :: "environment \<Rightarrow> orm_options" where
  "cli_orm_options env =
     \<lparr>oo_clientUrl = nullish (env ''MONGO'') ''mongodb://localhost:27017'',
      oo_dbName = nullish (env ''MONGO_DB'') ''app-dev'', oo_entities = ENTITIES,
      oo_allowGlobalContext = False, oo_ensureIndexes = True, oo_ensureDatabase = True\<rparr>"

text \<open>The client of the migration task: the factory and the shutdown hook of \<open>MongoDbProvider\<close>.\<close>

definition mongo_provider ::
  "environment \<Rightarrow> (string \<Rightarrow> 'w \<Rightarrow> (exn + unit) \<times> 'w) \<Rightarrow> 'w \<Rightarrow> (exn + string) \<times> 'w" where
  "mongo_provider env connect w =
     (case require_env env ''MONGO'' of
        Inl e \<Rightarrow> (Inl e, w)
      | Inr uri \<Rightarrow>
          (case connect uri w of
             (Inl e, w1) \<Rightarrow> (Inl e, w1)
           | (Inr (), w1) \<Rightarrow> (require_env env ''MONGO_DB'', w1)))"

definition mongo_shutdown :: "('w \<Rightarrow> (exn + unit) \<times> 'w) \<Rightarrow> 'w \<Rightarrow> (exn + unit) \<times> 'w" where
  "mongo_shutdown close w = (case close w of (_, w1) \<Rightarrow> (Inr (), w1))"

subsection \<open>The application modules\<close>

text \<open>What the decorators read when the modules are imported.\<close>

definition gateway_module :: "environment \<Rightarrow> exn + messaging_module" where
  "gateway_module env = map_sum (\<lambda>e. e) (gateway_messaging env) (require_env env ''RABBITMQ_URL'')"

definition user_module :: "environment \<Rightarrow> exn + orm_options \<times> messaging_module" where
  "user_module env =
     (case database_from_env env of
        Inl e \<Rightarrow> Inl e
      | Inr db \<Rightarrow> map_sum (\<lambda>e. e) (\<lambda>url. (db, user_app_messaging env url)) (require_env env ''RABBITMQ_URL''))"

subsection \<open>The service bootstrap\<close>

definition service_pipe :: pipe_options where
  "service_pipe =
     \<lparr>po_whitelist = True, po_forbidNonWhitelisted = False, po_transform = True,
      po_enableImplicitConversion = True\<rparr>"

record service_options =
  sv_queue :: string
  sv_serviceName :: string
  sv_prefetchCount :: "nat option"

definition service_ops :: "(string \<Rightarrow> jsval) \<Rightarrow> service_options \<Rightarrow> environment \<Rightarrow> boot_op list" where
  "service_ops number_of opts env =
     [InitSentry (init_sentry number_of env (sv_serviceName opts)),
      CreateService (rmq_server_options env (sv_queue opts) (sv_prefetchCount opts)) (sv_serviceName opts),
      UseLogger (sv_serviceName opts),
      UsePipe service_pipe,
      UseInterceptor ''RpcContextInterceptor'',
      UseFilter ''RpcAllExceptionsFilter'',
      ShutdownHooks,
      OnceSignal ''SIGTERM'',
      OnceSignal ''SIGINT'',
      ErrorHandlers (sv_serviceName opts),
      ListenQueue]"

definition user_service_options :: service_options where
  "user_service_options =
     \<lparr>sv_queue = USER_SERVICE_QUEUE, sv_serviceName = ''user'', sv_prefetchCount = None\<rparr>"

subsection \<open>The main files\<close>

text \<open>\<open>ConfigModule.forRoot\<close>: the rejection, if the validation failed, and the environment afterwards.\<close>

type_synonym config_loader = "environment \<Rightarrow> exn option \<times> environment"

text \<open>Creating the application awaits the promises among the modules.\<close>

definition awaiting :: "exn option \<Rightarrow> 'w framework \<Rightarrow> 'w framework" where
  "awaiting rejected perform op w =
     (case (rejected, op) of
        (Some e, CreateApp _ _) \<Rightarrow> (Inl e, w)
      | (Some e, CreateService _ _) \<Rightarrow> (Inl e, w)
      | _ \<Rightarrow> perform op w)"

record 'w start =
  st_ops :: "boot_op list"
  st_fate :: fate
  st_world :: 'w

text \<open>
  A main file: the imports with the decorators of the application module, then \<open>early\<close> calls,
  \<open>assertRequiredEnv\<close>, and the bootstrap.
\<close>

definition start_process ::
  "config_loader \<Rightarrow> (environment \<Rightarrow> exn + 'm) \<Rightarrow> (environment \<Rightarrow> boot_op list) \<Rightarrow> string list
     \<Rightarrow> (environment \<Rightarrow> boot_op list) \<Rightarrow> 'w framework \<Rightarrow> environment \<Rightarrow> 'w \<Rightarrow> 'w start" where
  "start_process forRoot modul early required ops perform env w =
     (case forRoot env of (rejected, env1) \<Rightarrow>
        (case modul env1 of
           Inl e \<Rightarrow> \<lparr>st_ops = [], st_fate = Died e, st_world = w\<rparr>
         | Inr _ \<Rightarrow>
             (case run_ops perform (early env1) w of
                (ops1, Some e, w1) \<Rightarrow> \<lparr>st_ops = ops1, st_fate = Died e, st_world = w1\<rparr>
              | (ops1, None, w1) \<Rightarrow>
                  (case assert_required_env env1 required of
                     Inl e \<Rightarrow> \<lparr>st_ops = ops1, st_fate = Died e, st_world = w1\<rparr>
                   | Inr () \<Rightarrow>
                       (case run_ops (awaiting rejected perform) (ops env1) w1 of
                          (ops2, err, w2) \<Rightarrow>
                            \<lparr>st_ops = ops1 @ ops2, st_fate = fate_of ops2 err, st_world = w2\<rparr>)))))"

definition start_gateway ::
  "(string \<Rightarrow> jsval) \<Rightarrow> http_instance \<Rightarrow> jsval \<Rightarrow> api_paths \<Rightarrow> config_loader \<Rightarrow> 'w framework
     \<Rightarrow> environment \<Rightarrow> 'w \<Rightarrow> 'w start" where
  "start_gateway number_of inst errorRef paths forRoot perform env w =
     start_process forRoot gateway_module
       (\<lambda>e. [InitSentry (init_sentry number_of e ''gateway'')]) gateway_required
       (gateway_ops inst errorRef paths) perform env w"

text \<open>The user service, with the port of the metrics listener that a successful start opens.\<close>

definition start_user_service ::
  "(string \<Rightarrow> jsval) \<Rightarrow> (string \<Rightarrow> js_number) \<Rightarrow> config_loader \<Rightarrow> 'w framework
     \<Rightarrow> environment \<Rightarrow> 'w \<Rightarrow> 'w start \<times> int option" where
  "start_user_service number_of number forRoot perform env w =
     (let s = start_process forRoot user_module (\<lambda>e. []) user_required
                (service_ops number_of user_service_options) perform env w
      in (s, if st_fate s = Serving then metrics_port number (snd (forRoot env)) else None))"

text \<open>The purge task: \<open>DatabaseModule.forTask\<close>, \<open>assertRequiredEnv\<close>, \<open>bootstrapTask\<close>.\<close>

definition start_purge ::
  "config_loader \<Rightarrow> (exn option \<Rightarrow> orm_options \<Rightarrow> 'w task_app) \<Rightarrow> (bool \<Rightarrow> 'w \<Rightarrow> (exn + unit) \<times> 'w)
     \<Rightarrow> environment \<Rightarrow> 'w \<Rightarrow> exn + nat \<times> string list \<times> 'w" where
  "start_purge forRoot app handler env w =
     (case forRoot env of (rejected, env1) \<Rightarrow>
        (case database_from_env env1 of
           Inl e \<Rightarrow> Inl e
         | Inr db \<Rightarrow>
             (case assert_required_env env1 purge_required of
                Inl e \<Rightarrow> Inl e
              | Inr () \<Rightarrow> Inr (bootstrap_task (app rejected db) handler w))))"

text \<open>The migration task reads nothing at import time; its module connects when it is created.\<close>

definition start_migrate ::
  "config_loader \<Rightarrow> (exn option \<Rightarrow> environment \<Rightarrow> 'w task_app) \<Rightarrow> (bool \<Rightarrow> 'w \<Rightarrow> (exn + unit) \<times> 'w)
     \<Rightarrow> environment \<Rightarrow> 'w \<Rightarrow> exn + nat \<times> string list \<times> 'w" where
  "start_migrate forRoot app handler env w =
     (case forRoot env of (rejected, env1) \<Rightarrow>
        (case assert_required_env env1 purge_required of
           Inl e \<Rightarrow> Inl e
         | Inr () \<Rightarrow> Inr (bootstrap_task (app rejected env1) handler w)))"

subsection \<open>Runs of calls\<close>

lemma run_ops_None: "run_ops perform ops w = (d, None, w') \<Longrightarrow> d = ops"
  by (induction perform ops w arbitrary: d rule: run_ops.induct) (auto split: prod.splits sum.splits)

lemma run_ops_Some:
  "run_ops perform ops w = (d, Some e, w') \<Longrightarrow> \<exists>op rest v. ops = d @ op # rest \<and> perform op v = (Inl e, w')"
proof (induction perform ops w arbitrary: d rule: run_ops.induct)
  case (2 perform op ops w)
  show ?case
  proof (cases "fst (perform op w)")
    case (Inl e')
    with 2(2) have "d = [] \<and> perform op w = (Inl e, w')" by (auto split: prod.splits sum.splits)
    then show ?thesis by blast
  next
    case (Inr u)
    then obtain w1 where step: "perform op w = (Inr (), w1)" by (cases "perform op w") auto
    with 2(2) obtain d' where "d = op # d'" "run_ops perform ops w1 = (d', Some e, w')"
      by (auto split: prod.splits)
    with 2(1) [OF step [symmetric] refl, of d'] obtain o' rest v where "ops = d' @ o' # rest" "perform o' v = (Inl e, w')"
      by auto
    with \<open>d = op # d'\<close> show ?thesis by (intro exI [of _ o'] exI [of _ rest] exI [of _ v]) simp
  qed
qed simp

lemma run_ops_performed:
  "run_ops perform ops w = (d, e, w') \<Longrightarrow> op \<in> set d \<Longrightarrow> \<exists>v v'. perform op v = (Inr (), v')"
  by (induction perform ops w arbitrary: d rule: run_ops.induct)
    (fastforce split: prod.splits sum.splits if_splits)+

lemma handles_errors_append [simp]: "handles_errors (a @ b) \<longleftrightarrow> handles_errors a \<or> handles_errors b"
  by (simp add: handles_errors_def)

lemma handles_errors_Cons [simp]:
  "handles_errors (op # ops) \<longleftrightarrow> (\<exists>svc. op = ErrorHandlers svc) \<or> handles_errors ops"
  by (simp add: handles_errors_def split: boot_op.splits)

lemma handles_errors_Nil [simp]: "\<not> handles_errors []"
  by (simp add: handles_errors_def)

text \<open>
  When the calls end with the installation of the error handlers and one more, a run lingers exactly if
  that last one fails, and serves exactly if all went through.
\<close>

lemma fate_of_last:
  assumes ops: "ops = pre @ [ErrorHandlers svc, final]" and pre: "\<not> handles_errors pre"
    and run: "run_ops perform ops w = (d, err, w')"
  shows "fate_of d err = Lingering e \<Longrightarrow> d = pre @ [ErrorHandlers svc] \<and> (\<exists>v. perform final v = (Inl e, w'))"
    and "fate_of d err = Serving \<longleftrightarrow> err = None"
    and "fate_of d err = Serving \<Longrightarrow> d = ops"
proof -
  show serving: "fate_of d err = Serving \<longleftrightarrow> err = None" by (simp add: fate_of_def split: option.splits)
  show "d = ops" if "fate_of d err = Serving" using that serving run run_ops_None by simp
  assume l: "fate_of d err = Lingering e"
  then have err: "err = Some e" and h: "handles_errors d" by (auto simp: fate_of_def split: option.splits if_splits)
  from run_ops_Some [OF run [unfolded err]] obtain op rest v where
    split: "ops = d @ op # rest" and fails: "perform op v = (Inl e, w')" by blast
  have "rest = []"
  proof (rule ccontr)
    assume "rest \<noteq> []"
    then obtain r x where "rest = r @ [x]" by (metis rev_exhaust)
    with split ops have "pre @ [ErrorHandlers svc] = d @ op # r" by simp
    then have "pre = d @ butlast (op # r)"
      by (metis append_butlast_last_id append.assoc append1_eq_conv list.distinct(1))
    with h pre show False by simp
  qed
  with split ops fails show "d = pre @ [ErrorHandlers svc] \<and> (\<exists>v. perform final v = (Inl e, w'))" by auto
qed

definition gateway_setup :: "http_instance \<Rightarrow> jsval \<Rightarrow> api_paths \<Rightarrow> environment \<Rightarrow> boot_op list" where
  "gateway_setup inst errorRef paths env = butlast (butlast (gateway_ops inst errorRef paths env))"

lemma gateway_ops_split:
  "gateway_ops inst r ps env = gateway_setup inst r ps env @ [ErrorHandlers ''gateway'', listen_op env]"
  by (simp add: gateway_setup_def gateway_ops_def butlast_append)

lemma gateway_setup_no_handlers: "\<not> handles_errors (gateway_setup inst r ps env)"
  by (simp add: gateway_setup_def gateway_ops_def docs_ops_def butlast_append)

lemma serving_start:
  assumes fate: "st_fate (start_process forRoot modul early required ops perform env w) = Serving"
    and f: "forRoot env = (rejected, env1)"
  shows "(\<exists>m. modul env1 = Inr m) \<and> assert_required_env env1 required = Inr ()
    \<and> (\<exists>v w'. run_ops (awaiting rejected perform) (ops env1) v = (ops env1, None, w'))
    \<and> st_ops (start_process forRoot modul early required ops perform env w) = early env1 @ ops env1"
proof -
  from fate f obtain m where m: "modul env1 = Inr m" by (auto simp: start_process_def split: sum.splits)
  obtain ops1 e1 w1 where early: "run_ops perform (early env1) w = (ops1, e1, w1)" by (metis prod_cases3)
  obtain ops2 e2 w2 where run: "run_ops (awaiting rejected perform) (ops env1) w1 = (ops2, e2, w2)"
    by (metis prod_cases3)
  from fate f m early run have e1: "e1 = None" and req: "assert_required_env env1 required = Inr ()"
    and "fate_of ops2 e2 = Serving"
    by (auto simp: start_process_def split: option.splits sum.splits)
  then have e2: "e2 = None" by (simp add: fate_of_def split: option.splits if_splits)
  with e1 early run have "ops1 = early env1" "ops2 = ops env1" by (auto dest: run_ops_None)
  with f m early run e1 e2 req show ?thesis by (auto simp: start_process_def)
qed

lemma lingering_start:
  assumes fate: "st_fate (start_process forRoot modul early required ops perform env w) = Lingering e"
    and f: "forRoot env = (rejected, env1)"
    and ops: "ops env1 = pre @ [ErrorHandlers svc, final]" and pre: "\<not> handles_errors pre"
  shows "st_ops (start_process forRoot modul early required ops perform env w)
      = early env1 @ pre @ [ErrorHandlers svc]
    \<and> (\<exists>v v'. awaiting rejected perform final v = (Inl e, v'))"
proof -
  from fate f obtain m where m: "modul env1 = Inr m" by (auto simp: start_process_def split: sum.splits)
  obtain ops1 e1 w1 where early: "run_ops perform (early env1) w = (ops1, e1, w1)" by (metis prod_cases3)
  obtain ops2 e2 w2 where run: "run_ops (awaiting rejected perform) (ops env1) w1 = (ops2, e2, w2)"
    by (metis prod_cases3)
  from fate f m early run have e1: "e1 = None" and req: "assert_required_env env1 required = Inr ()"
    and "fate_of ops2 e2 = Lingering e"
    by (auto simp: start_process_def split: option.splits sum.splits)
  with fate_of_last(1) [OF ops pre run] have ops2: "ops2 = pre @ [ErrorHandlers svc]"
    and final: "\<exists>v v'. awaiting rejected perform final v = (Inl e, v')" by blast+
  have "ops1 = early env1" by (rule run_ops_None [OF early [unfolded e1]])
  moreover have "st_ops (start_process forRoot modul early required ops perform env w) = ops1 @ ops2"
    by (simp add: start_process_def f m early run e1 req)
  ultimately have "st_ops (start_process forRoot modul early required ops perform env w)
      = early env1 @ pre @ [ErrorHandlers svc]"
    by (simp only: ops2)
  then show ?thesis using final by (rule conjI)
qed

lemma failed_start:
  assumes "st_fate (start_process forRoot modul early required ops perform env w) \<noteq> Serving"
    and "forRoot env = (rejected, env1)"
    and "handles_errors (st_ops (start_process forRoot modul early required ops perform env w))"
    and "\<not> handles_errors (early env1)"
  shows "\<exists>e. st_fate (start_process forRoot modul early required ops perform env w) = Lingering e"
proof -
  from assms(2,3) obtain m where m: "modul env1 = Inr m" by (auto simp: start_process_def split: sum.splits)
  obtain ops1 e1 w1 where early: "run_ops perform (early env1) w = (ops1, e1, w1)" by (metis prod_cases3)
  obtain ops2 e2 w2 where run: "run_ops (awaiting rejected perform) (ops env1) w1 = (ops2, e2, w2)"
    by (metis prod_cases3)
  have "\<not> handles_errors ops1"
  proof (cases e1)
    case None
    with run_ops_None [OF early [unfolded None]] assms(4) show ?thesis by simp
  next
    case (Some e)
    from run_ops_Some [OF early [unfolded Some]] assms(4) show ?thesis by auto
  qed
  with assms(1-3) m early run show ?thesis
    by (auto simp: start_process_def fate_of_def split: option.splits sum.splits if_splits)
qed

subsection \<open>What a serving gateway has done\<close>

definition is_port :: "js_number \<Rightarrow> bool" where
  "is_port n = (case n of Whole p \<Rightarrow> 0 \<le> p \<and> p \<le> 65535 | _ \<Rightarrow> False)"

text \<open>A framework on which everything works, but for a port that is none.\<close>

definition working_framework :: "'w framework" where
  "working_framework op w =
     (case op of
        ListenPort n _ \<Rightarrow> (if is_port n then Inr () else Inl (plain_error ''ERR_SOCKET_BAD_PORT''), w)
      | _ \<Rightarrow> (Inr (), w))"

text \<open>
  C35: a gateway that serves went through every step. The environment was validated and has the four
  required variables, and before it listened it had limited the bodies, set the security headers,
  installed the validation pipe, CORS without credentials and the error handlers; in production it has
  published no API document.
\<close>

theorem serving_gateway_is_guarded:
  assumes fate: "st_fate (start_gateway number_of inst errorRef paths forRoot perform env w) = Serving"
    and f: "forRoot env = (rejected, env1)"
  shows "rejected = None \<and> (\<forall>n \<in> set gateway_required. \<exists>v. env1 n = Some v \<and> js_trim v \<noteq> [])
    \<and> (\<exists>pre. st_ops (start_gateway number_of inst errorRef paths forRoot perform env w) = pre @ [listen_op env1]
        \<and> {BodyParser ''json'' ''64kb'' None, BodyParser ''urlencoded'' ''64kb'' (Some True),
            UseHelmet (env1 ''NODE_ENV'' = Some ''production''), UsePipe gateway_pipe, EnableCors gateway_cors,
            ErrorHandlers ''gateway''} \<subseteq> set pre
        \<and> (env1 ''NODE_ENV'' = Some ''production'' \<longrightarrow>
             (\<forall>op \<in> set pre. (\<forall>i. op \<noteq> CreateDocument i) \<and> (\<forall>u ps. op \<noteq> SetupDocs u ps))))"
proof -
  note start = serving_start [OF fate [unfolded start_gateway_def] f, folded start_gateway_def]
  have "rejected = None"
  proof (rule ccontr)
    assume "rejected \<noteq> None"
    with start show False by (auto simp: gateway_ops_def awaiting_def)
  qed
  moreover have "\<forall>n \<in> set gateway_required. \<exists>v. env1 n = Some v \<and> js_trim v \<noteq> []"
    using start by (simp add: assert_required_env_Inr)
  moreover
  let ?pre = "InitSentry (init_sentry number_of env1 ''gateway'')
      # gateway_setup inst errorRef paths env1 @ [ErrorHandlers ''gateway'']"
  have "st_ops (start_gateway number_of inst errorRef paths forRoot perform env w) = ?pre @ [listen_op env1]"
    using start by (simp add: gateway_ops_split)
  moreover have "{BodyParser ''json'' ''64kb'' None, BodyParser ''urlencoded'' ''64kb'' (Some True),
      UseHelmet (env1 ''NODE_ENV'' = Some ''production''), UsePipe gateway_pipe, EnableCors gateway_cors,
      ErrorHandlers ''gateway''} \<subseteq> set ?pre"
    by (simp add: gateway_setup_def gateway_ops_def butlast_append)
  moreover have "\<forall>op \<in> set ?pre. (\<forall>i. op \<noteq> CreateDocument i) \<and> (\<forall>u ps. op \<noteq> SetupDocs u ps)"
    if "env1 ''NODE_ENV'' = Some ''production''"
    using that by (cases "hi_disable inst"; cases "hi_set inst")
      (simp_all add: gateway_setup_def gateway_ops_def docs_ops_def butlast_append)
  ultimately show ?thesis by blast
qed

theorem serving_gateway_is_guarded_witness:
  "\<exists>pre. st_ops (start_gateway (\<lambda>s. JStr s) \<lparr>hi_disable = True, hi_set = True\<rparr> JUndef [] (\<lambda>e. (None, e))
      working_framework (map_of demo_gateway_env) ()) = pre @ [ListenPort (Whole 3000) ''0.0.0.0'']
    \<and> UsePipe gateway_pipe \<in> set pre"
proof -
  let ?s = "start_gateway (\<lambda>s. JStr s) \<lparr>hi_disable = True, hi_set = True\<rparr> JUndef [] (\<lambda>e. (None, e))
      working_framework (map_of demo_gateway_env) ()"
  have fate: "st_fate ?s = Serving" by code_simp
  have listen: "listen_op (map_of demo_gateway_env) = ListenPort (Whole 3000) ''0.0.0.0''" by code_simp
  from conjunct2 [OF conjunct2 [OF serving_gateway_is_guarded [OF fate refl]]] show ?thesis
    unfolding listen by blast
qed

text \<open>
  Which start is a development one is read from the raw environment. Quotes around the value of
  \<open>NODE_ENV\<close>, which the validation peels off, turn a production start into one that publishes the API
  document, sends no content security policy and lets the ORM synchronise the indexes.
\<close>

definition keeps_env :: "config_loader \<Rightarrow> bool" where
  "keeps_env forRoot \<longleftrightarrow>
     (\<forall>env rejected env1 k v. forRoot env = (rejected, env1) \<longrightarrow> env k = Some v \<longrightarrow> env1 k = Some v)"

lemma keeps_envD: "keeps_env forRoot \<Longrightarrow> forRoot env = (rejected, env1) \<Longrightarrow> env k = Some v \<Longrightarrow> env1 k = Some v"
  unfolding keeps_env_def by blast

lemma trim_quoted:
  assumes "q \<in> {CHR 0x22, CHR 0x27}" and "v \<noteq> [] \<longrightarrow> \<not> js_space (hd v)"
  shows "trim_env_value (q # v @ [q]) = v"
  using assms by (auto simp: trim_env_value_def js_trim_def js_space_def quote_pair_def)

theorem quoted_production_is_development:
  assumes keeps: "keeps_env forRoot" and f: "forRoot env = (rejected, env1)"
    and q: "q \<in> {CHR 0x22, CHR 0x27}" and quoted: "env ''NODE_ENV'' = Some (q # ''production'' @ [q])"
    and fate: "st_fate (start_gateway number_of inst errorRef paths forRoot perform env w) = Serving"
  shows "trim_env_value (q # ''production'' @ [q]) = ''production''
    \<and> {CreateDocument swagger_config, UseHelmet False}
        \<subseteq> set (st_ops (start_gateway number_of inst errorRef paths forRoot perform env w))
    \<and> oo_ensureIndexes (database_for_root env1 uri dbName)"
proof -
  have raw: "env1 ''NODE_ENV'' = Some (q # ''production'' @ [q])" by (rule keeps_envD [OF keeps f quoted])
  have ne: "env1 ''NODE_ENV'' \<noteq> Some ''production''" using q raw by auto
  have "trim_env_value (q # ''production'' @ [q]) = ''production''"
    using trim_quoted [OF q, of "''production''"] by (simp add: js_space_def)
  moreover have "st_ops (start_gateway number_of inst errorRef paths forRoot perform env w)
      = InitSentry (init_sentry number_of env1 ''gateway'') # gateway_ops inst errorRef paths env1"
    using serving_start [OF fate [unfolded start_gateway_def] f, folded start_gateway_def] by simp
  ultimately show ?thesis using ne by (simp add: gateway_ops_def docs_ops_def database_for_root_def)
qed

subsection \<open>A port that is none\<close>

text \<open>\<open>listen\<close> rejects anything that is no port number.\<close>

definition listen_checks_port :: "'w framework \<Rightarrow> bool" where
  "listen_checks_port perform \<longleftrightarrow>
     (\<forall>n h w. \<not> is_port n \<longrightarrow> (\<exists>e w'. perform (ListenPort n h) w = (Inl e, w')))"

text \<open>\<open>parseInt\<close> reads back what a template literal prints, and no number from behind a quote.\<close>

lemma digit_cases: "n < 10 \<Longrightarrow> n \<in> {0, 1, 2, 3, 4, 5, 6, 7, 8, 9 :: nat}"
  by auto

lemma digit_char:
  assumes "n < 10"
  shows "is_digit (''0123456789'' ! n)" and "of_char (''0123456789'' ! n) = (48 + int n)"
    and "\<not> js_space (''0123456789'' ! n)" and "''0123456789'' ! n \<notin> {CHR ''-'', CHR ''+''}"
  using digit_cases [OF assms] by (auto simp: is_digit_def js_space_def)

lemma show_digits_digits: "list_all is_digit (show_digits n) \<and> show_digits n \<noteq> [] \<and> hd (show_digits n) \<notin> {CHR ''-'', CHR ''+''}
    \<and> \<not> js_space (hd (show_digits n))"
proof (induction n rule: show_digits.induct)
  case (1 n)
  then show ?case
    by (cases "n < 10") (simp_all add: show_digits.simps [of n] digit_char [simplified] del: nth_Cons')
qed

lemma decimal_show_digits: "decimal (show_digits n) = int n"
proof (induction n rule: show_digits.induct)
  case (1 n)
  have "10 * int (n div 10) + int (n mod 10) = int n" by presburger
  with 1 show ?case
    by (cases "n < 10") (simp_all add: show_digits.simps [of n] decimal_def digit_char(2))
qed

lemma parse_int_show_digits: "parse_int (show_digits n) = Whole (int n)"
proof -
  note d = show_digits_digits [of n]
  have spaces: "dropWhile js_space (show_digits n) = show_digits n" using d by (simp add: dropWhile_noop)
  have digits: "takeWhile is_digit (show_digits n) = show_digits n"
    using d by (simp add: takeWhile_eq_all_conv list_all_iff)
  show ?thesis using d by (simp add: parse_int_def Let_def spaces digits decimal_show_digits)
qed

lemma parse_int_quoted: "q \<in> {CHR 0x22, CHR 0x27} \<Longrightarrow> parse_int (q # v) = NonFinite"
  by (auto simp: parse_int_def js_space_def is_digit_def)

text \<open>
  A gateway whose \<open>PORT\<close> is no port number does not serve, and if nothing fails before it listens the
  process does not end either.
\<close>

lemma bad_port_start:
  assumes keeps: "keeps_env forRoot" and listen: "listen_checks_port perform"
    and port: "env ''PORT'' = Some v" and bad: "\<not> is_port (parse_int v)"
  shows "st_fate (start_gateway number_of inst errorRef paths forRoot perform env w) \<noteq> Serving"
    and "handles_errors (st_ops (start_gateway number_of inst errorRef paths forRoot perform env w)) \<Longrightarrow>
      \<exists>e. st_fate (start_gateway number_of inst errorRef paths forRoot perform env w) = Lingering e"
proof -
  obtain rejected env1 where f: "forRoot env = (rejected, env1)" by fastforce
  show ns: "st_fate (start_gateway number_of inst errorRef paths forRoot perform env w) \<noteq> Serving"
  proof
    assume "st_fate (start_gateway number_of inst errorRef paths forRoot perform env w) = Serving"
    from serving_start [OF this [unfolded start_gateway_def] f] obtain v0 w0 where
      run: "run_ops (awaiting rejected perform) (gateway_ops inst errorRef paths env1) v0
        = (gateway_ops inst errorRef paths env1, None, w0)" by blast
    have "listen_op env1 \<in> set (gateway_ops inst errorRef paths env1)" by (simp add: gateway_ops_split)
    then obtain u u' where ok: "awaiting rejected perform (listen_op env1) u = (Inr (), u')"
      using run_ops_performed [OF run] by blast
    have "listen_op env1 = ListenPort (parse_int v) ''0.0.0.0''"
      using keeps_envD [OF keeps f port] by (simp add: listen_op_def optional_env_def)
    with ok have "perform (ListenPort (parse_int v) ''0.0.0.0'') u = (Inr (), u')"
      by (simp add: awaiting_def split: option.splits)
    moreover obtain e u'' where "perform (ListenPort (parse_int v) ''0.0.0.0'') u = (Inl e, u'')"
      using listen bad unfolding listen_checks_port_def by blast
    ultimately show False by simp
  qed
  assume "handles_errors (st_ops (start_gateway number_of inst errorRef paths forRoot perform env w))"
  with failed_start [OF ns [unfolded start_gateway_def] f]
  show "\<exists>e. st_fate (start_gateway number_of inst errorRef paths forRoot perform env w) = Lingering e"
    by (simp add: start_gateway_def)
qed

lemma validated_value:
  assumes val: "validate_gateway_env ck raw = Inr out" and raw: "map_of raw k = Some (JStr v)"
  shows "map_of out k = Some (JStr (trim_env_value v))"
proof -
  have out: "out = trim_env_values raw"
    using validate_env_with_Inr [OF val [unfolded validate_gateway_env_def]] by simp
  have "map_of out k = map_option (\<lambda>v. case v of JStr s \<Rightarrow> JStr (trim_env_value s) | _ \<Rightarrow> v) (map_of raw k)"
    unfolding out trim_env_values_def by (simp add: map_of_map)
  then show ?thesis by (simp add: raw)
qed

text \<open>
  A quoted port passes validation and leaves the gateway down. When \<open>PORT\<close> comes in quotes, the
  validated environment holds the number without them, but \<open>main.ts\<close> parses the raw value: the gateway
  never serves, and once its error handlers are installed the process does not end either.
\<close>

theorem quoted_port_leaves_gateway_down:
  assumes keeps: "keeps_env forRoot" and listen: "listen_checks_port perform"
    and q: "q \<in> {CHR 0x22, CHR 0x27}" and port: "env ''PORT'' = Some (q # show_digits n @ [q])"
    and raw: "map_of raw ''PORT'' = map_option JStr (env ''PORT'')" and val: "validate_gateway_env ck raw = Inr out"
  shows "map_of out ''PORT'' = Some (JStr (show_digits n)) \<and> parse_int (show_digits n) = Whole (int n)
    \<and> st_fate (start_gateway number_of inst errorRef paths forRoot perform env w) \<noteq> Serving
    \<and> (handles_errors (st_ops (start_gateway number_of inst errorRef paths forRoot perform env w)) \<longrightarrow>
        (\<exists>e. st_fate (start_gateway number_of inst errorRef paths forRoot perform env w) = Lingering e))"
proof -
  have "trim_env_value (q # show_digits n @ [q]) = show_digits n"
    using trim_quoted [OF q] show_digits_digits [of n] by simp
  then have "map_of out ''PORT'' = Some (JStr (show_digits n))"
    using validated_value [OF val, of "''PORT''"] raw port by simp
  moreover have "\<not> is_port (parse_int (q # show_digits n @ [q]))"
    by (simp add: parse_int_quoted [OF q] is_port_def)
  ultimately show ?thesis
    using bad_port_start [where env = env and v = "q # show_digits n @ [q]", OF keeps listen port]
    by (simp add: parse_int_show_digits)
qed

definition quoted_port_env :: "(string \<times> string) list" where
  "quoted_port_env = (''PORT'', CHR 0x27 # ''8080'' @ [CHR 0x27]) # demo_gateway_env"

theorem quoted_port_leaves_gateway_down_witness:
  "st_fate (start_gateway (\<lambda>s. JStr s) \<lparr>hi_disable = True, hi_set = True\<rparr> JUndef [] (\<lambda>e. (None, e))
      working_framework (map_of quoted_port_env) ()) = Lingering (plain_error ''ERR_SOCKET_BAD_PORT'')
   \<and> (\<exists>out. validate_gateway_env config_checkers (map (\<lambda>(k, v). (k, JStr v)) quoted_port_env) = Inr out
       \<and> map_of out ''PORT'' = Some (JStr ''8080''))"
proof -
  let ?env = "map_of quoted_port_env" and ?raw = "map (\<lambda>(k, v). (k, JStr v)) quoted_port_env"
  let ?s = "start_gateway (\<lambda>s. JStr s) \<lparr>hi_disable = True, hi_set = True\<rparr> JUndef [] (\<lambda>e. (None, e))
      working_framework ?env ()"
  have digits: "show_digits 8080 = ''8080''" by (simp add: show_digits.simps)
  have trim: "trim_env_values ?raw = (''PORT'', JStr ''8080'') # map (\<lambda>(k, v). (k, JStr v)) demo_gateway_env"
    by (simp add: quoted_port_env_def demo_gateway_env_def trim_env_values_def trim_env_value_def js_trim_def
        js_space_def quote_pair_def)
  have "config_errors config_checkers gateway_config (trim_env_values ?raw) = []"
    unfolding trim by code_simp
  then have val: "validate_gateway_env config_checkers ?raw = Inr (trim_env_values ?raw)"
    by (simp add: validate_gateway_env_def validate_env_with_def)
  have keeps: "keeps_env (\<lambda>e. (None, e))" by (simp add: keeps_env_def)
  have listen: "listen_checks_port working_framework"
    by (simp add: listen_checks_port_def working_framework_def)
  have port: "?env ''PORT'' = Some (CHR 0x27 # show_digits 8080 @ [CHR 0x27])"
    by (simp add: quoted_port_env_def digits)
  have raw: "map_of ?raw ''PORT'' = map_option JStr (?env ''PORT'')" by (simp add: map_of_map)
  have run: "st_ops ?s = InitSentry None # gateway_setup \<lparr>hi_disable = True, hi_set = True\<rparr> JUndef [] ?env
      @ [ErrorHandlers ''gateway''] \<and> st_fate ?s = Lingering (plain_error ''ERR_SOCKET_BAD_PORT'')"
    by code_simp
  have q: "CHR 0x27 \<in> {CHR 0x22, CHR 0x27}" by simp
  from conjunct1 [OF quoted_port_leaves_gateway_down [where env = ?env and n = 8080,
      OF keeps listen q port raw val]]
  have "map_of (trim_env_values ?raw) ''PORT'' = Some (JStr ''8080'')" by (simp add: digits)
  with run val show ?thesis by blast
qed

subsection \<open>The aggregated check\<close>

lemma require_env_error_is_single: "require_env env1 k = Inl e \<Longrightarrow> assert_required_env env1 names \<noteq> Inl e"
  by (auto simp: require_env_def assert_required_env_def Let_def plain_error_def quoted_def
      split: option.splits if_splits)

text \<open>
  The aggregated report of missing variables comes too late. The decorators of the application modules
  read their settings when \<open>main.ts\<close> imports them: without the broker's address the gateway dies of the
  error about this one variable, and in the user service and the purge task, where the modules read
  every variable of the list, \<open>assertRequiredEnv\<close> never reports anything.
\<close>

theorem aggregated_check_comes_too_late:
  assumes f: "forRoot env = (rejected, env1)"
  shows "(env_missing env1 ''RABBITMQ_URL'' \<longrightarrow>
      (\<exists>e. require_env env1 ''RABBITMQ_URL'' = Inl e
         \<and> start_gateway number_of inst errorRef paths forRoot perform env w
             = \<lparr>st_ops = [], st_fate = Died e, st_world = w\<rparr>))
    \<and> (\<forall>n \<in> set user_required. env_missing env1 n \<longrightarrow>
        (\<exists>k \<in> set user_required. \<exists>e. require_env env1 k = Inl e
           \<and> start_user_service number_of number forRoot perform env w
               = (\<lparr>st_ops = [], st_fate = Died e, st_world = w\<rparr>, None)))
    \<and> (\<forall>n \<in> set purge_required. env_missing env1 n \<longrightarrow>
        (\<exists>k \<in> set purge_required. \<exists>e. require_env env1 k = Inl e
           \<and> start_purge forRoot app handler env w = Inl e))
    \<and> (\<forall>k e names. require_env env1 k = Inl e \<longrightarrow> assert_required_env env1 names \<noteq> Inl e)"
proof -
  have "\<exists>e. require_env env1 ''RABBITMQ_URL'' = Inl e
      \<and> start_gateway number_of inst errorRef paths forRoot perform env w
          = \<lparr>st_ops = [], st_fate = Died e, st_world = w\<rparr>" if "env_missing env1 ''RABBITMQ_URL''"
    using that f by (auto simp: env_missing_iff start_gateway_def start_process_def gateway_module_def)
  moreover have "\<exists>k \<in> set user_required. \<exists>e. require_env env1 k = Inl e
      \<and> start_user_service number_of number forRoot perform env w
          = (\<lparr>st_ops = [], st_fate = Died e, st_world = w\<rparr>, None)"
    if "n \<in> set user_required" "env_missing env1 n" for n
    using that f by (auto simp: user_required_def env_missing_iff start_user_service_def start_process_def
        user_module_def database_from_env_def split: sum.splits)
  moreover have "\<exists>k \<in> set purge_required. \<exists>e. require_env env1 k = Inl e
      \<and> start_purge forRoot app handler env w = Inl e"
    if "n \<in> set purge_required" "env_missing env1 n" for n
    using that f by (auto simp: purge_required_def env_missing_iff start_purge_def database_from_env_def
        split: sum.splits)
  ultimately show ?thesis using require_env_error_is_single by blast
qed

theorem aggregated_check_comes_too_late_witness:
  "\<exists>e. start_gateway (\<lambda>s. JStr s) \<lparr>hi_disable = True, hi_set = True\<rparr> JUndef [] (\<lambda>e. (None, e))
      working_framework (\<lambda>_. None) () = \<lparr>st_ops = [], st_fate = Died e, st_world = ()\<rparr>
    \<and> assert_required_env (\<lambda>_. None) gateway_required \<noteq> Inl e"
proof -
  have missing: "env_missing (\<lambda>_. None) ''RABBITMQ_URL''" by (simp add: env_missing_def)
  note late = aggregated_check_comes_too_late [where forRoot = "\<lambda>e. (None, e)" and env = "\<lambda>_. None"
      and rejected = None and perform = working_framework and w = "()"
      and app = "\<lambda>_ _. quiet_app" and handler = "\<lambda>_ w. (Inr (), w)" and number = "\<lambda>_. NonFinite"
      and number_of = "\<lambda>s. JStr s" and inst = "\<lparr>hi_disable = True, hi_set = True\<rparr>" and errorRef = JUndef
      and paths = "[]", OF refl]
  from mp [OF conjunct1 [OF late] missing] conjunct2 [OF conjunct2 [OF conjunct2 [OF late]]]
  show ?thesis by blast
qed

end
