(* ===== verification/Observability.thy ===== *)
theory Observability
  imports Bootstrap Parse_Platform
begin

section \<open>Access logs, captures and metrics\<close>

text \<open>
  The log lines of \<open>HttpLogInterceptor\<close>
  (\<open>apps/gateway/src/common/interceptors/http-log.interceptor.ts\<close>) and \<open>RpcContextInterceptor\<close>
  (\<open>libs/common/src/interceptors/rpc-context.interceptor.ts\<close>), the helpers of
  \<open>libs/common/src/observability/log-and-capture.ts\<close>, and the metrics of \<open>metrics.ts\<close> with the gateway's
  controller for them. Arrows of the log lines are written in ASCII. \<open>error_text\<close> gives the name and the
  message that an \<open>Error\<close> of a library carries, \<open>ms\<close> is the time a handler took.
\<close>

datatype log_line = LogLine string | WarnLine string | ErrorLine string

definition took :: "int \<Rightarrow> string" where
  "took ms = ''('' @ js_string (JNum ms) @ ''ms)''"

subsection \<open>The access log of the gateway\<close>

record log_request =
  lr_method :: string
  lr_originalUrl :: "string option"
  lr_url :: "string option"
  lr_ip :: "string option"
  lr_remoteAddress :: "string option"

definition log_path :: "log_request \<Rightarrow> string" where
  "log_path req = nullish (or_else (lr_originalUrl req) (lr_url req)) []"

definition log_ip :: "log_request \<Rightarrow> string" where
  "log_ip req = nullish (or_else (lr_ip req) (lr_remoteAddress req)) ''?''"

text \<open>The status of the exit line: \<open>resStatus\<close> is \<open>res.statusCode\<close> at that time.\<close>

definition logged_status :: "exn + 'r \<Rightarrow> int \<Rightarrow> jsval" where
  "logged_status result resStatus =
     (case result of Inl (HttpExn st _ _) \<Rightarrow> st | _ \<Rightarrow> JNum resStatus)"

definition http_exit_line ::
  "(exn \<Rightarrow> string \<times> string) \<Rightarrow> log_request \<Rightarrow> exn + 'r \<Rightarrow> int \<Rightarrow> int \<Rightarrow> log_line" where
  "http_exit_line error_text req result resStatus ms =
     (let start = ''-> '' @ lr_method req @ '' '' @ log_path req @ '' ''
                    @ js_string (logged_status result resStatus) @ '' ip='' @ log_ip req in
      case result of
        Inr _ \<Rightarrow> LogLine (start @ '' '' @ took ms)
      | Inl err \<Rightarrow>
          let message = (case err of ThrownExn v \<Rightarrow> js_string v | _ \<Rightarrow> snd (error_text err))
          in WarnLine (start @ '' err: '' @ message @ '' '' @ took ms))"

definition http_log_intercept ::
  "(exn \<Rightarrow> string \<times> string) \<Rightarrow> bool \<Rightarrow> log_request \<Rightarrow> exn + 'r \<Rightarrow> int \<Rightarrow> int \<Rightarrow> (exn + 'r) \<times> log_line list" where
  "http_log_intercept error_text isHttp req result resStatus ms =
     (if \<not> logs_request isHttp (lr_originalUrl req) (lr_url req) then (result, [])
      else (result,
        [LogLine (''<- '' @ lr_method req @ '' '' @ log_path req @ '' ip='' @ log_ip req),
         http_exit_line error_text req result resStatus ms]))"

subsection \<open>The log of the RPC handlers\<close>

text \<open>
  A handler that throws nothing at all (\<open>null\<close> or \<open>undefined\<close>) makes the log callback itself throw, and
  the caller gets that error.
\<close>

definition rpc_log_intercept ::
  "(exn \<Rightarrow> string \<times> string) \<Rightarrow> bool \<Rightarrow> string \<Rightarrow> exn + 'r \<Rightarrow> int \<Rightarrow> (exn + 'r) \<times> log_line list" where
  "rpc_log_intercept error_text isRpc pattern result ms =
     (if \<not> isRpc then (result, [])
      else
        let entry = LogLine (''<- '' @ pattern) in
        case result of
          Inr _ \<Rightarrow> (result, [entry, LogLine (''-> '' @ pattern @ '' ok '' @ took ms)])
        | Inl err \<Rightarrow>
            (let exit = (\<lambda>name message.
                   WarnLine (''-> '' @ pattern @ '' err '' @ name @ '': '' @ message @ '' '' @ took ms))
             in case err of
                  ThrownExn v \<Rightarrow>
                    if js_nullish v then (Inl (plain_error ''TypeError''), [entry])
                    else (result, [entry, exit (js_string (js_get v ''name'')) (js_string (js_get v ''message''))])
                | _ \<Rightarrow> (result, [entry, exit (fst (error_text err)) (snd (error_text err))])))"

subsection \<open>Log and capture\<close>

text \<open>What Sentry is handed: the error, the tags of the request context, the extra data.\<close>

definition capture_with_trace ::
  "request_context option \<Rightarrow> exn \<Rightarrow> jsval \<Rightarrow> exn \<times> (string \<times> string) list \<times> jsval" where
  "capture_with_trace ctx err extra = (err, capture_tags ctx, extra)"

definition warn_and_capture ::
  "request_context option \<Rightarrow> string \<Rightarrow> exn \<Rightarrow> jsval \<Rightarrow> log_line \<times> exn \<times> (string \<times> string) list \<times> jsval" where
  "warn_and_capture ctx message err context = (WarnLine message, capture_with_trace ctx err context)"

definition error_and_capture ::
  "request_context option \<Rightarrow> string \<Rightarrow> exn \<Rightarrow> jsval \<Rightarrow> log_line \<times> exn \<times> (string \<times> string) list \<times> jsval" where
  "error_and_capture ctx message err context = (ErrorLine message, capture_with_trace ctx err context)"

subsection \<open>Metrics\<close>

datatype metric_kind = Counter | Gauge

record metric =
  mt_kind :: metric_kind
  mt_name :: string
  mt_help :: string
  mt_labels :: "string list"

definition default_metrics_prefix :: string where
  "default_metrics_prefix = ''app_''"

definition metrics :: "metric list" where
  "metrics =
     [\<lparr>mt_kind = Counter, mt_name = ''app_outbox_terminal_failures_total'',
       mt_help = ''Outbox events that hit MAX_ATTEMPTS and were marked failed'',
       mt_labels = [''target'', ''pattern'']\<rparr>,
      \<lparr>mt_kind = Gauge, mt_name = ''app_outbox_pending'',
       mt_help = ''Outbox rows in `pending` status, sampled per sweep'', mt_labels = []\<rparr>,
      \<lparr>mt_kind = Gauge, mt_name = ''app_outbox_failed'',
       mt_help = ''Outbox rows in `failed` status, sampled per sweep'', mt_labels = []\<rparr>]"

text \<open>\<open>MetricsController.metrics\<close>: the header and what the registry renders.\<close>

definition metrics_endpoint :: "exn + string \<Rightarrow> (string \<times> string) \<times> (exn + string)" where
  "metrics_endpoint rendered =
     ((''Content-Type'', ''text/plain; version=0.0.4; charset=utf-8''), rendered)"

subsection \<open>Properties\<close>

text \<open>Every metric carries the prefix of the default ones, and no two share a name.\<close>

lemma metrics_prefixed: "\<forall>m \<in> set metrics. prefix default_metrics_prefix (mt_name m)"
  and metrics_distinct: "distinct (map mt_name metrics)"
  by (simp_all add: metrics_def default_metrics_prefix_def)

text \<open>
  The exit line of the access log tells the client's status for HTTP exceptions only. An exception whose
  response is no RPC envelope is logged with the status the exception filter answers with; any other
  error is answered with 500 but logged with the status the response happened to have.
\<close>

theorem access_log_status:
  assumes plain: "extract_rpc_payload err = None"
  shows "rep_status (fst (all_exceptions_filter reqId traceId err)) =
      (if is_http_exn err then logged_status (Inl err) resStatus else JNum 500)
    \<and> (\<not> is_http_exn err \<longrightarrow> logged_status (Inl err) resStatus = JNum resStatus)"
proof (cases err)
  case (HttpExn st res m)
  with plain show ?thesis
    by (cases res) (simp_all add: all_exceptions_filter_def classify_exception_def logged_status_def Let_def)
qed (use plain in \<open>simp_all add: all_exceptions_filter_def classify_exception_def logged_status_def Let_def\<close>)

theorem access_log_status_witness:
  "rep_status (fst (all_exceptions_filter None None (plain_error ''x''))) = JNum 500
   \<and> logged_status (Inl (plain_error ''x'')) 200 = JNum 200"
proof -
  have "extract_rpc_payload (plain_error ''x'') = None"
    by (simp add: extract_rpc_payload_def plain_error_def is_rpc_error_payload_def)
  from access_log_status [OF this, of None None 200] show ?thesis
    by (simp add: plain_error_def)
qed

text \<open>
  The logs do not change what they observe. The access log returns every result as it came; the RPC log
  does unless the handler threw \<open>null\<close> or \<open>undefined\<close>; both write one line before and at most one after.
\<close>

theorem logs_are_transparent:
  "fst (http_log_intercept error_text isHttp req result resStatus ms) = result
   \<and> length (snd (http_log_intercept error_text isHttp req result resStatus ms)) \<in> {0, 2}
   \<and> length (snd (rpc_log_intercept error_text isRpc pattern result' ms)) \<in> {0, 1, 2}
   \<and> (fst (rpc_log_intercept error_text isRpc pattern result' ms) = result'
      \<or> (\<exists>v. result' = Inl (ThrownExn v) \<and> js_nullish v
           \<and> fst (rpc_log_intercept error_text isRpc pattern result' ms) = Inl (plain_error ''TypeError'')))"
  by (auto simp: http_log_intercept_def rpc_log_intercept_def Let_def split: sum.splits exn.splits)

end
