(* ===== verification/OAuth_Properties.thy ===== *)
theory OAuth_Properties
  imports Auth_Service
begin

section \<open>What the OAuth login promises\<close>

text \<open>
  How a verification can fail, which requests go out to the providers, and what the identity of a
  VK id token rests on.
\<close>



text \<open>
  What an accepted id token rests on: for the token and the client id, VK's endpoint answered below 500
  with an object that has no error and a user with an id, which becomes the identity's; the address counts
  as verified only when VK said so of it.
\<close>

definition vk_vouches :: "http_response \<Rightarrow> identity \<Rightarrow> bool" where
  "vk_vouches res i \<longleftrightarrow>
     rs_status res < 500
     \<and> (\<exists>payload. rs_json res = Some payload \<and> \<not> js_truthy (js_get payload ''error'')
          \<and> js_truthy (js_get (js_get payload ''user'') ''user_id'')
          \<and> id_providerUserId i = js_string (js_get (js_get payload ''user'') ''user_id'')
          \<and> (id_emailVerified i = Some True \<longrightarrow>
               js_get (js_get payload ''user'') ''verified'' = JBool True
               \<and> js_truthy (js_get (js_get payload ''user'') ''email'')))"

text \<open>The last request of the log is that question, and this was the answer to it.\<close>

definition vk_accepts ::
  "'n fetch \<Rightarrow> vk_config \<Rightarrow> string \<Rightarrow> string \<Rightarrow> http_request list \<times> 'n \<Rightarrow> identity \<Rightarrow> bool" where
  "vk_accepts fetch cfg cid tok w i \<longleftrightarrow>
     (let req = PublicInfo (nullish (vk_publicInfoUrl cfg) DEFAULT_VK_PUBLIC_INFO_URL) cid tok in
      \<exists>l k res k'. w = (l @ [req], k') \<and> fetch req k = (Inr res, k') \<and> vk_vouches res i)"

lemma try_public_info_accepts:
  assumes "try_public_info (logged fetch) cfg cid tok ln = (InfoOk i, w)"
  shows "vk_accepts fetch cfg cid tok w i"
proof -
  let ?req = "PublicInfo (nullish (vk_publicInfoUrl cfg) DEFAULT_VK_PUBLIC_INFO_URL) cid tok"
  obtain l k where ln: "ln = (l, k)" by fastforce
  obtain r k' where f: "fetch ?req k = (r, k')" by fastforce
  with assms ln obtain res where r: "r = Inr res"
    by (cases r) (auto simp: try_public_info_def logged_def)
  with assms ln f have w: "w = (l @ [?req], k')"
    by (auto simp: try_public_info_def logged_def Let_def split: if_splits sum.splits)
  have "vk_vouches res i"
  proof (cases "rs_json res")
    case None
    with assms ln f r show ?thesis
      by (auto simp: try_public_info_def logged_def Let_def json_or_null_def split: if_splits sum.splits)
  next
    case (Some payload)
    with assms ln f r show ?thesis
      by (auto simp: try_public_info_def logged_def Let_def json_or_null_def vk_vouches_def vk_identity_def
          split: if_splits sum.splits)
  qed
  with w f r show ?thesis unfolding vk_accepts_def Let_def by blast
qed

lemma try_client_ids_accepts:
  "try_client_ids (logged fetch) cfg tok cids ln = (Inr i, w) \<Longrightarrow> \<exists>c \<in> set cids. vk_accepts fetch cfg c tok w i"
proof (induction cids arbitrary: ln)
  case (Cons c cs)
  obtain pi w1 where pi: "try_public_info (logged fetch) cfg c tok ln = (pi, w1)" by (rule prod.exhaust)
  with Cons show ?case
    by (cases pi) (auto dest: try_public_info_accepts)
qed simp

text \<open>
  C40: a VK token is checked with the server's own app ids only. A verification sends at most two
  requests, every one to the configured endpoint, with the token as given and, for an id token, with a
  configured app id; and an id token is accepted only when the last of these requests, under one of them,
  was answered with a user and no error.
\<close>

theorem vk_stays_in_whitelist:
  assumes "vk_verify (logged fetch) lone ph cfg tok h (l, n) = (r, w)"
  shows "(\<exists>l' n'. w = (l @ l', n') \<and> length l' \<le> 2 \<and> (\<forall>q \<in> set l'. vk_request cfg tok q))
    \<and> (\<forall>i. r = Inr i \<longrightarrow> looks_like_jwt ph tok \<longrightarrow>
         (\<exists>c. Some c \<in> {vk_androidId cfg, vk_iosId cfg} \<and> c \<noteq> [] \<and> vk_accepts fetch cfg c tok w i))"
proof (cases "tok \<noteq> [] \<and> looks_like_jwt ph tok \<and> ordered_client_ids cfg h \<noteq> []")
  case True
  with assms have run: "try_client_ids (logged fetch) cfg tok (ordered_client_ids cfg h) (l, n) = (r, w)"
    by (simp add: vk_verify_def verify_id_token_def)
  have wl: "\<forall>c \<in> set (ordered_client_ids cfg h). Some c \<in> {vk_androidId cfg, vk_iosId cfg} \<and> c \<noteq> []"
    using ordered_client_ids_whitelist(1) by blast
  from try_client_ids_log [OF run wl] obtain l' n' where
    l': "w = (l @ l', n')" "length l' \<le> length (ordered_client_ids cfg h)" "\<forall>q \<in> set l'. vk_request cfg tok q"
    by blast
  with ordered_client_ids_whitelist(2) [of cfg h] have "length l' \<le> 2" by simp
  moreover have "\<exists>c. Some c \<in> {vk_androidId cfg, vk_iosId cfg} \<and> c \<noteq> [] \<and> vk_accepts fetch cfg c tok w i"
    if "r = Inr i" for i
    using try_client_ids_accepts [OF run [unfolded that]] wl by blast
  ultimately show ?thesis using l' by blast
next
  case False
  show ?thesis
  proof (cases "tok \<noteq> [] \<and> \<not> looks_like_jwt ph tok")
    case True
    with assms have "verify_access_token (logged fetch) lone cfg tok (l, n) = (r, w)"
      by (simp add: vk_verify_def)
    with True verify_access_token_log [OF this] show ?thesis by blast
  next
    case no_call: False
    with False assms have "w = (l, n)" and "\<not> (\<exists>i. r = Inr i)"
      by (auto simp: vk_verify_def verify_id_token_def split: if_splits)
    then show ?thesis by auto
  qed
qed

theorem vk_stays_in_whitelist_witness:
  "\<exists>r w. vk_verify (logged (\<lambda>req n. (Inl ''timeout'', n))) (\<lambda>_. False) (\<lambda>_. Some (JObj [(''alg'', JStr ''RS256'')]))
        \<lparr>vk_androidId = Some ''51'', vk_iosId = Some ''52'', vk_publicInfoUrl = None, vk_userInfoUrl = None\<rparr>
        ''a.b.c'' \<lparr>hint_platform = None\<rparr> ([], ()) = (r, w) \<and> length (fst w) \<le> 2"
proof -
  let ?cfg = "\<lparr>vk_androidId = Some ''51'', vk_iosId = Some ''52'', vk_publicInfoUrl = None, vk_userInfoUrl = None\<rparr>"
  obtain r w where run: "vk_verify (logged (\<lambda>req n. (Inl ''timeout'', n))) (\<lambda>_. False) (\<lambda>_. Some (JObj [(''alg'', JStr ''RS256'')]))
      ?cfg ''a.b.c'' \<lparr>hint_platform = None\<rparr> ([], ()) = (r, w)" by (rule prod.exhaust)
  from vk_stays_in_whitelist [OF run] run show ?thesis by auto
qed

text \<open>
  An access token is not bound to the server's apps. For a token that is no JWT the app ids play
  no part: whichever are configured, none included, the answer of \<open>users.get\<close> decides alone, so a
  token VK issued to any other app logs its owner in.
\<close>

theorem vk_access_token_ignores_app:
  assumes "\<not> looks_like_jwt ph tok"
  shows "vk_verify fetch lone ph (cfg\<lparr>vk_androidId := a, vk_iosId := b\<rparr>) tok h n = vk_verify fetch lone ph cfg tok h n"
  using assms by (simp add: vk_verify_def verify_access_token_def cong: sum.case_cong)

theorem vk_access_token_ignores_app_witness:
  "vk_verify (\<lambda>req n. (Inr \<lparr>rs_status = 200, rs_json = Some (JObj [(''response'', JArr [JObj [(''id'', JNum 7)]])])\<rparr>, n))
     (\<lambda>_. False) (\<lambda>_. None) \<lparr>vk_androidId = None, vk_iosId = None, vk_publicInfoUrl = None, vk_userInfoUrl = None\<rparr>
     ''vk1'' \<lparr>hint_platform = None\<rparr> ()
   = vk_verify (\<lambda>req n. (Inr \<lparr>rs_status = 200, rs_json = Some (JObj [(''response'', JArr [JObj [(''id'', JNum 7)]])])\<rparr>, n))
     (\<lambda>_. False) (\<lambda>_. None) \<lparr>vk_androidId = Some ''51'', vk_iosId = None, vk_publicInfoUrl = None, vk_userInfoUrl = None\<rparr>
     ''vk1'' \<lparr>hint_platform = None\<rparr> ()"
proof -
  have "\<not> looks_like_jwt (\<lambda>_. None) ''vk1''" by (simp add: looks_like_jwt_def)
  from vk_access_token_ignores_app [OF this, where cfg = "\<lparr>vk_androidId = Some ''51'', vk_iosId = None,
      vk_publicInfoUrl = None, vk_userInfoUrl = None\<rparr>" and a = None and b = None] show ?thesis by simp
qed

end
