(* ===== verification/Broker_Boot.thy ===== *)
theory Broker_Boot
  imports Boot_Sequence Observability
begin

section \<open>Starting without a broker\<close>

text \<open>
  \<open>EventBusService.onApplicationBootstrap\<close> (\<open>libs/messaging/src/amqp/event-bus.service.ts\<close>) as a whole:
  what it logs while it waits for the broker, when it gives up, and what becomes of a process whose
  bootstrap hook fails. What happens on the connection and to the timers is a list of events, in the
  order in which they happen. \<open>masked\<close> is the broker's URL without its credentials.
\<close>

subsection \<open>The bootstrap hook\<close>

datatype bus_event =
    BusConnected                            \<comment> \<open>event \<open>connect\<close>\<close>
  | BusDisconnected "string option"         \<comment> \<open>event \<open>disconnect\<close>, \<open>err?.message\<close>\<close>
  | BusConnectFailed "string option"        \<comment> \<open>event \<open>connectFailed\<close>, \<open>err?.message\<close>\<close>
  | Tick int                                \<comment> \<open>the heartbeat, with the milliseconds since the start\<close>
  | WaitDone                                \<comment> \<open>\<open>waitForConnect()\<close> resolves\<close>
  | WaitRejected exn
  | CapElapsed                              \<comment> \<open>the timer of the cap\<close>

definition round_seconds :: "int \<Rightarrow> int" where
  "round_seconds ms = (ms + 500) div 1000"

definition connect_timeout_error :: "string \<Rightarrow> int \<Rightarrow> exn" where
  "connect_timeout_error masked ms =
     plain_error (''event-bus: RMQ connect did not succeed within '' @ js_string (JNum ms) @ ''ms (url='' @ masked @ '')'')"

text \<open>The lines of the connection's listeners and of the heartbeat.\<close>

definition bus_line :: "environment \<Rightarrow> string \<Rightarrow> bus_event \<Rightarrow> log_line list" where
  "bus_line env masked ev =
     (case ev of
        BusConnected \<Rightarrow> [LogLine (''event-bus connected (exchange='' @ events_exchange_name env @ '')'')]
      | BusDisconnected m \<Rightarrow> [WarnLine (''event-bus disconnected: '' @ nullish m ''unknown reason'')]
      | BusConnectFailed m \<Rightarrow>
          [ErrorLine (''event-bus: connectFailed url='' @ masked @ '' err='' @ nullish m ''unknown'')]
      | Tick ms \<Rightarrow>
          [WarnLine (''event-bus: still waiting for RMQ at '' @ masked @ '' ('' @ js_string (JNum (round_seconds ms))
             @ ''s elapsed)'')]
      | _ \<Rightarrow> [])"

text \<open>
  What an event decides while the hook waits. Once it is decided, the \<open>finally\<close> block has cleared the
  heartbeat and the cap; the listeners stay.
\<close>

definition decides :: "string \<Rightarrow> int option \<Rightarrow> bus_event \<Rightarrow> (exn + unit) option" where
  "decides masked cap ev =
     (case ev of
        WaitDone \<Rightarrow> Some (Inr ())
      | WaitRejected e \<Rightarrow> Some (Inl e)
      | CapElapsed \<Rightarrow> map_option (\<lambda>ms. Inl (connect_timeout_error masked ms)) cap
      | _ \<Rightarrow> None)"

definition is_tick :: "bus_event \<Rightarrow> bool" where
  "is_tick ev = (case ev of Tick _ \<Rightarrow> True | _ \<Rightarrow> False)"

fun bus_wait ::
  "environment \<Rightarrow> string \<Rightarrow> int option \<Rightarrow> (exn + unit) option \<Rightarrow> bus_event list \<Rightarrow> (exn + unit) option \<times> log_line list" where
  "bus_wait env masked cap res [] = (res, [])"
| "bus_wait env masked cap res (ev # es) =
     (let line = (if is_tick ev \<and> res \<noteq> None then [] else bus_line env masked ev);
          res' = (if res = None then decides masked cap ev else res)
      in case bus_wait env masked cap res' es of (r, ls) \<Rightarrow> (r, line @ ls))"

text \<open>The hook: its result, if there is one yet, and everything that was logged.\<close>

definition on_application_bootstrap ::
  "(string \<Rightarrow> int option) \<Rightarrow> environment \<Rightarrow> string \<Rightarrow> bus_event list \<Rightarrow> (exn + unit) option \<times> log_line list" where
  "on_application_bootstrap number_of env masked es =
     (case bus_wait env masked (boot_timeout_ms number_of env) None es of
        (res, ls) \<Rightarrow> (res, LogLine (''event-bus: connecting to '' @ masked) # ls))"

subsection \<open>What the hook comes to\<close>

lemma bus_wait_decided [simp]: "fst (bus_wait env masked cap (Some r) es) = Some r"
  by (induction es) (simp_all add: Let_def case_prod_beta)

text \<open>The result is that of the race in \<open>Messaging\<close>, on the events that take part in it.\<close>

fun race :: "bus_event list \<Rightarrow> boot_event list" where
  "race [] = []"
| "race (WaitDone # es) = Connected # race es"
| "race (WaitRejected e # es) = ConnectRejected e # race es"
| "race (CapElapsed # es) = TimerElapsed # race es"
| "race (_ # es) = race es"

lemma await_connect_any_error: "await_connect e None es = await_connect e' None es"
  by (induction e "None :: int option" es rule: await_connect.induct) simp_all

lemma bus_wait_race:
  "fst (bus_wait env masked cap None es) = await_connect (connect_timeout_error masked (the cap)) cap (race es)"
  by (induction es rule: race.induct)
    (auto simp: Let_def decides_def is_tick_def case_prod_beta split: option.splits)

theorem bootstrap_hook_is_race:
  "fst (on_application_bootstrap number_of env masked es)
     = await_connect (connect_timeout_error masked (the (boot_timeout_ms number_of env)))
         (boot_timeout_ms number_of env) (race es)"
  by (simp add: on_application_bootstrap_def bus_wait_race case_prod_beta)

text \<open>Without a broker the cap decides, as soon as it elapses.\<close>

lemma cap_decides:
  assumes "CapElapsed \<in> set es" and "WaitDone \<notin> set es" and "\<forall>e. WaitRejected e \<notin> set es"
  shows "fst (bus_wait env masked (Some ms) None es) = Some (Inl (connect_timeout_error masked ms))"
  using assms
proof (induction es)
  case (Cons ev es)
  show ?case
  proof (cases "ev = CapElapsed")
    case True
    then show ?thesis by (simp add: Let_def decides_def case_prod_beta)
  next
    case False
    with Cons.prems have "decides masked (Some ms) ev = None" by (cases ev) (auto simp: decides_def)
    moreover have "fst (bus_wait env masked (Some ms) None es) = Some (Inl (connect_timeout_error masked ms))"
      using Cons False by auto
    ultimately show ?thesis by (simp add: Let_def case_prod_beta)
  qed
qed simp

subsection \<open>The process\<close>

text \<open>
  \<open>listen\<close> initialises the application, which awaits the bootstrap hooks; in a framework where all else
  works it fails exactly with what a hook throws.
\<close>

definition is_listen :: "boot_op \<Rightarrow> bool" where
  "is_listen op = (case op of ListenPort _ _ \<Rightarrow> True | ListenQueue \<Rightarrow> True | _ \<Rightarrow> False)"

definition only_hook_fails :: "'w framework \<Rightarrow> exn \<Rightarrow> bool" where
  "only_hook_fails perform e \<longleftrightarrow>
     (\<forall>op w. fst (perform op w) = (if is_listen op then Inl e else Inr ()))"

lemma run_ops_fails_last:
  assumes "only_hook_fails perform e" and "list_all (\<lambda>op. \<not> is_listen op) ops" and "is_listen final"
  shows "\<exists>w'. run_ops perform (ops @ [final]) w = (ops, Some e, w')"
  using assms(2)
proof (induction ops arbitrary: w)
  case Nil
  obtain q w1 where q: "perform final w = (q, w1)" by fastforce
  with assms(1,3) have "q = Inl e" unfolding only_hook_fails_def by (metis fst_conv)
  with q show ?case by simp
next
  case (Cons op ops)
  obtain q w1 where q: "perform op w = (q, w1)" by fastforce
  with assms(1) Cons.prems have "q = Inr ()" unfolding only_hook_fails_def by (metis fst_conv list.pred_inject(2))
  moreover obtain w' where "run_ops perform (ops @ [final]) w1 = (ops, Some e, w')"
    using Cons by auto
  ultimately show ?case using q by simp
qed

lemma hook_failure_lingers:
  assumes hook: "only_hook_fails perform e" and f: "forRoot env = (None, env1)" and m: "modul env1 = Inr m"
    and early: "list_all (\<lambda>op. \<not> is_listen op) (early env1)" and req: "assert_required_env env1 required = Inr ()"
    and ops: "ops env1 = pre @ [ErrorHandlers svc] @ [final]" and pre: "list_all (\<lambda>op. \<not> is_listen op) pre"
    and final: "is_listen final"
  shows "st_fate (start_process forRoot modul early required ops perform env w) = Lingering e"
proof -
  have awaiting: "awaiting None perform = perform"
    by (intro ext) (simp add: awaiting_def)
  have all: "\<exists>w'. run_ops perform ops' v = (ops', None, w')" if "list_all (\<lambda>op. \<not> is_listen op) ops'" for ops' v
    using that
  proof (induction ops' arbitrary: v)
    case (Cons op ops')
    obtain q w1 where q: "perform op v = (q, w1)" by fastforce
    with hook Cons.prems have "q = Inr ()" unfolding only_hook_fails_def by (metis fst_conv list.pred_inject(2))
    with Cons q show ?case by (simp split: prod.splits) (metis prod.inject)
  qed simp
  from all [OF early] obtain w1 where r1: "run_ops perform (early env1) w = (early env1, None, w1)" by blast
  have "list_all (\<lambda>op. \<not> is_listen op) (pre @ [ErrorHandlers svc])" using pre by (simp add: is_listen_def)
  from run_ops_fails_last [OF hook this final] obtain w2 where
    r2: "run_ops perform ((pre @ [ErrorHandlers svc]) @ [final]) w1 = (pre @ [ErrorHandlers svc], Some e, w2)" by blast
  show ?thesis
    using f m r1 req r2 by (simp add: start_process_def ops awaiting fate_of_def)
qed

lemma required_modules:
  shows "assert_required_env env1 gateway_required = Inr () \<Longrightarrow> \<exists>m. gateway_module env1 = Inr m"
    and "assert_required_env env1 user_required = Inr () \<Longrightarrow> \<exists>m. user_module env1 = Inr m"
proof -
  have req: "(\<exists>v. env1 n = Some v \<and> js_trim v \<noteq> []) \<Longrightarrow> \<exists>v. require_env env1 n = Inr v" for n
    by (auto simp: require_env_def)
  show "\<exists>m. gateway_module env1 = Inr m" if "assert_required_env env1 gateway_required = Inr ()"
    using that req [of "''RABBITMQ_URL''"] by (auto simp: assert_required_env_Inr gateway_required_def gateway_module_def)
  assume "assert_required_env env1 user_required = Inr ()"
  then obtain a b c where "require_env env1 ''MONGO'' = Inr a" "require_env env1 ''MONGO_DB'' = Inr b"
    "require_env env1 ''RABBITMQ_URL'' = Inr c"
    using req [of "''MONGO''"] req [of "''MONGO_DB''"] req [of "''RABBITMQ_URL''"]
    by (auto simp: assert_required_env_Inr user_required_def)
  then show "\<exists>m. user_module env1 = Inr m" by (simp add: user_module_def database_from_env_def)
qed

text \<open>
  C36: an unreachable broker does not restart the pod. When the cap of the bus elapses before the broker
  has answered, the bootstrap hook throws the error that is meant to end the process; but the hook runs
  when the application starts to listen, and by then the error handlers are installed: the gateway and
  the user service, configured completely and with everything else at work, are left running without
  serving.
\<close>

theorem unreachable_broker_is_no_restart:
  assumes f: "forRoot env = (None, env1)" and cap: "boot_timeout_ms number env1 = Some ms"
    and events: "CapElapsed \<in> set es" "WaitDone \<notin> set es" "\<forall>e. WaitRejected e \<notin> set es"
    and hook: "\<forall>e. fst (on_application_bootstrap number env1 masked es) = Some (Inl e) \<longrightarrow> only_hook_fails perform e"
  shows "(assert_required_env env1 gateway_required = Inr () \<longrightarrow>
      st_fate (start_gateway number_of inst errorRef paths forRoot perform env w)
        = Lingering (connect_timeout_error masked ms))
    \<and> (assert_required_env env1 user_required = Inr () \<longrightarrow>
      st_fate (fst (start_user_service number_of metricsPort forRoot perform env w))
        = Lingering (connect_timeout_error masked ms)
      \<and> snd (start_user_service number_of metricsPort forRoot perform env w) = None)"
proof -
  let ?e = "connect_timeout_error masked ms"
  have "fst (on_application_bootstrap number env1 masked es) = Some (Inl ?e)"
    using cap_decides [OF events] by (simp add: on_application_bootstrap_def cap case_prod_beta)
  with hook have fails: "only_hook_fails perform ?e" by blast
  have gateway: "st_fate (start_gateway number_of inst errorRef paths forRoot perform env w) = Lingering ?e"
    if req: "assert_required_env env1 gateway_required = Inr ()"
  proof -
    obtain m where m: "gateway_module env1 = Inr m" using required_modules(1) [OF req] by blast
    have ops: "gateway_ops inst errorRef paths env1
        = gateway_setup inst errorRef paths env1 @ [ErrorHandlers ''gateway''] @ [listen_op env1]"
      by (simp add: gateway_ops_split)
    have pre: "list_all (\<lambda>op. \<not> is_listen op) (gateway_setup inst errorRef paths env1)"
      by (simp add: gateway_setup_def gateway_ops_def docs_ops_def butlast_append is_listen_def)
    have final: "is_listen (listen_op env1)" by (simp add: listen_op_def is_listen_def)
    show ?thesis unfolding start_gateway_def
      by (rule hook_failure_lingers [where forRoot = forRoot and env = env and ?env1.0 = env1 and early = "\<lambda>e. [InitSentry (init_sentry number_of e ''gateway'')]"
            and ops = "gateway_ops inst errorRef paths" and modul = gateway_module, OF fails f m _ req ops pre final])
        (simp add: is_listen_def)
  qed
  have service: "st_fate (fst (start_user_service number_of metricsPort forRoot perform env w)) = Lingering ?e"
    if req: "assert_required_env env1 user_required = Inr ()"
  proof -
    obtain m where m: "user_module env1 = Inr m" using required_modules(2) [OF req] by blast
    define pre where "pre = butlast (butlast (service_ops number_of user_service_options env1))"
    have ops: "service_ops number_of user_service_options env1 = pre @ [ErrorHandlers ''user''] @ [ListenQueue]"
      by (simp add: pre_def service_ops_def user_service_options_def)
    have free: "list_all (\<lambda>op. \<not> is_listen op) pre" by (simp add: pre_def service_ops_def is_listen_def)
    show ?thesis unfolding start_user_service_def Let_def fst_conv
      by (rule hook_failure_lingers [where forRoot = forRoot and env = env and ?env1.0 = env1 and early = "\<lambda>e. []"
            and ops = "service_ops number_of user_service_options" and modul = user_module, OF fails f m _ req ops free])
        (simp_all add: is_listen_def)
  qed
  from gateway service show ?thesis by (auto simp: start_user_service_def Let_def)
qed

text \<open>A framework in which only the hook fails, and the broker that never answers.\<close>

definition hook_framework :: "exn \<Rightarrow> 'w framework" where
  "hook_framework e op w = (if is_listen op then Inl e else Inr (), w)"

theorem unreachable_broker_is_no_restart_witness:
  "st_fate (start_gateway (\<lambda>s. JStr s) \<lparr>hi_disable = True, hi_set = True\<rparr> JUndef [] (\<lambda>e. (None, e))
      (hook_framework (connect_timeout_error ''amqp://mq'' 60000)) (map_of demo_gateway_env) ())
    = Lingering (plain_error ''event-bus: RMQ connect did not succeed within 60000ms (url=amqp://mq)'')"
proof -
  let ?es = "[BusConnectFailed (Some ''ECONNREFUSED''), Tick 5000, CapElapsed]" and ?env = "map_of demo_gateway_env"
  let ?e = "connect_timeout_error ''amqp://mq'' 60000"
  have cap: "boot_timeout_ms (\<lambda>_. None) ?env = Some 60000"
    by (simp add: boot_timeout_ms_def demo_gateway_env_def)
  have result: "fst (on_application_bootstrap (\<lambda>_. None) ?env ''amqp://mq'' ?es) = Some (Inl ?e)"
    using cap_decides [of ?es] by (simp add: on_application_bootstrap_def cap case_prod_beta del: bus_wait.simps)
  have "only_hook_fails (hook_framework ?e) ?e" by (simp add: only_hook_fails_def hook_framework_def)
  with result have hook: "\<forall>e. fst (on_application_bootstrap (\<lambda>_. None) ?env ''amqp://mq'' ?es) = Some (Inl e)
      \<longrightarrow> only_hook_fails (hook_framework ?e) e" by simp
  have req: "assert_required_env ?env gateway_required = Inr ()"
    by (simp add: assert_required_env_Inr gateway_required_def demo_gateway_env_def js_trim_def js_space_def)
  have "?e = plain_error ''event-bus: RMQ connect did not succeed within 60000ms (url=amqp://mq)''"
    by (simp add: connect_timeout_error_def show_num_def show_digits.simps)
  with mp [OF conjunct1 [OF unreachable_broker_is_no_restart [where forRoot = "\<lambda>e. (None, e)" and env = ?env,
        OF refl cap _ _ _ hook]] req]
  show ?thesis by simp
qed

end
