(* ===== verification/Wiring.thy ===== *)
theory Wiring
  imports Boot_Sequence
begin

section \<open>Dependency injection\<close>

text \<open>
  The modules of the four applications as Nest sees them: \<open>apps/gateway/src/app.module.ts\<close> with the
  modules under \<open>modules/\<close>, \<open>apps/user/src/app.module.ts\<close> with its modules, the two tasks,
  \<open>libs/database/src/database.module.ts\<close>, \<open>libs/messaging/src/messaging.module.ts\<close> and
  \<open>outbox.module.ts\<close>. A token is a name; a provider or a controller is the list of what its constructor
  asks for, an optional argument left out. What the modules of libraries export is a parameter.
\<close>

type_synonym token = string

record di_module =
  dm_name :: string
  dm_global :: bool
  dm_imports :: "string list"
  dm_providers :: "(token \<times> token list) list"
  dm_controllers :: "(string \<times> token list) list"
  dm_exports :: "string list"         \<comment> \<open>tokens, or names of imported modules\<close>

text \<open>
  The tokens a module offers, with those of the modules it exports again; \<open>depth\<close> bounds the chain of
  such exports.
\<close>

fun find_module :: "di_module list \<Rightarrow> string \<Rightarrow> di_module option" where
  "find_module [] n = None"
| "find_module (m # ms) n = (if dm_name m = n then Some m else find_module ms n)"

fun offered :: "nat \<Rightarrow> di_module list \<Rightarrow> string \<Rightarrow> token list" where
  "offered depth ms n =
     (case find_module ms n of
        None \<Rightarrow> []
      | Some m \<Rightarrow>
          concat (map (\<lambda>x. if x \<in> set (map fst (dm_providers m)) then [x]
                           else case depth of 0 \<Rightarrow> [] | Suc d \<Rightarrow> if x \<in> set (dm_imports m) then offered d ms x else [])
            (dm_exports m)))"

declare offered.simps [simp del]

definition reexport_depth :: nat where
  "reexport_depth = 2"

definition framework_tokens :: "token list" where
  "framework_tokens = [''Reflector'']"

definition visible :: "di_module list \<Rightarrow> di_module \<Rightarrow> token list" where
  "visible ms m =
     map fst (dm_providers m) @ concat (map (offered reexport_depth ms) (dm_imports m))
     @ concat (map (offered reexport_depth ms) (map dm_name (filter dm_global ms))) @ framework_tokens"

text \<open>Every argument is there, and only what a module has or imports is exported.\<close>

definition module_wired :: "di_module list \<Rightarrow> di_module \<Rightarrow> bool" where
  "module_wired ms m \<longleftrightarrow>
     list_all (\<lambda>(t, needs). list_all (\<lambda>n. n \<in> set (visible ms m)) needs) (dm_providers m @ dm_controllers m)
     \<and> list_all (\<lambda>i. find_module ms i \<noteq> None) (dm_imports m)
     \<and> list_all (\<lambda>x. x \<in> set (map fst (dm_providers m)) \<or> x \<in> set (dm_imports m)) (dm_exports m)"

definition wired :: "di_module list \<Rightarrow> bool" where
  "wired ms \<longleftrightarrow> list_all (module_wired ms) ms"

subsection \<open>Libraries\<close>

record library =
  lb_config :: "token list"
  lb_throttler :: "token list"
  lb_throttlerGuard :: "token list"   \<comment> \<open>what the base class of the throttler guard asks for\<close>
  lb_passport :: "token list"
  lb_jwt :: "token list"
  lb_terminus :: "token list"
  lb_orm :: "token list"
  lb_repositories :: "string list \<Rightarrow> token list"   \<comment> \<open>of the entities\<close>

text \<open>What the libraries document; the tokens of the ORM come from its own modules only.\<close>

definition library_ok :: "library \<Rightarrow> bool" where
  "library_ok lb \<longleftrightarrow>
     ''ConfigService'' \<in> set (lb_config lb) \<and> ''JwtService'' \<in> set (lb_jwt lb)
     \<and> ''HealthCheckService'' \<in> set (lb_terminus lb)
     \<and> ''MikroORM'' \<in> set (lb_orm lb) \<and> ''EntityManager'' \<in> set (lb_orm lb)
     \<and> set (lb_throttlerGuard lb) \<subseteq> set (lb_throttler lb) \<union> set framework_tokens
     \<and> list_all (\<lambda>t. t \<noteq> ''MikroORM'' \<and> t \<noteq> ''EntityManager'')
         (lb_config lb @ lb_throttler lb @ lb_passport lb @ lb_jwt lb @ lb_terminus lb)"

definition library_module :: "string \<Rightarrow> bool \<Rightarrow> token list \<Rightarrow> di_module" where
  "library_module n global tokens =
     \<lparr>dm_name = n, dm_global = global, dm_imports = [], dm_providers = map (\<lambda>t. (t, [])) tokens,
      dm_controllers = [], dm_exports = tokens\<rparr>"

subsection \<open>The libraries of the repository\<close>

definition messaging_di :: "messaging_module \<Rightarrow> di_module" where
  "messaging_di m =
     \<lparr>dm_name = ''MessagingModule'', dm_global = mm_global m,
      dm_imports = (if mm_clients m \<noteq> [] then [''ClientsModule''] else []),
      dm_providers =
        map (\<lambda>t. (t, [])) (mm_missing m)
        @ [(''EVENT_BUS_OPTIONS'', []),
           (''DLQ_SERVICE_NAME'', []),
           (''EventBusService'', [''EVENT_BUS_OPTIONS'']),
           (''APP_INTERCEPTOR'', [''EventBusService'', ''DLQ_SERVICE_NAME'']),
           (''EVENT_BUS_TOKEN'', [''EventBusService'']),
           (''RpcClientService'', [service_token USER_SERVICE])],
      dm_controllers = [],
      dm_exports = (if mm_exportsClients m then [''ClientsModule''] else []) @ [''RpcClientService'', ''EventBusService'']\<rparr>"

definition clients_module :: "messaging_module \<Rightarrow> di_module list" where
  "clients_module m =
     (if mm_clients m \<noteq> [] then [library_module ''ClientsModule'' False (map rc_name (mm_clients m))] else [])"

definition messaging_modules :: "messaging_module \<Rightarrow> di_module list" where
  "messaging_modules m = messaging_di m # clients_module m"

definition database_modules :: "library \<Rightarrow> di_module list" where
  "database_modules lb =
     [\<lparr>dm_name = ''DatabaseModule'', dm_global = True, dm_imports = [''MikroOrmModule.forRoot''], dm_providers = [],
       dm_controllers = [], dm_exports = []\<rparr>,
      library_module ''MikroOrmModule.forRoot'' True (lb_orm lb)]"

text \<open>\<open>MikroOrmModule.forFeature\<close> is a module of its own for each list of entities.\<close>

definition feature_name :: "string list \<Rightarrow> string" where
  "feature_name entities = ''MikroOrmModule.forFeature '' @ concat entities"

definition feature_module :: "library \<Rightarrow> string list \<Rightarrow> di_module" where
  "feature_module lb entities = library_module (feature_name entities) False (lb_repositories lb entities)"

definition outbox_modules :: "library \<Rightarrow> di_module list" where
  "outbox_modules lb =
     [\<lparr>dm_name = ''OutboxModule'', dm_global = True, dm_imports = [feature_name [''OutboxEvent'']],
       dm_providers = [(''OutboxDispatcher'', [''MikroORM'', ''EntityManager'', ''RpcClientService''])],
       dm_controllers = [], dm_exports = [''OutboxDispatcher'', feature_name [''OutboxEvent'']]\<rparr>,
      feature_module lb [''OutboxEvent'']]"

subsection \<open>The gateway\<close>

definition auth_module :: di_module where
  "auth_module =
     \<lparr>dm_name = ''AuthModule'', dm_global = False, dm_imports = [''PassportModule'', ''JwtModule''],
      dm_providers =
        [(''AuthService'', [''RpcClientService'', ''JwtService'', ''ConfigService'', ''TokenStoreService'',
            ''OAuthVerifierFactory'']),
         (''TokenStoreService'', [''ConfigService'']),
         (''JwtAccessStrategy'', [''ConfigService'']),
         (''JwtRefreshStrategy'', [''ConfigService'', ''TokenStoreService'']),
         (''JwtAccessGuard'', [''Reflector'']),
         (''VkOAuthVerifierService'', [''ConfigService'']),
         (''YandexOAuthVerifierService'', [''ConfigService'']),
         (''OAuthVerifierFactory'', [''VkOAuthVerifierService'', ''YandexOAuthVerifierService''])],
      dm_controllers = [(''AuthController'', [''AuthService''])],
      dm_exports = [''JwtAccessGuard'', ''TokenStoreService'']\<rparr>"

definition gateway_users_module :: di_module where
  "gateway_users_module =
     \<lparr>dm_name = ''UsersModule'', dm_global = False, dm_imports = [], dm_providers = [],
      dm_controllers = [(''UsersController'', [''RpcClientService''])], dm_exports = []\<rparr>"

definition health_module :: di_module where
  "health_module =
     \<lparr>dm_name = ''HealthModule'', dm_global = False, dm_imports = [''TerminusModule''], dm_providers = [],
      dm_controllers =
        [(''HealthController'', [''HealthCheckService'', ''ConfigService'', ''RpcClientService'']),
         (''MetricsController'', [])],
      dm_exports = []\<rparr>"

definition gateway_root :: "library \<Rightarrow> di_module" where
  "gateway_root lb =
     \<lparr>dm_name = ''AppModule'', dm_global = False,
      dm_imports = [''ConfigModule'', ''MessagingModule'', ''ThrottlerModule'', ''AuthModule'', ''UsersModule'', ''HealthModule''],
      dm_providers =
        [(''APP_FILTER.AllExceptionsFilter'', []),
         (''APP_GUARD.JwtAccessGuard'', [''Reflector'']),
         (''APP_GUARD.FingerprintThrottlerGuard'', lb_throttlerGuard lb),
         (''APP_INTERCEPTOR.RequestIdInterceptor'', []),
         (''APP_INTERCEPTOR.HttpLogInterceptor'', [])],
      dm_controllers = [], dm_exports = []\<rparr>"

definition gateway_libraries :: "library \<Rightarrow> di_module list" where
  "gateway_libraries lb =
     [library_module ''ConfigModule'' True (lb_config lb),
      library_module ''ThrottlerModule'' True (lb_throttler lb),
      library_module ''PassportModule'' False (lb_passport lb),
      library_module ''JwtModule'' False (lb_jwt lb),
      library_module ''TerminusModule'' False (lb_terminus lb)]"

definition gateway_app :: "library \<Rightarrow> messaging_module \<Rightarrow> di_module list" where
  "gateway_app lb m =
     [gateway_root lb, auth_module, gateway_users_module, health_module] @ messaging_modules m @ gateway_libraries lb"

subsection \<open>The user service and the tasks\<close>

definition email_module :: di_module where
  "email_module =
     \<lparr>dm_name = ''EmailModule'', dm_global = True, dm_imports = [], dm_providers = [(''EmailService'', [])],
      dm_controllers = [], dm_exports = [''EmailService'']\<rparr>"

definition users_module :: di_module where
  "users_module =
     \<lparr>dm_name = ''UsersModule'', dm_global = False, dm_imports = [feature_name [''User'', ''Device'']],
      dm_providers = [(''UsersService'', [''EntityManager'', ''EmailService''])],
      dm_controllers = [(''UsersController'', [''MikroORM'', ''UsersService''])], dm_exports = [''UsersService'']\<rparr>"

definition user_root :: di_module where
  "user_root =
     \<lparr>dm_name = ''UserAppModule'', dm_global = False,
      dm_imports = [''ConfigModule'', ''DatabaseModule'', ''MessagingModule'', ''OutboxModule'', ''EmailModule'', ''UsersModule''],
      dm_providers = [], dm_controllers = [], dm_exports = []\<rparr>"

definition user_app :: "library \<Rightarrow> messaging_module \<Rightarrow> di_module list" where
  "user_app lb m =
     [user_root, email_module, users_module] @ messaging_modules m @ database_modules lb @ outbox_modules lb
     @ [library_module ''ConfigModule'' True (lb_config lb), feature_module lb [''User'', ''Device'']]"

definition purge_app :: "library \<Rightarrow> di_module list" where
  "purge_app lb =
     [\<lparr>dm_name = ''UserPurgeModule'', dm_global = False,
       dm_imports = [''ConfigModule'', ''DatabaseModule'', feature_name [''User'', ''Device'']],
       dm_providers = [(''UserPurgeTask'', [''EntityManager''])], dm_controllers = [], dm_exports = []\<rparr>,
      library_module ''ConfigModule'' True (lb_config lb),
      feature_module lb [''User'', ''Device'']] @ database_modules lb"

definition migrate_app :: "library \<Rightarrow> di_module list" where
  "migrate_app lb =
     [\<lparr>dm_name = ''DbMigrateModule'', dm_global = False, dm_imports = [''ConfigModule''],
       dm_providers = [(''MongoDbProvider'', []), (''MONGO_DB_TOKEN'', [''MongoDbProvider'']), (''DbMigrateTask'', [''MONGO_DB_TOKEN''])],
       dm_controllers = [], dm_exports = []\<rparr>,
      library_module ''ConfigModule'' True (lb_config lb)]"

subsection \<open>What is visible\<close>

lemma library_module_simps [simp]:
  "dm_name (library_module n g ts) = n" "dm_global (library_module n g ts) = g"
  "dm_imports (library_module n g ts) = []" "map fst (dm_providers (library_module n g ts)) = ts"
  "dm_controllers (library_module n g ts) = []" "dm_exports (library_module n g ts) = ts"
  by (simp_all add: library_module_def comp_def)

lemma concat_map_singleton: "(\<And>x. x \<in> set xs \<Longrightarrow> f x = [x]) \<Longrightarrow> concat (map f xs) = xs"
  by (induction xs) simp_all

lemma offered_own:
  assumes "find_module ms n = Some m" and "\<forall>x \<in> set (dm_exports m). x \<in> set (map fst (dm_providers m))"
  shows "offered d ms n = dm_exports m"
  using assms concat_map_singleton [of "dm_exports m"] by (simp add: offered.simps [of d ms n] del: set_map)

lemma offered_library: "find_module ms n = Some (library_module n g ts) \<Longrightarrow> offered d ms n = ts"
  using offered_own [of ms n "library_module n g ts" d] by simp

lemma visible_own: "t \<in> set (map fst (dm_providers m)) \<Longrightarrow> t \<in> set (visible ms m)"
  by (simp add: visible_def)

lemma visible_import: "i \<in> set (dm_imports m) \<Longrightarrow> t \<in> set (offered reexport_depth ms i) \<Longrightarrow> t \<in> set (visible ms m)"
  by (auto simp: visible_def)

lemma visible_global: "g \<in> set ms \<Longrightarrow> dm_global g \<Longrightarrow> t \<in> set (offered reexport_depth ms (dm_name g)) \<Longrightarrow> t \<in> set (visible ms m)"
  by (auto simp: visible_def)

lemma visible_framework: "t \<in> set framework_tokens \<Longrightarrow> t \<in> set (visible ms m)"
  by (simp add: visible_def)

lemma library_module_wired: "module_wired ms (library_module n g ts)"
  by (auto simp: module_wired_def library_module_def list_all_iff)

subsection \<open>Messaging\<close>

lemma build_simps [simp]:
  "mm_global (messaging_build env opts peers g) = g"
  "mm_clients (messaging_build env opts peers g) = [] \<longleftrightarrow> peers = []"
  "map rc_name (mm_clients (messaging_build env opts peers g)) = map service_token peers"
  "mm_missing (messaging_build env opts peers g) = map service_token (filter (\<lambda>k. k \<notin> set peers) ALL_SERVICES)"
  "mm_exportsClients (messaging_build env opts peers g) \<longleftrightarrow> peers \<noteq> []"
  by (simp_all add: messaging_build_def Let_def comp_def rmq_client_of_def)

text \<open>Whatever the peers, the module finds the client of every service and exports what it has.\<close>

lemma messaging_wired:
  assumes m: "m = messaging_build env opts peers g"
    and clients: "peers \<noteq> [] \<Longrightarrow>
      find_module ms ''ClientsModule'' = Some (library_module ''ClientsModule'' False (map service_token peers))"
  shows "module_wired ms (messaging_di m)"
proof -
  have token: "service_token USER_SERVICE \<in> set (visible ms (messaging_di m))"
  proof (cases "USER_SERVICE \<in> set peers")
    case True
    then have "peers \<noteq> []" by auto
    from offered_library [OF clients [OF this]] True
    have "service_token USER_SERVICE \<in> set (offered reexport_depth ms ''ClientsModule'')" by simp
    moreover have "''ClientsModule'' \<in> set (dm_imports (messaging_di m))"
      using \<open>peers \<noteq> []\<close> by (simp add: m messaging_di_def)
    ultimately show ?thesis by (rule visible_import [rotated])
  next
    case False
    then have "service_token USER_SERVICE \<in> set (map fst (dm_providers (messaging_di m)))"
      by (simp add: m messaging_di_def ALL_SERVICES_def)
    then show ?thesis by (rule visible_own)
  qed
  have own: "{''EVENT_BUS_OPTIONS'', ''EventBusService'', ''DLQ_SERVICE_NAME''} \<subseteq> set (visible ms (messaging_di m))"
    by (simp add: visible_def messaging_di_def)
  have "list_all (\<lambda>(t, needs). list_all (\<lambda>n. n \<in> set (visible ms (messaging_di m))) needs)
      (dm_providers (messaging_di m) @ dm_controllers (messaging_di m))"
    using token own by (simp add: messaging_di_def list_all_iff)
  moreover have "list_all (\<lambda>i. find_module ms i \<noteq> None) (dm_imports (messaging_di m))"
    using clients by (simp add: messaging_di_def m)
  moreover have "list_all (\<lambda>x. x \<in> set (map fst (dm_providers (messaging_di m))) \<or> x \<in> set (dm_imports (messaging_di m)))
      (dm_exports (messaging_di m))"
    by (simp add: messaging_di_def m)
  ultimately show ?thesis by (simp only: module_wired_def)
qed

lemma messaging_offers:
  assumes "find_module ms ''MessagingModule'' = Some (messaging_di m)"
  shows "''RpcClientService'' \<in> set (offered d ms ''MessagingModule'')"
  unfolding offered.simps [of d ms "''MessagingModule''"] assms by (simp add: messaging_di_def)

subsection \<open>The applications\<close>

lemma feature_names [simp]: "feature_name [''OutboxEvent''] \<noteq> feature_name [''User'', ''Device'']"
  by (simp add: feature_name_def)

lemma feature_module_simps [simp]:
  "dm_name (feature_module lb es) = feature_name es" "dm_global (feature_module lb es) = False"
  by (simp_all add: feature_module_def)

lemma feature_module_wired: "module_wired ms (feature_module lb es)"
  by (simp add: feature_module_def library_module_wired)

lemma wired_append: "wired ms \<longleftrightarrow> (\<forall>m \<in> set ms. module_wired ms m)"
  by (simp add: wired_def list_all_iff)

lemma find_module_append:
  "find_module (xs @ ys) n = (case find_module xs n of None \<Rightarrow> find_module ys n | Some m \<Rightarrow> Some m)"
  by (induction xs) simp_all

lemma find_module_rest [simp]:
  "find_module (messaging_modules m) n =
     (if n = ''MessagingModule'' then Some (messaging_di m)
      else if n = ''ClientsModule'' \<and> mm_clients m \<noteq> []
        then Some (library_module ''ClientsModule'' False (map rc_name (mm_clients m))) else None)"
  by (simp add: messaging_modules_def clients_module_def messaging_di_def library_module_def)

lemma module_wiredI:
  assumes "\<And>t needs n. (t, needs) \<in> set (dm_providers m @ dm_controllers m) \<Longrightarrow> n \<in> set needs \<Longrightarrow> n \<in> set (visible ms m)"
    and "\<And>i. i \<in> set (dm_imports m) \<Longrightarrow> find_module ms i \<noteq> None"
    and "\<And>x. x \<in> set (dm_exports m) \<Longrightarrow> x \<in> set (map fst (dm_providers m)) \<or> x \<in> set (dm_imports m)"
  shows "module_wired ms m"
  using assms by (fastforce simp: module_wired_def list_all_iff)

lemma find_module_mem: "find_module ms n = Some m \<Longrightarrow> m \<in> set ms \<and> dm_name m = n"
  by (induction ms) (auto split: if_splits)

lemma visible_of_global:
  assumes "find_module ms n = Some g" and "dm_global g" and "t \<in> set (offered reexport_depth ms n)"
  shows "t \<in> set (visible ms m)"
  using find_module_mem [OF assms(1)] assms visible_global by auto

lemma visible_of_library:
  assumes "find_module ms n = Some (library_module n True ts)" and "t \<in> set ts"
  shows "t \<in> set (visible ms m)"
  using visible_of_global [OF assms(1)] offered_library [OF assms(1)] assms(2) by simp

lemma visible_of_import:
  assumes "n \<in> set (dm_imports m)" and "find_module ms n = Some (library_module n g ts)" and "t \<in> set ts"
  shows "t \<in> set (visible ms m)"
  using visible_import [OF assms(1)] offered_library [OF assms(2)] assms(3) by simp

lemma purge_wired:
  assumes "library_ok lb"
  shows "wired (purge_app lb)"
proof -
  note app = purge_app_def database_modules_def feature_name_def
  define ms where "ms = purge_app lb"
  have orm: "''EntityManager'' \<in> set (lb_orm lb)" using assms by (simp add: library_ok_def)
  have found: "list_all (\<lambda>i. find_module ms i \<noteq> None)
      [''ConfigModule'', ''DatabaseModule'', feature_name [''User'', ''Device''], ''MikroOrmModule.forRoot'']"
    by (simp add: ms_def app)
  have "find_module ms ''MikroOrmModule.forRoot'' = Some (library_module ''MikroOrmModule.forRoot'' True (lb_orm lb))"
    by (simp add: ms_def app)
  from visible_of_library [OF this orm] have em: "\<And>m. ''EntityManager'' \<in> set (visible ms m)" .
  have "list_all (module_wired ms) (purge_app lb)"
    unfolding purge_app_def database_modules_def
    using found by (simp add: library_module_wired feature_module_wired) (simp add: module_wired_def em)
  then show ?thesis by (simp add: wired_def ms_def)
qed

lemma migrate_wired: "wired (migrate_app lb)"
  by (simp add: wired_def migrate_app_def library_module_wired) (simp add: module_wired_def visible_def)

lemma user_wired:
  assumes ok: "library_ok lb" and m: "m = messaging_build env opts peers True"
  shows "wired (user_app lb m)"
proof -
  note app = user_app_def user_root_def email_module_def users_module_def database_modules_def outbox_modules_def
    feature_name_def find_module_append
  define ms where "ms = user_app lb m"
  have orm: "''EntityManager'' \<in> set (lb_orm lb)" "''MikroORM'' \<in> set (lb_orm lb)"
    using ok by (simp_all add: library_ok_def)
  have "find_module ms ''MikroOrmModule.forRoot'' = Some (library_module ''MikroOrmModule.forRoot'' True (lb_orm lb))"
    by (simp add: ms_def app)
  note orm = visible_of_library [OF this orm(1)] visible_of_library [OF this orm(2)]
  have messaging: "find_module ms ''MessagingModule'' = Some (messaging_di m)"
    by (simp add: ms_def app)
  have rpc: "''RpcClientService'' \<in> set (visible ms x)" for x
    by (rule visible_of_global [OF messaging _ messaging_offers [OF messaging]]) (simp add: messaging_di_def m)
  have mail: "find_module ms ''EmailModule'' = Some email_module"
    by (simp add: ms_def app)
  have "''EmailService'' \<in> set (offered reexport_depth ms ''EmailModule'')"
    using offered_own [OF mail, of reexport_depth] by (simp add: email_module_def)
  then have mail: "''EmailService'' \<in> set (visible ms x)" for x
    by (rule visible_of_global [OF mail, rotated]) (simp add: email_module_def)
  have found: "list_all (\<lambda>i. find_module ms i \<noteq> None)
      [''ConfigModule'', ''DatabaseModule'', ''MessagingModule'', ''OutboxModule'', ''EmailModule'', ''UsersModule'',
       feature_name [''User'', ''Device''], feature_name [''OutboxEvent''], ''MikroOrmModule.forRoot'']"
    by (simp add: ms_def app)
  have messaging: "module_wired ms (messaging_di m)" "list_all (module_wired ms) (clients_module m)"
    by (rule messaging_wired [OF m]) (simp_all add: ms_def app m clients_module_def library_module_wired)
  have own: "\<And>x t. t \<in> set (map fst (dm_providers x)) \<Longrightarrow> t \<in> set (visible ms x)" by (rule visible_own)
  have "module_wired ms user_root"
    using found by (simp add: user_root_def module_wired_def)
  moreover have "module_wired ms users_module"
    using found own [of "''UsersService''" users_module] by (simp add: users_module_def module_wired_def orm mail)
  moreover have "module_wired ms email_module"
    by (simp add: email_module_def module_wired_def)
  moreover have "list_all (module_wired ms) (database_modules lb)" "list_all (module_wired ms) (outbox_modules lb)"
    using found
    by (simp_all add: database_modules_def outbox_modules_def library_module_wired feature_module_wired)
      (simp_all add: module_wired_def orm rpc)
  ultimately have "list_all (module_wired ms) (user_app lb m)"
    using messaging by (simp add: user_app_def messaging_modules_def library_module_wired feature_module_wired)
  then show ?thesis by (simp add: wired_def ms_def)
qed

lemma gateway_wired:
  assumes ok: "library_ok lb" and m: "m = messaging_build env opts peers True"
  shows "wired (gateway_app lb m)"
proof -
  note app = gateway_app_def gateway_root_def auth_module_def gateway_users_module_def health_module_def
    gateway_libraries_def find_module_append
  define ms where "ms = gateway_app lb m"
  have found: "find_module ms ''ConfigModule'' = Some (library_module ''ConfigModule'' True (lb_config lb))"
    "find_module ms ''ThrottlerModule'' = Some (library_module ''ThrottlerModule'' True (lb_throttler lb))"
    "find_module ms ''JwtModule'' = Some (library_module ''JwtModule'' False (lb_jwt lb))"
    "find_module ms ''PassportModule'' = Some (library_module ''PassportModule'' False (lb_passport lb))"
    "find_module ms ''TerminusModule'' = Some (library_module ''TerminusModule'' False (lb_terminus lb))"
    "find_module ms ''MessagingModule'' = Some (messaging_di m)"
    "find_module ms ''AuthModule'' = Some auth_module" "find_module ms ''UsersModule'' = Some gateway_users_module"
    "find_module ms ''HealthModule'' = Some health_module"
    by (simp_all add: ms_def app)
  have config: "''ConfigService'' \<in> set (visible ms x)" for x
    using ok by (intro visible_of_library [OF found(1)]) (simp add: library_ok_def)
  have throttler: "t \<in> set (visible ms x)" if "t \<in> set (lb_throttlerGuard lb)" for t x
    using that ok visible_of_library [OF found(2)] visible_framework by (fastforce simp: library_ok_def)
  have reflector: "''Reflector'' \<in> set (visible ms x)" for x
    by (rule visible_framework) (simp add: framework_tokens_def)
  have jwt: "''JwtService'' \<in> set (visible ms auth_module)"
    using ok by (intro visible_of_import [OF _ found(3)]) (simp_all add: library_ok_def auth_module_def)
  have terminus: "''HealthCheckService'' \<in> set (visible ms health_module)"
    using ok by (intro visible_of_import [OF _ found(5)]) (simp_all add: library_ok_def health_module_def)
  have rpc: "''RpcClientService'' \<in> set (visible ms x)" for x
    by (rule visible_of_global [OF found(6) _ messaging_offers [OF found(6)]]) (simp add: messaging_di_def m)
  have messaging: "module_wired ms (messaging_di m)" "list_all (module_wired ms) (clients_module m)"
    by (rule messaging_wired [OF m]) (simp_all add: ms_def app m clients_module_def library_module_wired)
  have auth: "list_all (\<lambda>t. t \<in> set (visible ms auth_module)) (map fst (dm_providers auth_module))"
    using visible_own [of _ auth_module ms] by (simp add: list_all_iff)
  have "module_wired ms gateway_users_module"
    by (simp add: gateway_users_module_def module_wired_def rpc)
  moreover have "module_wired ms health_module"
    using terminus found by (simp add: health_module_def module_wired_def config rpc)
  moreover have "module_wired ms auth_module"
    using jwt auth found by (simp add: auth_module_def module_wired_def config rpc reflector)
  moreover have "module_wired ms (gateway_root lb)"
    using found throttler by (simp add: gateway_root_def module_wired_def reflector list_all_iff)
  ultimately have "list_all (module_wired ms) (gateway_app lb m)"
    using messaging by (simp add: gateway_app_def messaging_modules_def gateway_libraries_def library_module_wired)
  then show ?thesis by (simp add: wired_def ms_def)
qed

subsection \<open>What a module cannot see\<close>

definition all_tokens :: "di_module list \<Rightarrow> token set" where
  "all_tokens ms = set (concat (map (\<lambda>m. map fst (dm_providers m)) ms)) \<union> set framework_tokens"

lemma provider_known: "find_module ms n = Some m \<Longrightarrow> (t, needs) \<in> set (dm_providers m) \<Longrightarrow> t \<in> all_tokens ms"
  unfolding all_tokens_def set_concat set_map by (drule find_module_mem) force

lemma offered_known: "set (offered d ms n) \<subseteq> all_tokens ms"
proof (induction d arbitrary: n)
  case 0
  show ?case
    by (cases "find_module ms n") (auto simp: offered.simps [of 0 ms n] split: if_splits intro: provider_known)
next
  case (Suc d)
  then show ?case
    using subsetD [OF Suc.IH]
    by (cases "find_module ms n") (auto simp: offered.simps [of "Suc d" ms n] split: if_splits intro: provider_known)
qed

lemma visible_known:
  assumes "m \<in> set ms"
  shows "set (visible ms m) \<subseteq> all_tokens ms"
  using assms offered_known [of reexport_depth ms] by (fastforce simp: visible_def all_tokens_def)

lemma gateway_has_no_orm:
  assumes ok: "library_ok lb" and m: "m = messaging_build env opts peers True"
    and t: "t = ''MikroORM'' \<or> t = ''EntityManager''"
  shows "t \<notin> all_tokens (gateway_app lb m)"
proof -
  have libraries: "t \<notin> set (lb_config lb)" "t \<notin> set (lb_throttler lb)" "t \<notin> set (lb_passport lb)"
    "t \<notin> set (lb_jwt lb)" "t \<notin> set (lb_terminus lb)"
    using ok t by (auto simp: library_ok_def list_all_iff)
  have token: "service_token k = ''USER_SERVICE''" for k
    by (cases k) (simp add: service_token_def)
  have clients: "t \<notin> set (concat (map (\<lambda>m. map fst (dm_providers m)) (clients_module m)))"
    using t by (auto simp: clients_module_def m token)
  have "t \<notin> set (map fst (dm_providers (messaging_di m)))"
    using t by (auto simp: messaging_di_def m token)
  with clients libraries t show ?thesis
    by (auto simp: all_tokens_def gateway_app_def gateway_root_def auth_module_def gateway_users_module_def
        health_module_def gateway_libraries_def messaging_modules_def framework_tokens_def
        simp del: set_map set_concat)
qed

subsection \<open>Property\<close>

text \<open>
  C37: Nest can build every module of the four applications: each constructor argument, the client of every
  service a messaging module knows included, is a provider of the module, of one it imports or of a
  global one, and no module exports what it does not have; this holds of the user service whatever peers
  \<open>forPeers\<close> is given. No module of the gateway sees the ORM or an entity manager, as its comment promises.
\<close>
theorem applications_wired:
  assumes "library_ok lb"
  shows "wired (gateway_app lb (gateway_messaging env url)) \<and> wired (user_app lb (messaging_for_peers env' opts peers))
    \<and> wired (purge_app lb) \<and> wired (migrate_app lb)
    \<and> (\<forall>m \<in> set (gateway_app lb (gateway_messaging env url)).
         ''MikroORM'' \<notin> set (visible (gateway_app lb (gateway_messaging env url)) m)
         \<and> ''EntityManager'' \<notin> set (visible (gateway_app lb (gateway_messaging env url)) m))"
proof -
  have m: "\<exists>opts. gateway_messaging env url = messaging_build env opts ALL_SERVICES True"
    by (auto simp: gateway_messaging_def messaging_for_root_def)
  then obtain o1 where m: "gateway_messaging env url = messaging_build env o1 ALL_SERVICES True" by auto
  have "''MikroORM'' \<notin> set (visible (gateway_app lb (gateway_messaging env url)) x)
      \<and> ''EntityManager'' \<notin> set (visible (gateway_app lb (gateway_messaging env url)) x)"
    if "x \<in> set (gateway_app lb (gateway_messaging env url))" for x
    using visible_known [OF that] gateway_has_no_orm [OF assms m, of "''MikroORM''"]
      gateway_has_no_orm [OF assms m, of "''EntityManager''"] by (auto simp del: set_append)
  then show ?thesis
    using gateway_wired [OF assms m] user_wired [OF assms messaging_for_peers_def] purge_wired [OF assms] migrate_wired
    by simp
qed

lemma applications_wired_witness:
  "let lb = \<lparr>lb_config = [''ConfigService''], lb_throttler = [''THROTTLER:MODULE_OPTIONS'', ''ThrottlerStorage''],
             lb_throttlerGuard = [''THROTTLER:MODULE_OPTIONS'', ''ThrottlerStorage'', ''Reflector''],
             lb_passport = [], lb_jwt = [''JwtService''], lb_terminus = [''HealthCheckService''],
             lb_orm = [''MikroORM'', ''EntityManager''], lb_repositories = map (\<lambda>e. e @ ''Repository'')\<rparr>
   in wired (gateway_app lb (gateway_messaging (\<lambda>_. None) ''amqp://x''))
      \<and> wired (user_app lb (user_app_messaging (\<lambda>_. None) ''amqp://x''))"
proof -
  let ?lb = "\<lparr>lb_config = [''ConfigService''], lb_throttler = [''THROTTLER:MODULE_OPTIONS'', ''ThrottlerStorage''],
             lb_throttlerGuard = [''THROTTLER:MODULE_OPTIONS'', ''ThrottlerStorage'', ''Reflector''],
             lb_passport = [], lb_jwt = [''JwtService''], lb_terminus = [''HealthCheckService''],
             lb_orm = [''MikroORM'', ''EntityManager''], lb_repositories = map (\<lambda>e. e @ ''Repository'')\<rparr>"
  have "library_ok ?lb" by (simp add: library_ok_def framework_tokens_def)
  from applications_wired [OF this, of "\<lambda>_. None" "''amqp://x''" "\<lambda>_. None"]
  show ?thesis by (simp add: Let_def user_app_messaging_def)
qed

end
