(* ===== verification/Clients.thy ===== *)
theory Clients
  imports Observability Messaging Gateway_Rpc
begin

section \<open>The clients of the broker and of Redis\<close>

text \<open>
  \<open>libs/messaging/src/amqp/custom-amqp-proxy.ts\<close>: what the gateway's client adds to the packets of Nest's
  \<open>ClientRMQ\<close>, whose methods are parameters (\<open>super_emit\<close>, \<open>super_send\<close>, \<open>super_dispatch\<close>); and the
  connection of \<open>token-store.service.ts\<close>. \<open>store\<close> is the request context at the time of a call, \<open>uuid\<close>
  the next random id.
\<close>

subsection \<open>The proxy\<close>

record packet =
  pk_pattern :: string
  pk_data :: jsval

definition attach :: "request_context option \<Rightarrow> string \<Rightarrow> jsval \<Rightarrow> jsval" where
  "attach store uuid payload = attach_trace_id (get_or_create_trace_id store uuid) payload"

definition enrich :: "request_context option \<Rightarrow> string \<Rightarrow> packet \<Rightarrow> packet" where
  "enrich store uuid p = p\<lparr>pk_data := attach store uuid (pk_data p)\<rparr>"

definition proxy_dispatch_event ::
  "(packet \<Rightarrow> emit_outcome) \<Rightarrow> request_context option \<Rightarrow> string \<Rightarrow> packet \<Rightarrow> emit_outcome" where
  "proxy_dispatch_event super_dispatch store uuid p = super_dispatch (enrich store uuid p)"

definition proxy_emit ::
  "(string \<Rightarrow> jsval \<Rightarrow> emit_outcome) \<Rightarrow> request_context option \<Rightarrow> string \<Rightarrow> string \<Rightarrow> jsval \<Rightarrow> emit_outcome" where
  "proxy_emit super_emit store uuid pattern payload = super_emit pattern (attach store uuid payload)"

definition proxy_send ::
  "(string \<Rightarrow> jsval \<Rightarrow> 'reply) \<Rightarrow> request_context option \<Rightarrow> string \<Rightarrow> string \<Rightarrow> jsval \<Rightarrow> 'reply" where
  "proxy_send super_send store uuid pattern payload = super_send pattern (attach store uuid payload)"

text \<open>
  What is relied on of \<open>ClientRMQ.emit\<close>: it fails to connect, or it hands the packet to \<open>dispatchEvent\<close>,
  by then perhaps in another context.
\<close>

definition emit_dispatches :: "(string \<Rightarrow> jsval \<Rightarrow> emit_outcome) \<Rightarrow> (packet \<Rightarrow> emit_outcome) \<Rightarrow> bool" where
  "emit_dispatches super_emit dispatch \<longleftrightarrow>
     (\<forall>p d. super_emit p d = dispatch \<lparr>pk_pattern = p, pk_data = d\<rparr> \<or> (\<exists>e. super_emit p d = EmitFails e))"

subsection \<open>One trace id per event\<close>

lemma with_key_get: "js_get (with_key (JObj kvs) k v) k = v"
proof -
  have "map_of (filter (\<lambda>(k', _). k' \<noteq> k) kvs @ [(k, v)]) k = Some v" by (induction kvs) auto
  then show ?thesis by simp
qed

lemma attach_trace_id_stable:
  "t \<noteq> [] \<Longrightarrow> attach_trace_id t' (attach_trace_id t payload) = attach_trace_id t payload"
  using with_key_get [of _ "''__traceId''" "JStr t"]
  by (cases payload) (simp_all add: attach_trace_id_def)

lemma created_id_not_empty:
  "(\<And>c. store = Some c \<Longrightarrow> rq_traceId c \<noteq> []) \<Longrightarrow> get_or_create_trace_id store uuid \<noteq> []"
  by (cases store) (simp_all add: get_or_create_trace_id_def get_trace_id_def generate_trace_id_def)

text \<open>
  An event passes the proxy twice, in \<open>emit\<close> and in \<open>dispatchEvent\<close>; the second pass keeps the trace id
  of the first, also when it runs outside the request's context, where it would draw another one.
\<close>

theorem event_keeps_first_trace_id:
  assumes base: "emit_dispatches super_emit (proxy_dispatch_event super_dispatch store' uuid')"
    and id: "\<And>c. store = Some c \<Longrightarrow> rq_traceId c \<noteq> []"
  shows "proxy_emit super_emit store uuid pattern payload
      = super_dispatch \<lparr>pk_pattern = pattern, pk_data = attach store uuid payload\<rparr>
    \<or> (\<exists>e. proxy_emit super_emit store uuid pattern payload = EmitFails e)"
proof -
  have "attach store' uuid' (attach store uuid payload) = attach store uuid payload"
    unfolding attach_def by (rule attach_trace_id_stable [OF created_id_not_empty [OF id]])
  then have "proxy_dispatch_event super_dispatch store' uuid' \<lparr>pk_pattern = pattern, pk_data = attach store uuid payload\<rparr>
      = super_dispatch \<lparr>pk_pattern = pattern, pk_data = attach store uuid payload\<rparr>"
    by (simp add: proxy_dispatch_event_def enrich_def)
  with base show ?thesis unfolding proxy_emit_def emit_dispatches_def by metis
qed

text \<open>The RPC of a request in a context carries the context's trace id to the handler.\<close>

theorem sent_rpc_carries_trace_id:
  assumes ctx: "store = Some (gateway_context header u)" and free: "js_get (JObj payload) ''__traceId'' = JUndef"
  shows "proxy_send (\<lambda>p d. rpc_context svc True d u3) store u2 pattern (JObj payload)
    = Some (JStr (rq_traceId (gateway_context header u)), svc)"
  unfolding proxy_send_def attach_def ctx
  by (rule trace_id_survives_rpc [OF refl free, THEN conjunct1])

subsection \<open>The connection to Redis\<close>

record redis_options =
  ro_url :: string
  ro_lazyConnect :: bool
  ro_maxRetriesPerRequest :: nat

definition token_store_client :: "(string \<Rightarrow> exn + string) \<Rightarrow> exn + redis_options" where
  "token_store_client getOrThrow =
     map_sum (\<lambda>e. e) (\<lambda>url. \<lparr>ro_url = url, ro_lazyConnect = True, ro_maxRetriesPerRequest = 3\<rparr>)
       (getOrThrow ''REDIS_URL'')"

datatype redis_event = RedisError string | RedisReconnecting

definition redis_line :: "redis_event \<Rightarrow> log_line" where
  "redis_line ev =
     (case ev of
        RedisError m \<Rightarrow> ErrorLine (''Redis error: '' @ m)
      | RedisReconnecting \<Rightarrow> WarnLine (''Redis reconnecting - blacklist checks may be stale''))"

end
