(* ===== verification/Spec2Isabelle.thy ===== *)
theory Spec2Isabelle
  imports Http_Edge Outbox_Ledger Session_Properties Outbox_Properties User_Purge Migrations Edge_Users
    Scaffold Audit_Env Boot_Sequence Observability Messaging OAuth_Properties Bootstrap Config_Classes Gateway_App
    Broker_Boot Wiring Clients
begin

text \<open>
  \<^bold>\<open>A model of the NestJS microservice boilerplate\<close>

  The program is a gateway (\<open>apps/gateway\<close>, HTTP), a user service (\<open>apps/user\<close>, RPC over RabbitMQ)
  and two one-shot tasks (\<open>tasks/user-purge\<close>, \<open>tasks/db-migrate\<close>) around shared libraries
  (\<open>libs/common\<close>, \<open>libs/database\<close>, \<open>libs/messaging\<close>). The gateway authenticates requests with JWTs,
  rotates refresh tokens against a revocation list in Redis, verifies OAuth tokens with VK and Yandex,
  and forwards everything about accounts to the user service as messages. The user service keeps users,
  devices and an outbox in MongoDB; the outbox dispatcher publishes the staged events to a topic
  exchange. The purge task removes what a soft delete left behind, the migration task runs the scripts
  under \<open>tools/migrations\<close>.

  \<^bold>\<open>Shared foundations.\<close>
  \<^item> \<open>Prelude\<close>: TypeScript's operators and string methods, collections keyed by a field, \<open>reachable\<close>
    and \<open>steps_along\<close> with the locales \<open>invariant_system\<close> and \<open>simulation\<close> that the state machines
    interpret.
  \<^item> \<open>Js_Value\<close>: untyped values, \<open>redactSecrets\<close> and \<open>parseUserDeleted\<close>. Redaction stops below
    \<open>max_depth\<close> (6, the source's \<open>MAX_DEPTH\<close>); what is shown is stated for \<open>Suc max_depth\<close> levels.
  \<^item> \<open>Rpc_Errors\<close>: \<open>MicroserviceException\<close>, both exception filters and \<open>RpcClientService.unwrapError\<close>.
    \<open>Env_Config\<close>, \<open>Config_Classes\<close>: \<open>require-env.ts\<close>, \<open>validate-env.ts\<close>, the queue names, the three
    configuration classes. \<open>Class_Validator\<close>, \<open>Request_Dto\<close>: decorators as data and the DTO classes
    built from them, with the gateway's \<open>ValidationPipe\<close>.
  \<^item> \<open>Entities\<close>: the three collections as records, \<open>db_unique\<close> for the unique indexes, \<open>user_wf\<close> and
    \<open>db_wf\<close> for well-formed accounts. \<open>Store\<close>: the entity manager as a record \<open>driver\<close> of its
    operations, \<open>driver_ok\<close> for what is relied on, units of work as lists of changes; a failed flush
    may have written any part of them. \<open>Mem_Store\<close>: an in-memory driver that satisfies it.

  \<^bold>\<open>The user service.\<close>
  \<^item> \<open>Users_Service\<close> (every method of \<open>users.service.ts\<close>), \<open>Email_Service\<close>, \<open>Users_Controller\<close> (one
    constructor of \<open>user_message\<close> per RPC pattern). A method takes the driver, the environment of the
    call (clock, new ids, hashes) and the database and returns an exception or a result, and the
    database. \<open>Users_Invariants\<close> proves that each method keeps the accounts well formed, keeps every
    account and lets token versions only grow, also when a write fails; \<open>Users_Properties\<close> the
    behaviour of registration, log-in, upgrade, OAuth, password reset, profile and deletion.
  \<^item> \<open>Outbox\<close>, \<open>Outbox_Lifecycle\<close>: staging, the sweep with its loop (\<open>MAX_BATCH\<close> 25, \<open>MAX_ATTEMPTS\<close> 10),
    the timer and shutdown as a step relation, the locale \<open>event_publisher\<close> for what the dispatcher
    calls. \<open>Outbox_Ledger\<close> is its specification, a map from keys to status and attempts, and the
    simulation that the implementation refines it; \<open>Outbox_Properties\<close> shows that the outbox drains,
    that one sweep runs at a time and that a deletion's event reaches a subscriber.
  \<^item> \<open>Event_Bus\<close>, \<open>Messaging\<close>: publishing and dead letters, the exchanges, queues and bindings as the
    list of channel operations, the connection's boot timeout, the RPC clients and servers and their
    queue names, trace ids on their way through an RPC. \<open>Clients\<close>: \<open>CustomAmqpProxy\<close>, whose two
    passes over an event leave one trace id, and the connection to Redis.

  \<^bold>\<open>The gateway.\<close>
  \<^item> \<open>Parse_Platform\<close>, \<open>Auth_Tokens\<close>, \<open>Token_Store\<close>, \<open>OAuth\<close>: the decisions of guards, pipes and
    interceptors, the JWT strategies, the revocation list (locale \<open>revocation_list\<close>), the verifiers
    (locale \<open>oauth_verifier\<close>).
  \<^item> \<open>Auth_Service\<close>: every method of \<open>auth.service.ts\<close> and the controller's handlers. \<open>Edge_Users\<close>: the
    profile endpoints. \<open>Gateway_App\<close>: rate limits and health probes. \<open>Http_Edge\<close>: a request through
    guards, validation, handler and filter, for every route.
  \<^item> \<open>Gateway_Rpc\<close> composes \<open>rpc_send\<close>, a wire and the user service's controller into one \<open>rpc\<close>; the
    locale \<open>identity_service\<close> in \<open>Sessions\<close> is the contract the gateway's reasoning about sessions
    needs, interpreted on that composition. \<open>Gateway_Properties\<close>, \<open>Session_Properties\<close> and
    \<open>OAuth_Properties\<close> hold the results; \<open>Gateway_Demo\<close> the instances their examples run on.

  \<^bold>\<open>The tasks and the processes.\<close> \<open>User_Purge\<close> (\<open>GRACE_DAYS\<close> 30), \<open>Db_Migrate\<close> (with the reference
  \<open>up_in_order\<close>: the pending scripts, one after the other, until the first failure), \<open>Bootstrap\<close>
  (exit codes, shutdown, log lines, Sentry's scrubbing, the metrics listener, the API document).
  \<open>Migrations\<close>: the two scripts the runner loads, over the raw \<open>users\<close> collection.

  \<open>Boot_Sequence\<close>: the start of the four processes. A main file is a sequence of calls on the framework
  (\<open>run_ops\<close> performs them up to the first failure); the application module is read before
  \<open>assertRequiredEnv\<close>, and \<open>fate\<close> says whether the process serves, has ended, or lingers because the
  handlers of \<open>installProcessErrorHandlers\<close> were there already. \<open>Observability\<close>: the access logs of both
  processes, \<open>log-and-capture.ts\<close> and the metrics.

  \<open>Broker_Boot\<close>: \<open>onApplicationBootstrap\<close> of the event bus as a run over what happens on the connection
  and to the timers, its agreement with \<open>await_connect\<close>, and the process whose hook fails. \<open>Wiring\<close>: the
  modules of the four applications as Nest's dependency injection sees them (\<open>di_module\<close>; \<open>visible\<close> is
  what a module can inject, re-exports followed to \<open>reexport_depth\<close>, 2, which is deeper than any chain in
  the repository), and that every constructor argument can be found.

  \<^bold>\<open>The service generator.\<close> \<open>Scaffold\<close> is \<open>tools/scaffold-service.mjs\<close>: names, anchored edits, generated
  files, and the checks that come before the first write; the repository is a map from paths to texts.
  \<open>Js_Text\<close> holds \<open>replace\<close> with a string pattern and what is known of occurrences of a text.
  \<open>Audit_Env\<close> is \<open>tools/audit-env.mjs\<close>: its regular expressions as matchers, the scan, and the report;
  \<open>scan_finds\<close> and \<open>reads_call\<close> show that no call of the environment helpers escapes the scanner.

  \<^bold>\<open>How to read a result.\<close> Exceptions are values (\<open>Inl\<close>) and carry what a filter or a \<open>catch\<close> reads
  of them. All definitions are total: the loops of the source run over finite lists and are structural
  recursions, so no fuel is needed; the only thing that may not end is waiting for the broker without a
  timeout, where \<open>await_connect\<close> gives \<open>None\<close>. Concurrency appears where the source leaves room for it:
  the lifecycle of the dispatcher, two refreshes past their guards, a store that changes between the
  messages of a gateway call. Code outside the repository is a parameter with a named hypothesis:
  \<open>driver_ok\<close> (MikroORM on MongoDB), \<open>jwt_ok\<close>, \<open>passport_ok\<close>, \<open>redis_ok\<close>, \<open>wire_sound\<close> and \<open>wire_up\<close>
  (RabbitMQ and Nest's transport), \<open>checkers_ok\<close> (validator), \<open>ledger_ok\<close> (the collection of applied
  migrations), \<open>api_ok\<close> and \<open>server_answers\<close> (the raw collection), \<open>terminus_ok\<close>, \<open>library_ok\<close> (what the
  modules of libraries export). Which strings hold a lone surrogate (\<open>lone\<close>) is a parameter, since the
  model's strings have code units below 256; argon2, SHA-256, the clock and random ids are functions of
  the call's environment. Each hypothesis is shown to hold on a concrete instance.

  Several results state a behaviour the code's own comments deny: the reset answered with 503, the
  outage of the revocation list masked as 401, concurrent refreshes that both succeed, a log-out that
  reports a success it did not have, the deleted account handed out again, the unverified address that
  becomes a merge key, rows marked sent that no bus took, a generator that works once, an aggregated
  check of the environment that comes too late, a check of the token type that tells no refresh token
  from an access token, an OAuth token that is answered with 500, a quoted \<open>PORT\<close> that passes validation
  and leaves the gateway up without serving, and an unreachable broker that does not restart the pod.

  \<^bold>\<open>Not modelled.\<close> The Swagger and validation decorators as such (the validation they cause is in \<open>Request_Dto\<close>); winston's
  formats and Sentry's own integrations; the configuration of the test runner and the linter; the tests.
\<close>

end
